(* ===== verification/Prelude.thy ===== *)
theory Prelude
  imports Main "HOL-Library.List_Lexorder" "HOL-Library.Char_ord"
begin

text \<open>
  Shared ground of the development: the exceptions of the API and the sum-typed results that
  carry them, sequencing of fallible statements, the text functions of JavaScript and PostgreSQL
  that the services use, and the generic list lemmas of the component proofs.

  A value of type \<open>exn + 'a\<close> is the outcome of a statement: \<open>Inl\<close> an exception, \<open>Inr\<close> a
  result.  The collection \<open>tx_simps\<close> inverts sequences of such statements.
\<close>

named_theorems tx_simps "inversion of sequences of fallible statements"

section \<open>Identifiers, time and text\<close>

type_synonym uuid = string
type_synonym timestamptz = int  \<comment> \<open>microseconds since the epoch, as PostgreSQL stores it\<close>
type_synonym js_date = int      \<comment> \<open>milliseconds since the epoch, as a JavaScript Date holds it\<close>

text \<open>
  Strings are sequences of 8-bit units; case mapping is modelled on the ASCII letters.
\<close>

definition ascii_lower :: "char \<Rightarrow> char" where
  "ascii_lower c =
     (if 65 \<le> (of_char c :: nat) \<and> (of_char c :: nat) \<le> 90
      then char_of ((of_char c :: nat) + 32) else c)"

lemma ascii_lower_idem [simp]: "ascii_lower (ascii_lower c) = ascii_lower c"
proof (cases "65 \<le> (of_char c :: nat) \<and> (of_char c :: nat) \<le> 90")
  case True
  then have "of_char (char_of ((of_char c :: nat) + 32) :: char) = (of_char c :: nat) + 32"
    by (simp add: take_bit_eq_mod)
  with True show ?thesis by (simp add: ascii_lower_def)
next
  case False
  then have "ascii_lower c = c" by (auto simp: ascii_lower_def)
  then show ?thesis by simp
qed

definition lower :: "string \<Rightarrow> string" where
  "lower s = map ascii_lower s"

lemma lower_idem [simp]: "lower (lower s) = lower s"
  by (simp add: lower_def)

text \<open>A \<open>uuid\<close> column compares and prints its value in lower case, whatever the request's case was.\<close>

definition pg_uuid :: "string \<Rightarrow> uuid" where
  "pg_uuid s = lower s"

lemma pg_uuid_idem [simp]: "pg_uuid (pg_uuid s) = pg_uuid s"
  by (simp add: pg_uuid_def)

text \<open>
  PostgreSQL's \<open>btrim\<close> removes blanks only; JavaScript's \<open>trim\<close> removes every white space
  character (of the 8-bit units: tab, line feed, vertical tab, form feed, return, blank and
  the no-break space).
\<close>

definition btrim :: "string \<Rightarrow> string" where
  "btrim s = (let blank = (\<lambda>c. c = CHR '' '') in rev (dropWhile blank (rev (dropWhile blank s))))"

definition js_space :: "char \<Rightarrow> bool" where
  "js_space c \<longleftrightarrow> (of_char c :: nat) \<in> {9, 10, 11, 12, 13, 32, 160}"

definition js_trim :: "string \<Rightarrow> string" where
  "js_trim s = rev (dropWhile js_space (rev (dropWhile js_space s)))"

text \<open>
  PostgreSQL holds microseconds, a JavaScript \<open>Date\<close> milliseconds: reading a \<open>timestamptz\<close>
  drops the microseconds, writing a \<open>Date\<close> has none.
\<close>

definition date_of_timestamp :: "timestamptz \<Rightarrow> js_date" where
  "date_of_timestamp t = t div 1000"

definition timestamp_of_date :: "js_date \<Rightarrow> timestamptz" where
  "timestamp_of_date d = d * 1000"

lemma date_of_timestamp_of_date [simp]: "date_of_timestamp (timestamp_of_date d) = d"
  by (simp add: date_of_timestamp_def timestamp_of_date_def)

section \<open>Results of fallible statements\<close>

fun andThen :: "'e + 'a \<Rightarrow> ('a \<Rightarrow> 'e + 'b) \<Rightarrow> 'e + 'b" where
  "andThen (Inl e) f = Inl e"
| "andThen (Inr x) f = f x"

lemma andThen_Inr_iff [tx_simps]:
  "andThen m f = Inr y \<longleftrightarrow> (\<exists>x. m = Inr x \<and> f x = Inr y)"
  by (cases m) auto

lemma andThen_Inl_iff [tx_simps]:
  "andThen m f = Inl e \<longleftrightarrow> m = Inl e \<or> (\<exists>x. m = Inr x \<and> f x = Inl e)"
  by (cases m) auto

text \<open>The constraints of a statement are checked in order; the first that fails is the error.\<close>

fun require :: "(bool \<times> 'e) list \<Rightarrow> 'a \<Rightarrow> 'e + 'a" where
  "require [] x = Inr x"
| "require ((ok, e) # cs) x = (if ok then require cs x else Inl e)"

declare require.simps [simp del]

lemma require_Inr_iff [tx_simps]:
  "require cs x = Inr y \<longleftrightarrow> y = x \<and> (\<forall>c \<in> set cs. fst c)"
  by (induction cs x rule: require.induct) (auto simp: require.simps)

lemma require_Inl: "require cs x = Inl e \<Longrightarrow> \<exists>c \<in> set cs. \<not> fst c \<and> snd c = e"
  by (induction cs x rule: require.induct) (auto simp: require.simps split: if_splits)

section \<open>Lists\<close>

definition js_map :: "('k \<times> 'v) list \<Rightarrow> 'k \<Rightarrow> 'v option" where
  \<comment> \<open>\<open>new Map(entries)\<close>: a later entry overwrites an earlier one with the same key\<close>
  "js_map es = map_of (rev es)"

lemma js_map_distinct:
  "distinct (map fst es) \<Longrightarrow> js_map es k = Some v \<longleftrightarrow> (k, v) \<in> set es"
  by (simp add: js_map_def flip: rev_map)

lemma js_map_Some_in: "js_map es k = Some v \<Longrightarrow> (k, v) \<in> set es"
  by (auto simp: js_map_def dest: map_of_SomeD)

lemma js_map_None_iff: "js_map es k = None \<longleftrightarrow> k \<notin> fst ` set es"
  by (simp add: js_map_def map_of_eq_None_iff)

lemma find_distinct:
  assumes "distinct (map f xs)" and "x \<in> set xs"
  shows "find (\<lambda>y. f y = f x) xs = Some x"
  using assms by (induction xs) auto

lemma find_unique:
  assumes "distinct (map f xs)" and "x \<in> set xs" and "P x" and "\<And>y. y \<in> set xs \<Longrightarrow> P y \<Longrightarrow> f y = f x"
  shows "find P xs = Some x"
proof -
  have "find P xs \<noteq> None" using assms(2,3) by (auto simp: find_None_iff)
  then obtain y where y: "find P xs = Some y" by auto
  then have "y \<in> set xs" "P y" by (auto simp: find_Some_iff)
  with assms have "f y = f x" by blast
  with assms(1,2) \<open>y \<in> set xs\<close> have "y = x" by (auto simp: distinct_map inj_on_def)
  with y show ?thesis by simp
qed

lemma find_Some_in: "find P xs = Some x \<Longrightarrow> x \<in> set xs \<and> P x"
  by (auto simp: find_Some_iff)

lemma distinct_map_inj: "distinct (map f xs) \<Longrightarrow> x \<in> set xs \<Longrightarrow> y \<in> set xs \<Longrightarrow> f x = f y \<Longrightarrow> x = y"
  by (auto simp: distinct_map inj_on_def)

lemma distinct_set_map_eq:
  "distinct (map f xs) \<longleftrightarrow> card (set (map f xs)) = length xs"
  by (metis card_distinct distinct_card length_map)

lemma filter_unique:
  assumes "distinct (map f xs)" and "x \<in> set xs" and "P x" and "\<And>y. y \<in> set xs \<Longrightarrow> P y \<Longrightarrow> f y = f x"
  shows "filter P xs = [x]"
  using assms
proof (induction xs)
  case (Cons y ys)
  show ?case
  proof (cases "x = y")
    case True
    have "\<not> P z" if "z \<in> set ys" for z
    proof
      assume "P z"
      then have "f z = f y" using Cons.prems(4) [of z] that True by simp
      moreover have "f z \<in> f ` set ys" using that by (rule imageI)
      moreover have "f y \<notin> f ` set ys" using Cons.prems(1) by simp
      ultimately show False by simp
    qed
    with True Cons.prems(3) show ?thesis by (simp add: filter_empty_conv)
  next
    case False
    then have x: "x \<in> set ys" using Cons.prems(2) by simp
    then have "f x \<in> f ` set ys" by (rule imageI)
    moreover have "f y \<notin> f ` set ys" using Cons.prems(1) by simp
    ultimately have "f y \<noteq> f x" by metis
    then have "\<not> P y" using Cons.prems(4) [of y] by (metis list.set_intros(1))
    moreover have "filter P ys = [x]"
    proof (rule Cons.IH [OF _ x Cons.prems(3)])
      show "distinct (map f ys)" using Cons.prems(1) by simp
      show "f z = f x" if "z \<in> set ys" "P z" for z using Cons.prems(4) that by simp
    qed
    ultimately show ?thesis by simp
  qed
qed simp

text \<open>Sums of a field over the rows that satisfy a condition.\<close>

definition sum_where :: "('a \<Rightarrow> bool) \<Rightarrow> ('a \<Rightarrow> int) \<Rightarrow> 'a list \<Rightarrow> int" where
  "sum_where P f xs = sum_list (map f (filter P xs))"

lemma sum_where_Nil [simp]: "sum_where P f [] = 0"
  by (simp add: sum_where_def)

lemma sum_where_Cons [simp]:
  "sum_where P f (x # xs) = (if P x then f x else 0) + sum_where P f xs"
  by (simp add: sum_where_def)

lemma sum_where_append [simp]: "sum_where P f (xs @ ys) = sum_where P f xs + sum_where P f ys"
  by (simp add: sum_where_def)

lemma sum_where_map: "sum_where P f (map g xs) = sum_where (P \<circ> g) (f \<circ> g) xs"
  by (induction xs) auto

lemma sum_where_cong:
  "(\<And>x. x \<in> set xs \<Longrightarrow> P x = Q x) \<Longrightarrow> (\<And>x. x \<in> set xs \<Longrightarrow> P x \<Longrightarrow> f x = g x) \<Longrightarrow>
    sum_where P f xs = sum_where Q g xs"
  by (induction xs) auto

lemma sum_where_False: "(\<And>x. x \<in> set xs \<Longrightarrow> \<not> P x) \<Longrightarrow> sum_where P f xs = 0"
  by (induction xs) auto

lemma sum_where_nonneg: "(\<And>x. x \<in> set xs \<Longrightarrow> P x \<Longrightarrow> 0 \<le> f x) \<Longrightarrow> 0 \<le> sum_where P f xs"
  by (induction xs) (auto intro: add_nonneg_nonneg)

lemma sum_where_mono:
  assumes "\<And>x. x \<in> set xs \<Longrightarrow> P x \<Longrightarrow> Q x" and "\<And>x. x \<in> set xs \<Longrightarrow> Q x \<Longrightarrow> 0 \<le> f x"
  shows "sum_where P f xs \<le> sum_where Q f xs"
  using assms by (induction xs) (force intro: add_mono)+

lemma sum_where_split:
  "sum_where P f xs = sum_where (\<lambda>x. P x \<and> Q x) f xs + sum_where (\<lambda>x. P x \<and> \<not> Q x) f xs"
  by (induction xs) auto

lemma sum_where_filter: "sum_where P f (filter Q xs) = sum_where (\<lambda>x. P x \<and> Q x) f xs"
  by (induction xs) auto

lemma sum_where_uminus: "sum_where P (\<lambda>x. - f x) xs = - sum_where P f xs"
  by (induction xs) auto

lemma sum_where_insort [simp]: "sum_where P f (insort_key k x xs) = sum_where P f (x # xs)"
  by (induction xs) auto

lemma sum_where_sort [simp]: "sum_where P f (sort_key k xs) = sum_where P f xs"
  by (induction xs) auto

lemma sum_where_mult: "sum_where P (\<lambda>x. c * f x) xs = c * sum_where P f xs"
  by (induction xs) (auto simp: distrib_left)

lemma sum_where_zero [simp]: "sum_where P (\<lambda>x. 0) xs = 0"
  by (induction xs) auto

lemma sum_where_member_le:
  assumes "x \<in> set xs" and "P x" and "\<And>y. y \<in> set xs \<Longrightarrow> P y \<Longrightarrow> 0 \<le> f y"
  shows "f x \<le> sum_where P f xs"
  using assms
proof (induction xs)
  case (Cons y ys)
  have "0 \<le> sum_where P f ys" using Cons.prems(3) by (auto intro: sum_where_nonneg)
  with Cons show ?case by (cases "x = y") (auto intro: add_increasing)
qed simp

lemma sum_where_unique:
  assumes "distinct (map k xs)" and "x \<in> set xs"
  shows "sum_where (\<lambda>y. k y = k x) f xs = f x"
  using assms
proof (induction xs)
  case (Cons y ys)
  show ?case
  proof (cases "x = y")
    case True
    with Cons.prems have "sum_where (\<lambda>z. k z = k x) f ys = 0"
      by (intro sum_where_False) (auto simp: image_iff)
    with True show ?thesis by simp
  next
    case False
    with Cons.prems have "k y \<noteq> k x" by force
    with False Cons show ?thesis by simp
  qed
qed simp

end
