(* ===== verification/Outcomes.thy ===== *)
theory Outcomes
  imports Prelude
begin

text \<open>
  The results of the API's write operations (\<open>common/operation-outcome.util.ts\<close>, the result
  interfaces of the services), its exceptions, and the classification of database errors
  (\<open>common/pg-error.util.ts\<close>).
\<close>

section \<open>Response bodies\<close>

datatype order_status = Pending | Fulfilled | Cancelled

record reservation_item_result =
  rir_productId :: string
  rir_quantity :: int
  rir_unitPriceCents :: int

record reservation_result =
  rr_orderId :: uuid
  rr_status :: order_status
  rr_currency :: string
  rr_items :: "reservation_item_result list"
  rr_createdAt :: string

record release_result =
  rel_orderId :: uuid
  rel_status :: order_status
  rel_cancelledAt :: "string option"

record fulfill_result =
  ful_orderId :: uuid
  ful_status :: order_status
  ful_fulfilledAt :: "string option"

record inventory_line =
  il_productId :: string
  il_sku :: string
  il_name :: string
  il_onHand :: int
  il_reserved :: int
  il_available :: int

record shortfall =
  sf_productId :: string
  sf_requested :: int
  sf_available :: int

text \<open>
  The body of a rejection is a message with the details the rejecting branch adds.
\<close>

datatype reject_body =
  Message string
| MessageShortfalls string "shortfall list"
| MessageOnHand string int int            \<comment> \<open>\<open>onHand\<close>, \<open>delta\<close>\<close>
| MessageReserved string int int int      \<comment> \<open>\<open>onHand\<close>, \<open>reserved\<close>, \<open>delta\<close>\<close>

text \<open>What a \<open>response_body\<close> column can hold: the body of an outcome, or SQL NULL.\<close>

datatype response_body =
  ReservationBody reservation_result
| ReleaseBody release_result
| FulfillBody fulfill_result
| InventoryBody inventory_line
| RejectBody reject_body
| NullBody

section \<open>Exceptions\<close>

text \<open>
  \<open>DrizzleQueryError\<close> is the ORM's wrapper with the driver's error as its \<open>cause\<close>;
  \<open>DriverError\<close> is the driver's error itself.  Both carry the SQLSTATE code and, when the server
  reports one, the name of the violated constraint.
\<close>

datatype exn =
  HttpException response_body nat
| IdempotencyKeyClaimedError
| DrizzleQueryError string "string option"
| DriverError string "string option"
| TypeError string
| RangeError string
| PlainError string

definition pgErrorCode :: "exn \<Rightarrow> string option" where
  "pgErrorCode e =
     (case e of DrizzleQueryError code _ \<Rightarrow> Some code | DriverError code _ \<Rightarrow> Some code | _ \<Rightarrow> None)"

definition pgErrorConstraint :: "exn \<Rightarrow> string option" where
  "pgErrorConstraint e =
     (case e of DrizzleQueryError _ c \<Rightarrow> c | DriverError _ c \<Rightarrow> c | _ \<Rightarrow> None)"

definition PG_UNIQUE_VIOLATION :: string where
  "PG_UNIQUE_VIOLATION = ''23505''"

definition PG_FOREIGN_KEY_VIOLATION :: string where
  "PG_FOREIGN_KEY_VIOLATION = ''23503''"

definition PG_CHECK_VIOLATION :: string where
  "PG_CHECK_VIOLATION = ''23514''"

definition PG_NUMERIC_OUT_OF_RANGE :: string where
  \<comment> \<open>not named by the code, but raised by the server for an \<open>integer\<close> that does not fit\<close>
  "PG_NUMERIC_OUT_OF_RANGE = ''22003''"

definition PG_STRING_TRUNCATION :: string where
  "PG_STRING_TRUNCATION = ''22001''"

definition unique_violation :: "string \<Rightarrow> exn" where
  "unique_violation c = DrizzleQueryError PG_UNIQUE_VIOLATION (Some c)"

definition fk_violation :: "string \<Rightarrow> exn" where
  "fk_violation c = DrizzleQueryError PG_FOREIGN_KEY_VIOLATION (Some c)"

definition check_violation :: "string \<Rightarrow> exn" where
  "check_violation c = DrizzleQueryError PG_CHECK_VIOLATION (Some c)"

definition out_of_range :: exn where
  "out_of_range = DrizzleQueryError PG_NUMERIC_OUT_OF_RANGE None"

definition string_truncation :: exn where
  "string_truncation = DrizzleQueryError PG_STRING_TRUNCATION None"

lemmas pg_error_defs =
  unique_violation_def fk_violation_def check_violation_def out_of_range_def
  string_truncation_def PG_UNIQUE_VIOLATION_def PG_FOREIGN_KEY_VIOLATION_def
  PG_CHECK_VIOLATION_def PG_NUMERIC_OUT_OF_RANGE_def PG_STRING_TRUNCATION_def

lemma pgErrorCode_simps [simp]:
  "pgErrorCode (unique_violation c) = Some PG_UNIQUE_VIOLATION"
  "pgErrorCode (fk_violation c) = Some PG_FOREIGN_KEY_VIOLATION"
  "pgErrorCode (check_violation c) = Some PG_CHECK_VIOLATION"
  "pgErrorCode out_of_range = Some PG_NUMERIC_OUT_OF_RANGE"
  "pgErrorConstraint (unique_violation c) = Some c"
  by (simp_all add: pgErrorCode_def pgErrorConstraint_def pg_error_defs)

lemma db_errors_not_claimed [simp]:
  "unique_violation c \<noteq> IdempotencyKeyClaimedError" "fk_violation c \<noteq> IdempotencyKeyClaimedError"
  "check_violation c \<noteq> IdempotencyKeyClaimedError" "out_of_range \<noteq> IdempotencyKeyClaimedError"
  "string_truncation \<noteq> IdempotencyKeyClaimedError"
  by (simp_all add: pg_error_defs)

lemmas claimed_not_db_errors [simp] = db_errors_not_claimed [THEN not_sym]

section \<open>Operation outcomes\<close>

record outcome =
  ok :: bool
  status :: nat
  body :: response_body

definition accept :: "nat \<Rightarrow> response_body \<Rightarrow> outcome" where
  "accept s b = \<lparr>ok = True, status = s, body = b\<rparr>"

definition reject :: "nat \<Rightarrow> reject_body \<Rightarrow> outcome" where
  "reject s b = \<lparr>ok = False, status = s, body = RejectBody b\<rparr>"

lemma outcome_simps [simp]:
  "ok (accept s b)" "status (accept s b) = s" "body (accept s b) = b"
  "\<not> ok (reject s r)" "status (reject s r) = s" "body (reject s r) = RejectBody r"
  "accept s b \<noteq> reject s' r" "reject s r \<noteq> accept s' b"
  "accept s b = accept s' b' \<longleftrightarrow> s = s' \<and> b = b'"
  "reject s r = reject s' r' \<longleftrightarrow> s = s' \<and> r = r'"
  by (auto simp: accept_def reject_def)

definition unwrapOutcome :: "outcome \<Rightarrow> exn + response_body" where
  "unwrapOutcome out =
     (if \<not> ok out then Inl (HttpException (body out) (status out)) else Inr (body out))"

text \<open>
  The outcomes the services build: an acceptance has a status below 400, a rejection one of at
  least 400.  A stored outcome is rebuilt from its status and its body alone, so this is what makes
  a replay the same outcome.
\<close>

definition outcome_wf :: "outcome \<Rightarrow> bool" where
  "outcome_wf out \<longleftrightarrow> (ok out \<longleftrightarrow> status out < 400)"

lemma outcome_wf_simps [simp]:
  "outcome_wf (accept s b) \<longleftrightarrow> s < 400" "outcome_wf (reject s r) \<longleftrightarrow> 400 \<le> s"
  by (auto simp: outcome_wf_def)

lemma outcome_eqI: "ok a = ok b \<Longrightarrow> status a = status b \<Longrightarrow> body a = body b \<Longrightarrow> a = (b :: outcome)"
  by simp

end
