(* ===== verification/Schema.thy ===== *)
theory Schema
  imports Outcomes
begin

text \<open>
  The database of the API (\<open>apps/api/src/database/schema\<close>): one record type per table, the
  database as the record of its tables, every table a list of rows in insertion order.  INSERT and
  UPDATE check the constraints the schema declares and fail with the SQLSTATE the server reports;
  a transaction commits the state its body returns or, on an exception, leaves the database as it was.

  Surrogate keys that no query mentions (those of memberships, order items, movements, audit
  entries and idempotency keys) are left out; every other column is there.  A \<open>uuid\<close> column holds
  values in the image of \<open>pg_uuid\<close>.
\<close>

section \<open>Integers\<close>

definition PG_INT4_MAX :: int where
  "PG_INT4_MAX = 2147483647"

definition PG_INT4_MIN :: int where
  "PG_INT4_MIN = -2147483648"

definition int4 :: "int \<Rightarrow> bool" where
  "int4 n \<longleftrightarrow> PG_INT4_MIN \<le> n \<and> n \<le> PG_INT4_MAX"

section \<open>Rows\<close>

record organization =
  org_id :: uuid
  org_name :: string
  org_createdAt :: timestamptz
  org_updatedAt :: timestamptz

record user =
  usr_id :: uuid
  usr_email :: string
  usr_emailNormalized :: string
  usr_displayName :: string
  usr_passwordHash :: string
  usr_createdAt :: timestamptz
  usr_updatedAt :: timestamptz

datatype membership_role = Owner | Staff

record membership =
  mem_organizationId :: uuid
  mem_userId :: uuid
  mem_role :: membership_role
  mem_createdAt :: timestamptz

datatype product_status = Active | Archived

record product =
  prod_id :: uuid
  prod_organizationId :: uuid
  prod_sku :: string
  prod_skuNormalized :: string
  prod_name :: string
  prod_description :: "string option"
  prod_unitPriceCents :: int
  prod_status :: product_status
  prod_createdAt :: timestamptz
  prod_updatedAt :: timestamptz

record inventory_row =
  inv_id :: uuid
  inv_organizationId :: uuid
  inv_productId :: uuid
  inv_onHand :: int
  inv_reserved :: int
  inv_createdAt :: timestamptz
  inv_updatedAt :: timestamptz

datatype movement_type = OnHandAdjustment | Reservation | Release | Fulfillment

record inventory_movement =
  mov_organizationId :: uuid
  mov_productId :: uuid
  mov_movementType :: movement_type
  mov_onHandDelta :: int
  mov_reservedDelta :: int
  mov_reason :: string
  mov_reference :: "string option"  \<comment> \<open>the \<open>orderId\<close> of the JSON reference, if it has one\<close>
  mov_createdAt :: timestamptz

record order =
  ord_id :: uuid
  ord_organizationId :: uuid
  ord_status :: order_status
  ord_currency :: string
  ord_createdAt :: timestamptz
  ord_updatedAt :: timestamptz
  ord_cancelledAt :: "timestamptz option"
  ord_fulfilledAt :: "timestamptz option"

record order_item =
  oi_organizationId :: uuid
  oi_orderId :: uuid
  oi_productId :: uuid
  oi_quantity :: int
  oi_unitPriceCents :: int
  oi_createdAt :: timestamptz

datatype idempotency_state = InProgress | Completed | Failed

record idempotency_key =
  idem_organizationId :: uuid
  idem_operation :: string
  idem_idempotencyKey :: string
  idem_requestFingerprint :: string
  idem_state :: idempotency_state
  idem_responseStatus :: "nat option"
  idem_responseBody :: response_body
  idem_createdAt :: timestamptz
  idem_updatedAt :: timestamptz
  idem_expiresAt :: timestamptz

record reservation_item =
  productId :: string
  quantity :: int

datatype audit_metadata = NoMetadata | MetadataItems "reservation_item list"

record audit_entry =
  aud_organizationId :: uuid
  aud_actorUserId :: "uuid option"
  aud_action :: string
  aud_resourceType :: string
  aud_resourceId :: string
  aud_metadata :: audit_metadata
  aud_createdAt :: timestamptz

record session =
  ses_id :: uuid
  ses_userId :: uuid
  ses_tokenHash :: string
  ses_csrfSecretHash :: string
  ses_createdAt :: timestamptz
  ses_lastActivityAt :: timestamptz
  ses_idleExpiresAt :: timestamptz
  ses_absoluteExpiresAt :: timestamptz
  ses_revokedAt :: "timestamptz option"

record db =
  organizations :: "organization list"
  users :: "user list"
  memberships :: "membership list"
  products :: "product list"
  inventory :: "inventory_row list"
  inventoryMovements :: "inventory_movement list"
  orders :: "order list"
  orderItems :: "order_item list"
  idempotencyKeys :: "idempotency_key list"
  auditLog :: "audit_entry list"
  sessions :: "session list"

definition empty_db :: db where
  "empty_db = \<lparr>organizations = [], users = [], memberships = [], products = [], inventory = [],
     inventoryMovements = [], orders = [], orderItems = [], idempotencyKeys = [], auditLog = [],
     sessions = []\<rparr>"

text \<open>
  What a statement takes from its surroundings: the transaction's \<open>now()\<close>, the application's
  \<open>new Date()\<close>, and the values \<open>gen_random_uuid()\<close> returns.
\<close>

record env =
  env_now :: timestamptz
  env_date :: js_date
  env_uuid :: "nat \<Rightarrow> uuid"

definition new_uuid :: "env \<Rightarrow> nat \<Rightarrow> uuid" where
  "new_uuid e i = pg_uuid (env_uuid e i)"

definition app_time :: "env \<Rightarrow> timestamptz" where
  "app_time e = timestamp_of_date (env_date e)"

lemma pg_uuid_new_uuid [simp]: "pg_uuid (new_uuid e i) = new_uuid e i"
  by (simp add: new_uuid_def)

section \<open>Foreign keys\<close>

definition org_exists :: "db \<Rightarrow> uuid \<Rightarrow> bool" where
  "org_exists d g \<longleftrightarrow> g \<in> org_id ` set (organizations d)"

definition user_exists :: "db \<Rightarrow> uuid \<Rightarrow> bool" where
  "user_exists d u \<longleftrightarrow> u \<in> usr_id ` set (users d)"

definition product_of_org :: "db \<Rightarrow> uuid \<Rightarrow> uuid \<Rightarrow> bool" where
  "product_of_org d p g \<longleftrightarrow> (p, g) \<in> (\<lambda>r. (prod_id r, prod_organizationId r)) ` set (products d)"

definition order_of_org :: "db \<Rightarrow> uuid \<Rightarrow> uuid \<Rightarrow> bool" where
  "order_of_org d o' g \<longleftrightarrow> (o', g) \<in> (\<lambda>r. (ord_id r, ord_organizationId r)) ` set (orders d)"

section \<open>Row checks\<close>

definition inventory_checks :: "inventory_row \<Rightarrow> (bool \<times> exn) list" where
  "inventory_checks r =
     [(int4 (inv_onHand r), out_of_range),
      (int4 (inv_reserved r), out_of_range),
      (0 \<le> inv_onHand r, check_violation ''inventory_on_hand_non_negative''),
      (0 \<le> inv_reserved r, check_violation ''inventory_reserved_non_negative''),
      (inv_reserved r \<le> inv_onHand r, check_violation ''inventory_reserved_not_exceeding_on_hand'')]"

definition inventory_row_ok :: "inventory_row \<Rightarrow> bool" where
  "inventory_row_ok r \<longleftrightarrow>
     0 \<le> inv_reserved r \<and> inv_reserved r \<le> inv_onHand r \<and> inv_onHand r \<le> PG_INT4_MAX"

lemma inventory_checks_iff: "(\<forall>c \<in> set (inventory_checks r). fst c) \<longleftrightarrow> inventory_row_ok r"
  by (auto simp: inventory_checks_def inventory_row_ok_def int4_def PG_INT4_MAX_def PG_INT4_MIN_def)

definition order_item_ok :: "order_item \<Rightarrow> bool" where
  "order_item_ok i \<longleftrightarrow>
     0 < oi_quantity i \<and> oi_quantity i \<le> PG_INT4_MAX \<and>
     0 \<le> oi_unitPriceCents i \<and> oi_unitPriceCents i \<le> PG_INT4_MAX"

definition idem_completed_ok :: "idempotency_key \<Rightarrow> bool" where
  "idem_completed_ok k \<longleftrightarrow> (idem_state k \<noteq> Completed \<or> idem_responseStatus k \<noteq> None)"

definition idem_key_of :: "idempotency_key \<Rightarrow> uuid \<times> string \<times> string" where
  "idem_key_of k = (idem_organizationId k, idem_operation k, idem_idempotencyKey k)"

section \<open>INSERT\<close>

text \<open>Row checks come first, then unique indexes, then foreign keys.\<close>

definition insert_organization :: "organization \<Rightarrow> db \<Rightarrow> exn + db" where
  "insert_organization r d = require
     [(org_id r \<notin> org_id ` set (organizations d), unique_violation ''organizations_pkey'')]
     (d\<lparr>organizations := organizations d @ [r]\<rparr>)"

definition insert_user :: "user \<Rightarrow> db \<Rightarrow> exn + db" where
  "insert_user r d = require
     [(usr_id r \<notin> usr_id ` set (users d), unique_violation ''users_pkey''),
      (usr_emailNormalized r \<notin> usr_emailNormalized ` set (users d),
        unique_violation ''users_email_normalized_key'')]
     (d\<lparr>users := users d @ [r]\<rparr>)"

definition insert_membership :: "membership \<Rightarrow> db \<Rightarrow> exn + db" where
  "insert_membership r d = require
     [((mem_organizationId r, mem_userId r) \<notin>
         (\<lambda>m. (mem_organizationId m, mem_userId m)) ` set (memberships d),
        unique_violation ''memberships_org_user_key''),
      (org_exists d (mem_organizationId r), fk_violation ''memberships_organization_id_organizations_id_fk''),
      (user_exists d (mem_userId r), fk_violation ''memberships_user_id_users_id_fk'')]
     (d\<lparr>memberships := memberships d @ [r]\<rparr>)"

definition insert_product :: "product \<Rightarrow> db \<Rightarrow> exn + db" where
  "insert_product r d = require
     [(int4 (prod_unitPriceCents r), out_of_range),
      (0 \<le> prod_unitPriceCents r, check_violation ''products_unit_price_cents_non_negative''),
      (prod_id r \<notin> prod_id ` set (products d), unique_violation ''products_pkey''),
      ((prod_organizationId r, prod_skuNormalized r) \<notin>
         (\<lambda>p. (prod_organizationId p, prod_skuNormalized p)) ` set (products d),
        unique_violation ''products_org_sku_normalized_key''),
      (org_exists d (prod_organizationId r), fk_violation ''products_organization_id_organizations_id_fk'')]
     (d\<lparr>products := products d @ [r]\<rparr>)"

definition insert_inventory :: "inventory_row \<Rightarrow> db \<Rightarrow> exn + db" where
  "insert_inventory r d = require
     (inventory_checks r @
      [(inv_id r \<notin> inv_id ` set (inventory d), unique_violation ''inventory_pkey''),
       (inv_productId r \<notin> inv_productId ` set (inventory d), unique_violation ''inventory_product_id_key''),
       (org_exists d (inv_organizationId r), fk_violation ''inventory_organization_id_organizations_id_fk''),
       (product_of_org d (inv_productId r) (inv_organizationId r), fk_violation ''inventory_product_org_fk'')])
     (d\<lparr>inventory := inventory d @ [r]\<rparr>)"

text \<open>The ORM refuses an insert of no rows.\<close>

definition no_values :: exn where
  "no_values = PlainError ''values() must be called with at least one value''"

definition insert_movements :: "inventory_movement list \<Rightarrow> db \<Rightarrow> exn + db" where
  "insert_movements rs d = require
     [(rs \<noteq> [], no_values),
      (\<forall>r \<in> set rs. int4 (mov_onHandDelta r) \<and> int4 (mov_reservedDelta r), out_of_range),
      (\<forall>r \<in> set rs. org_exists d (mov_organizationId r),
        fk_violation ''inventory_movements_organization_id_organizations_id_fk''),
      (\<forall>r \<in> set rs. product_of_org d (mov_productId r) (mov_organizationId r),
        fk_violation ''inventory_movements_product_org_fk'')]
     (d\<lparr>inventoryMovements := inventoryMovements d @ rs\<rparr>)"

definition insert_order :: "order \<Rightarrow> db \<Rightarrow> exn + db" where
  "insert_order r d = require
     [(length (ord_currency r) \<le> 3, string_truncation),
      (ord_id r \<notin> ord_id ` set (orders d), unique_violation ''orders_pkey''),
      (org_exists d (ord_organizationId r), fk_violation ''orders_organization_id_organizations_id_fk'')]
     (d\<lparr>orders := orders d @ [r]\<rparr>)"

definition insert_order_items :: "order_item list \<Rightarrow> db \<Rightarrow> exn + db" where
  "insert_order_items rs d = require
     [(rs \<noteq> [], no_values),
      (\<forall>r \<in> set rs. int4 (oi_quantity r) \<and> int4 (oi_unitPriceCents r), out_of_range),
      (\<forall>r \<in> set rs. 0 < oi_quantity r, check_violation ''order_items_quantity_positive''),
      (\<forall>r \<in> set rs. 0 \<le> oi_unitPriceCents r, check_violation ''order_items_unit_price_cents_non_negative''),
      (\<forall>r \<in> set rs. org_exists d (oi_organizationId r),
        fk_violation ''order_items_organization_id_organizations_id_fk''),
      (\<forall>r \<in> set rs. order_of_org d (oi_orderId r) (oi_organizationId r), fk_violation ''order_items_order_org_fk''),
      (\<forall>r \<in> set rs. product_of_org d (oi_productId r) (oi_organizationId r), fk_violation ''order_items_product_org_fk'')]
     (d\<lparr>orderItems := orderItems d @ rs\<rparr>)"

definition insert_idempotency_key :: "idempotency_key \<Rightarrow> db \<Rightarrow> exn + db" where
  "insert_idempotency_key r d = require
     [(idem_completed_ok r, check_violation ''idempotency_keys_completed_has_response''),
      (idem_key_of r \<notin> idem_key_of ` set (idempotencyKeys d),
        unique_violation ''idempotency_keys_org_operation_key_key''),
      (org_exists d (idem_organizationId r), fk_violation ''idempotency_keys_organization_id_organizations_id_fk'')]
     (d\<lparr>idempotencyKeys := idempotencyKeys d @ [r]\<rparr>)"

definition insert_audit :: "audit_entry \<Rightarrow> db \<Rightarrow> exn + db" where
  "insert_audit r d = require
     [(org_exists d (aud_organizationId r), fk_violation ''audit_log_organization_id_organizations_id_fk''),
      ((case aud_actorUserId r of None \<Rightarrow> True | Some u \<Rightarrow> user_exists d u),
        fk_violation ''audit_log_actor_user_id_users_id_fk'')]
     (d\<lparr>auditLog := auditLog d @ [r]\<rparr>)"

definition insert_session :: "session \<Rightarrow> db \<Rightarrow> exn + db" where
  "insert_session r d = require
     [(ses_id r \<notin> ses_id ` set (sessions d), unique_violation ''sessions_pkey''),
      (ses_tokenHash r \<notin> ses_tokenHash ` set (sessions d), unique_violation ''sessions_token_hash_key''),
      (user_exists d (ses_userId r), fk_violation ''sessions_user_id_users_id_fk'')]
     (d\<lparr>sessions := sessions d @ [r]\<rparr>)"

lemmas insert_defs =
  insert_organization_def insert_user_def insert_membership_def insert_product_def
  insert_inventory_def insert_movements_def insert_order_def insert_order_items_def
  insert_idempotency_key_def insert_audit_def insert_session_def

section \<open>UPDATE\<close>

definition update_where :: "('r \<Rightarrow> bool) \<Rightarrow> ('r \<Rightarrow> 'r) \<Rightarrow> 'r list \<Rightarrow> 'r list" where
  "update_where P f rs = map (\<lambda>r. if P r then f r else r) rs"

definition update_inventory ::
  "(inventory_row \<Rightarrow> bool) \<Rightarrow> (inventory_row \<Rightarrow> inventory_row) \<Rightarrow> db \<Rightarrow> exn + db" where
  "update_inventory P f d = require
     (concat (map (\<lambda>r. inventory_checks (f r)) (filter P (inventory d))))
     (d\<lparr>inventory := update_where P f (inventory d)\<rparr>)"

definition update_idempotency_keys ::
  "(idempotency_key \<Rightarrow> bool) \<Rightarrow> (idempotency_key \<Rightarrow> idempotency_key) \<Rightarrow> db \<Rightarrow> exn + db" where
  "update_idempotency_keys P f d = require
     (map (\<lambda>k. (idem_completed_ok (f k), check_violation ''idempotency_keys_completed_has_response''))
       (filter P (idempotencyKeys d)))
     (d\<lparr>idempotencyKeys := update_where P f (idempotencyKeys d)\<rparr>)"

text \<open>
  The updates of orders, organizations and sessions set columns without constraints; \<open>RETURNING\<close>
  gives the updated rows.
\<close>

definition update_orders :: "(order \<Rightarrow> bool) \<Rightarrow> (order \<Rightarrow> order) \<Rightarrow> db \<Rightarrow> order list \<times> db" where
  "update_orders P f d =
     (map f (filter P (orders d)), d\<lparr>orders := update_where P f (orders d)\<rparr>)"

definition update_organizations ::
  "(organization \<Rightarrow> bool) \<Rightarrow> (organization \<Rightarrow> organization) \<Rightarrow> db \<Rightarrow> organization list \<times> db" where
  "update_organizations P f d =
     (map f (filter P (organizations d)), d\<lparr>organizations := update_where P f (organizations d)\<rparr>)"

definition update_sessions :: "(session \<Rightarrow> bool) \<Rightarrow> (session \<Rightarrow> session) \<Rightarrow> db \<Rightarrow> db" where
  "update_sessions P f d = d\<lparr>sessions := update_where P f (sessions d)\<rparr>"

lemma update_inventory_Inr_iff [tx_simps]:
  "update_inventory P f d = Inr d' \<longleftrightarrow>
     d' = d\<lparr>inventory := update_where P f (inventory d)\<rparr> \<and>
     (\<forall>r \<in> set (inventory d). P r \<longrightarrow> inventory_row_ok (f r))"
  unfolding update_inventory_def require_Inr_iff
  by (auto simp: inventory_checks_iff [symmetric])

lemma set_update_where:
  "set (update_where P f rs) = (\<lambda>r. if P r then f r else r) ` set rs"
  by (simp add: update_where_def)

lemma map_update_where [simp]:
  "(\<And>r. k (f r) = k r) \<Longrightarrow> map k (update_where P f rs) = map k rs"
  by (simp add: update_where_def)

section \<open>Transactions\<close>

text \<open>
  \<open>db.transaction(body)\<close>: the body sees and returns the whole database; an exception rolls it back.
\<close>

definition transaction :: "(db \<Rightarrow> exn + ('a \<times> db)) \<Rightarrow> db \<Rightarrow> (exn + 'a) \<times> db" where
  "transaction f d = (case f d of Inl e \<Rightarrow> (Inl e, d) | Inr (x, d') \<Rightarrow> (Inr x, d'))"

lemma transaction_rollback: "f d = Inl e \<Longrightarrow> transaction f d = (Inl e, d)"
  by (simp add: transaction_def)

lemma transaction_commit: "f d = Inr (x, d') \<Longrightarrow> transaction f d = (Inr x, d')"
  by (simp add: transaction_def)

end
