(* ===== verification/Constraints.thy ===== *)
theory Constraints
  imports Schema
begin

text \<open>
  The constraints the schema declares, as one predicate on the database, and the proof that
  every INSERT and UPDATE of the model keeps them.
\<close>

named_theorems constraint_defs "the constraints of each table"

definition organizations_ok :: "db \<Rightarrow> bool" where
  "organizations_ok d \<longleftrightarrow> distinct (map org_id (organizations d))"

definition users_ok :: "db \<Rightarrow> bool" where
  "users_ok d \<longleftrightarrow> distinct (map usr_id (users d)) \<and> distinct (map usr_emailNormalized (users d))"

definition memberships_ok :: "db \<Rightarrow> bool" where
  "memberships_ok d \<longleftrightarrow>
     distinct (map (\<lambda>m. (mem_organizationId m, mem_userId m)) (memberships d)) \<and>
     (\<forall>m \<in> set (memberships d). org_exists d (mem_organizationId m) \<and> user_exists d (mem_userId m))"

definition products_ok :: "db \<Rightarrow> bool" where
  "products_ok d \<longleftrightarrow>
     distinct (map prod_id (products d)) \<and>
     distinct (map (\<lambda>p. (prod_organizationId p, prod_skuNormalized p)) (products d)) \<and>
     (\<forall>p \<in> set (products d). 0 \<le> prod_unitPriceCents p \<and> prod_unitPriceCents p \<le> PG_INT4_MAX \<and>
        org_exists d (prod_organizationId p))"

definition inventory_ok :: "db \<Rightarrow> bool" where
  "inventory_ok d \<longleftrightarrow>
     distinct (map inv_id (inventory d)) \<and> distinct (map inv_productId (inventory d)) \<and>
     (\<forall>r \<in> set (inventory d). inventory_row_ok r \<and> org_exists d (inv_organizationId r) \<and>
        product_of_org d (inv_productId r) (inv_organizationId r))"

definition movements_ok :: "db \<Rightarrow> bool" where
  "movements_ok d \<longleftrightarrow>
     (\<forall>m \<in> set (inventoryMovements d). int4 (mov_onHandDelta m) \<and> int4 (mov_reservedDelta m) \<and>
        org_exists d (mov_organizationId m) \<and> product_of_org d (mov_productId m) (mov_organizationId m))"

definition orders_ok :: "db \<Rightarrow> bool" where
  "orders_ok d \<longleftrightarrow>
     distinct (map ord_id (orders d)) \<and> (\<forall>o' \<in> set (orders d). org_exists d (ord_organizationId o'))"

definition order_items_ok :: "db \<Rightarrow> bool" where
  "order_items_ok d \<longleftrightarrow>
     (\<forall>i \<in> set (orderItems d). order_item_ok i \<and> org_exists d (oi_organizationId i) \<and>
        order_of_org d (oi_orderId i) (oi_organizationId i) \<and>
        product_of_org d (oi_productId i) (oi_organizationId i))"

definition idempotency_keys_ok :: "db \<Rightarrow> bool" where
  "idempotency_keys_ok d \<longleftrightarrow>
     distinct (map idem_key_of (idempotencyKeys d)) \<and>
     (\<forall>k \<in> set (idempotencyKeys d). idem_completed_ok k \<and> org_exists d (idem_organizationId k))"

definition audit_ok :: "db \<Rightarrow> bool" where
  "audit_ok d \<longleftrightarrow>
     (\<forall>a \<in> set (auditLog d). org_exists d (aud_organizationId a) \<and>
        (case aud_actorUserId a of None \<Rightarrow> True | Some u \<Rightarrow> user_exists d u))"

definition sessions_ok :: "db \<Rightarrow> bool" where
  "sessions_ok d \<longleftrightarrow>
     distinct (map ses_id (sessions d)) \<and> distinct (map ses_tokenHash (sessions d)) \<and>
     (\<forall>s \<in> set (sessions d). user_exists d (ses_userId s))"

lemmas table_ok_defs [constraint_defs] =
  organizations_ok_def users_ok_def memberships_ok_def products_ok_def inventory_ok_def
  movements_ok_def orders_ok_def order_items_ok_def idempotency_keys_ok_def audit_ok_def
  sessions_ok_def

lemmas fk_defs = org_exists_def user_exists_def product_of_org_def order_of_org_def

definition db_ok :: "db \<Rightarrow> bool" where
  "db_ok d \<longleftrightarrow>
     organizations_ok d \<and> users_ok d \<and> memberships_ok d \<and> products_ok d \<and> inventory_ok d \<and>
     movements_ok d \<and> orders_ok d \<and> order_items_ok d \<and> idempotency_keys_ok d \<and> audit_ok d \<and>
     sessions_ok d"

lemma db_okD:
  assumes "db_ok d"
  shows "organizations_ok d" "users_ok d" "memberships_ok d" "products_ok d" "inventory_ok d"
    "movements_ok d" "orders_ok d" "order_items_ok d" "idempotency_keys_ok d" "audit_ok d"
    "sessions_ok d"
  using assms by (simp_all add: db_ok_def)

lemma db_ok_empty [simp]: "db_ok empty_db"
  by (simp add: db_ok_def constraint_defs empty_db_def)

section \<open>Growth of the referenced tables\<close>

text \<open>
  A foreign key looks at four tables only; a step that keeps every key of those four keeps every
  reference.
\<close>

definition refs_kept :: "db \<Rightarrow> db \<Rightarrow> bool" where
  "refs_kept d d' \<longleftrightarrow>
     (\<forall>g. org_exists d g \<longrightarrow> org_exists d' g) \<and> (\<forall>u. user_exists d u \<longrightarrow> user_exists d' u) \<and>
     (\<forall>p g. product_of_org d p g \<longrightarrow> product_of_org d' p g) \<and>
     (\<forall>o' g. order_of_org d o' g \<longrightarrow> order_of_org d' o' g)"

lemma refs_keptI:
  assumes "org_id ` set (organizations d) \<subseteq> org_id ` set (organizations d')"
    and "usr_id ` set (users d) \<subseteq> usr_id ` set (users d')"
    and "(\<lambda>r. (prod_id r, prod_organizationId r)) ` set (products d) \<subseteq>
         (\<lambda>r. (prod_id r, prod_organizationId r)) ` set (products d')"
    and "(\<lambda>r. (ord_id r, ord_organizationId r)) ` set (orders d) \<subseteq>
         (\<lambda>r. (ord_id r, ord_organizationId r)) ` set (orders d')"
  shows "refs_kept d d'"
  using assms by (auto simp: refs_kept_def fk_defs)

text \<open>A reference does not see the tables it does not name.\<close>

lemma fk_update [simp]:
  "org_exists (d\<lparr>users := x1\<rparr>) g = org_exists d g"
  "org_exists (d\<lparr>memberships := x2\<rparr>) g = org_exists d g"
  "org_exists (d\<lparr>products := x3\<rparr>) g = org_exists d g"
  "org_exists (d\<lparr>inventory := x4\<rparr>) g = org_exists d g"
  "org_exists (d\<lparr>inventoryMovements := x5\<rparr>) g = org_exists d g"
  "org_exists (d\<lparr>orders := x6\<rparr>) g = org_exists d g"
  "org_exists (d\<lparr>orderItems := x7\<rparr>) g = org_exists d g"
  "org_exists (d\<lparr>idempotencyKeys := x8\<rparr>) g = org_exists d g"
  "org_exists (d\<lparr>auditLog := x9\<rparr>) g = org_exists d g"
  "org_exists (d\<lparr>sessions := x10\<rparr>) g = org_exists d g"
  "user_exists (d\<lparr>organizations := x0\<rparr>) u = user_exists d u"
  "user_exists (d\<lparr>memberships := x2\<rparr>) u = user_exists d u"
  "user_exists (d\<lparr>products := x3\<rparr>) u = user_exists d u"
  "user_exists (d\<lparr>inventory := x4\<rparr>) u = user_exists d u"
  "user_exists (d\<lparr>inventoryMovements := x5\<rparr>) u = user_exists d u"
  "user_exists (d\<lparr>orders := x6\<rparr>) u = user_exists d u"
  "user_exists (d\<lparr>orderItems := x7\<rparr>) u = user_exists d u"
  "user_exists (d\<lparr>idempotencyKeys := x8\<rparr>) u = user_exists d u"
  "user_exists (d\<lparr>auditLog := x9\<rparr>) u = user_exists d u"
  "user_exists (d\<lparr>sessions := x10\<rparr>) u = user_exists d u"
  "product_of_org (d\<lparr>organizations := x0\<rparr>) p g = product_of_org d p g"
  "product_of_org (d\<lparr>users := x1\<rparr>) p g = product_of_org d p g"
  "product_of_org (d\<lparr>memberships := x2\<rparr>) p g = product_of_org d p g"
  "product_of_org (d\<lparr>inventory := x4\<rparr>) p g = product_of_org d p g"
  "product_of_org (d\<lparr>inventoryMovements := x5\<rparr>) p g = product_of_org d p g"
  "product_of_org (d\<lparr>orders := x6\<rparr>) p g = product_of_org d p g"
  "product_of_org (d\<lparr>orderItems := x7\<rparr>) p g = product_of_org d p g"
  "product_of_org (d\<lparr>idempotencyKeys := x8\<rparr>) p g = product_of_org d p g"
  "product_of_org (d\<lparr>auditLog := x9\<rparr>) p g = product_of_org d p g"
  "product_of_org (d\<lparr>sessions := x10\<rparr>) p g = product_of_org d p g"
  "order_of_org (d\<lparr>organizations := x0\<rparr>) o' g = order_of_org d o' g"
  "order_of_org (d\<lparr>users := x1\<rparr>) o' g = order_of_org d o' g"
  "order_of_org (d\<lparr>memberships := x2\<rparr>) o' g = order_of_org d o' g"
  "order_of_org (d\<lparr>products := x3\<rparr>) o' g = order_of_org d o' g"
  "order_of_org (d\<lparr>inventory := x4\<rparr>) o' g = order_of_org d o' g"
  "order_of_org (d\<lparr>inventoryMovements := x5\<rparr>) o' g = order_of_org d o' g"
  "order_of_org (d\<lparr>orderItems := x7\<rparr>) o' g = order_of_org d o' g"
  "order_of_org (d\<lparr>idempotencyKeys := x8\<rparr>) o' g = order_of_org d o' g"
  "order_of_org (d\<lparr>auditLog := x9\<rparr>) o' g = order_of_org d o' g"
  "order_of_org (d\<lparr>sessions := x10\<rparr>) o' g = order_of_org d o' g"
  by (simp_all add: fk_defs)

text \<open>One step: the references are kept, and each table is either untouched or checked again.\<close>

lemma table_ok_kept:
  assumes "refs_kept d d'"
  shows "memberships d' = memberships d \<Longrightarrow> memberships_ok d \<Longrightarrow> memberships_ok d'"
    and "products d' = products d \<Longrightarrow> products_ok d \<Longrightarrow> products_ok d'"
    and "inventory d' = inventory d \<Longrightarrow> inventory_ok d \<Longrightarrow> inventory_ok d'"
    and "inventoryMovements d' = inventoryMovements d \<Longrightarrow> movements_ok d \<Longrightarrow> movements_ok d'"
    and "orders d' = orders d \<Longrightarrow> orders_ok d \<Longrightarrow> orders_ok d'"
    and "orderItems d' = orderItems d \<Longrightarrow> order_items_ok d \<Longrightarrow> order_items_ok d'"
    and "idempotencyKeys d' = idempotencyKeys d \<Longrightarrow> idempotency_keys_ok d \<Longrightarrow> idempotency_keys_ok d'"
    and "sessions d' = sessions d \<Longrightarrow> sessions_ok d \<Longrightarrow> sessions_ok d'"
  using assms unfolding refs_kept_def
  by (simp_all add: memberships_ok_def products_ok_def inventory_ok_def movements_ok_def orders_ok_def
      order_items_ok_def idempotency_keys_ok_def sessions_ok_def)

lemma audit_ok_kept:
  assumes "refs_kept d d'" and "auditLog d' = auditLog d" and "audit_ok d"
  shows "audit_ok d'"
  unfolding audit_ok_def
proof
  fix a assume a: "a \<in> set (auditLog d')"
  show "org_exists d' (aud_organizationId a) \<and>
      (case aud_actorUserId a of None \<Rightarrow> True | Some u \<Rightarrow> user_exists d' u)"
    using assms a by (cases "aud_actorUserId a") (auto simp: audit_ok_def refs_kept_def)
qed

lemma db_ok_step:
  assumes "db_ok d" and "refs_kept d d'"
    and "organizations d' = organizations d \<or> organizations_ok d'"
    and "users d' = users d \<or> users_ok d'"
    and "memberships d' = memberships d \<or> memberships_ok d'"
    and "products d' = products d \<or> products_ok d'"
    and "inventory d' = inventory d \<or> inventory_ok d'"
    and "inventoryMovements d' = inventoryMovements d \<or> movements_ok d'"
    and "orders d' = orders d \<or> orders_ok d'"
    and "orderItems d' = orderItems d \<or> order_items_ok d'"
    and "idempotencyKeys d' = idempotencyKeys d \<or> idempotency_keys_ok d'"
    and "auditLog d' = auditLog d \<or> audit_ok d'"
    and "sessions d' = sessions d \<or> sessions_ok d'"
  shows "db_ok d'"
proof -
  note old = db_okD [OF assms(1)] and kept = table_ok_kept [OF assms(2)]
  have "organizations_ok d'" using assms(3) old(1) by (auto simp: organizations_ok_def)
  moreover have "users_ok d'" using assms(4) old(2) by (auto simp: users_ok_def)
  moreover have "memberships_ok d'" using assms(5) old(3) kept(1) by blast
  moreover have "products_ok d'" using assms(6) old(4) kept(2) by blast
  moreover have "inventory_ok d'" using assms(7) old(5) kept(3) by blast
  moreover have "movements_ok d'" using assms(8) old(6) kept(4) by blast
  moreover have "orders_ok d'" using assms(9) old(7) kept(5) by blast
  moreover have "order_items_ok d'" using assms(10) old(8) kept(6) by blast
  moreover have "idempotency_keys_ok d'" using assms(11) old(9) kept(7) by blast
  moreover have "audit_ok d'" using assms(12) old(10) audit_ok_kept [OF assms(2)] by blast
  moreover have "sessions_ok d'" using assms(13) old(11) kept(8) by blast
  ultimately show ?thesis by (simp add: db_ok_def)
qed

section \<open>INSERT keeps the constraints\<close>

lemma insert_organization_ok:
  assumes "db_ok d" and "insert_organization r d = Inr d'"
  shows "db_ok d'"
  using assms db_okD(1) [OF assms(1)]
  by (intro db_ok_step [OF assms(1)] refs_keptI)
    (auto simp: insert_organization_def tx_simps organizations_ok_def)

lemma insert_user_ok:
  assumes "db_ok d" and "insert_user r d = Inr d'"
  shows "db_ok d'"
  using assms db_okD(2) [OF assms(1)]
  by (intro db_ok_step [OF assms(1)] refs_keptI) (auto simp: insert_user_def tx_simps users_ok_def)

lemma insert_membership_ok:
  assumes "db_ok d" and "insert_membership r d = Inr d'"
  shows "db_ok d'"
  using assms db_okD(3) [OF assms(1)]
  by (intro db_ok_step [OF assms(1)] refs_keptI)
    (auto simp: insert_membership_def tx_simps memberships_ok_def)

lemma insert_product_ok:
  assumes "db_ok d" and "insert_product r d = Inr d'"
  shows "db_ok d'"
  using assms db_okD(4) [OF assms(1)]
  by (intro db_ok_step [OF assms(1)] refs_keptI)
    (auto simp: insert_product_def tx_simps products_ok_def int4_def)

lemma insert_inventory_iff:
  "insert_inventory r d = Inr d' \<longleftrightarrow> d' = d\<lparr>inventory := inventory d @ [r]\<rparr> \<and> inventory_row_ok r \<and>
     inv_id r \<notin> inv_id ` set (inventory d) \<and> inv_productId r \<notin> inv_productId ` set (inventory d) \<and>
     org_exists d (inv_organizationId r) \<and> product_of_org d (inv_productId r) (inv_organizationId r)"
  unfolding insert_inventory_def require_Inr_iff set_append ball_Un inventory_checks_iff by auto

lemma insert_inventory_ok:
  assumes "db_ok d" and "insert_inventory r d = Inr d'"
  shows "db_ok d'"
  using assms db_okD(5) [OF assms(1)]
  by (intro db_ok_step [OF assms(1)] refs_keptI) (auto simp: insert_inventory_iff inventory_ok_def)

lemma insert_movements_ok:
  assumes "db_ok d" and "insert_movements rs d = Inr d'"
  shows "db_ok d'"
  using assms db_okD(6) [OF assms(1)]
  by (intro db_ok_step [OF assms(1)] refs_keptI)
    (auto simp: insert_movements_def tx_simps movements_ok_def)

lemma insert_order_ok:
  assumes "db_ok d" and "insert_order r d = Inr d'"
  shows "db_ok d'"
  using assms db_okD(7) [OF assms(1)]
  by (intro db_ok_step [OF assms(1)] refs_keptI) (auto simp: insert_order_def tx_simps orders_ok_def)

lemma insert_order_items_ok:
  assumes "db_ok d" and "insert_order_items rs d = Inr d'"
  shows "db_ok d'"
  using assms db_okD(8) [OF assms(1)]
  by (intro db_ok_step [OF assms(1)] refs_keptI)
    (auto simp: insert_order_items_def tx_simps order_items_ok_def order_item_ok_def int4_def)

lemma insert_idempotency_key_ok:
  assumes "db_ok d" and "insert_idempotency_key r d = Inr d'"
  shows "db_ok d'"
  using assms db_okD(9) [OF assms(1)]
  by (intro db_ok_step [OF assms(1)] refs_keptI)
    (auto simp: insert_idempotency_key_def tx_simps idempotency_keys_ok_def)

lemma insert_audit_ok:
  assumes "db_ok d" and "insert_audit r d = Inr d'"
  shows "db_ok d'"
proof -
  have "audit_ok d'"
    using assms(2) db_okD(10) [OF assms(1)]
    by (auto simp: insert_audit_def tx_simps audit_ok_def split: option.splits)
  with assms show ?thesis
    by (intro db_ok_step [OF assms(1)] refs_keptI) (auto simp: insert_audit_def tx_simps)
qed

lemma insert_session_ok:
  assumes "db_ok d" and "insert_session r d = Inr d'"
  shows "db_ok d'"
  using assms db_okD(11) [OF assms(1)]
  by (intro db_ok_step [OF assms(1)] refs_keptI) (auto simp: insert_session_def tx_simps sessions_ok_def)

section \<open>UPDATE keeps the constraints\<close>

lemma update_inventory_ok:
  assumes "db_ok d" and "update_inventory P f d = Inr d'"
    and keys: "\<And>r. inv_id (f r) = inv_id r" "\<And>r. inv_productId (f r) = inv_productId r"
      "\<And>r. inv_organizationId (f r) = inv_organizationId r"
  shows "db_ok d'"
proof -
  from assms(2) have d': "d' = d\<lparr>inventory := update_where P f (inventory d)\<rparr>"
    and rows: "\<forall>r \<in> set (inventory d). P r \<longrightarrow> inventory_row_ok (f r)"
    by (auto simp: tx_simps)
  have "inventory_ok d'"
    using db_okD(5) [OF assms(1)] rows by (auto simp: d' inventory_ok_def keys set_update_where)
  then show ?thesis by (intro db_ok_step [OF assms(1)] refs_keptI) (auto simp: d')
qed

lemma update_idempotency_keys_iff [tx_simps]:
  "update_idempotency_keys P f d = Inr d' \<longleftrightarrow>
     d' = d\<lparr>idempotencyKeys := update_where P f (idempotencyKeys d)\<rparr> \<and>
     (\<forall>k \<in> set (idempotencyKeys d). P k \<longrightarrow> idem_completed_ok (f k))"
  unfolding update_idempotency_keys_def require_Inr_iff by auto

lemma update_idempotency_keys_ok:
  assumes "db_ok d" and "update_idempotency_keys P f d = Inr d'"
    and keys: "\<And>k. idem_key_of (f k) = idem_key_of k"
  shows "db_ok d'"
proof -
  have org: "idem_organizationId (f k) = idem_organizationId k" for k
    using keys [of k] by (simp add: idem_key_of_def)
  from assms(2) have d': "d' = d\<lparr>idempotencyKeys := update_where P f (idempotencyKeys d)\<rparr>"
    and rows: "\<forall>k \<in> set (idempotencyKeys d). P k \<longrightarrow> idem_completed_ok (f k)"
    by (auto simp: tx_simps)
  have "idempotency_keys_ok d'"
    using db_okD(9) [OF assms(1)] rows by (auto simp: d' idempotency_keys_ok_def keys org set_update_where)
  then show ?thesis by (intro db_ok_step [OF assms(1)] refs_keptI) (auto simp: d')
qed

lemma update_orders_ok:
  assumes "db_ok d" and keys: "\<And>r. ord_id (f r) = ord_id r" "\<And>r. ord_organizationId (f r) = ord_organizationId r"
  shows "db_ok (snd (update_orders P f d))"
proof -
  let ?d' = "snd (update_orders P f d)"
  have refs: "(\<lambda>r. (ord_id r, ord_organizationId r)) ` set (orders ?d') =
      (\<lambda>r. (ord_id r, ord_organizationId r)) ` set (orders d)"
    unfolding update_orders_def by (simp add: keys flip: set_map)
  have "orders_ok ?d'"
    using db_okD(7) [OF assms(1)] by (auto simp: update_orders_def orders_ok_def keys set_update_where)
  moreover have "refs_kept d ?d'"
    using refs by (intro refs_keptI) (auto simp: update_orders_def)
  ultimately show ?thesis
    by (intro db_ok_step [OF assms(1)]) (auto simp: update_orders_def)
qed


lemma update_organizations_ok:
  assumes "db_ok d" and keys: "\<And>r. org_id (f r) = org_id r"
  shows "db_ok (snd (update_organizations P f d))"
proof -
  let ?d' = "snd (update_organizations P f d)"
  have ids: "map org_id (organizations ?d') = map org_id (organizations d)"
    by (simp add: update_organizations_def keys)
  then have "organizations_ok ?d'" using db_okD(1) [OF assms(1)] by (simp add: organizations_ok_def)
  moreover have "refs_kept d ?d'"
    using arg_cong [OF ids, of set] by (intro refs_keptI) (auto simp: update_organizations_def)
  ultimately show ?thesis
    by (intro db_ok_step [OF assms(1)]) (auto simp: update_organizations_def)
qed

lemma update_sessions_ok:
  assumes "db_ok d" and keys: "\<And>s. ses_id (f s) = ses_id s" "\<And>s. ses_tokenHash (f s) = ses_tokenHash s"
    "\<And>s. ses_userId (f s) = ses_userId s"
  shows "db_ok (update_sessions P f d)"
proof -
  have "sessions_ok (update_sessions P f d)"
    using db_okD(11) [OF assms(1)] by (auto simp: update_sessions_def sessions_ok_def keys set_update_where)
  then show ?thesis by (intro db_ok_step [OF assms(1)] refs_keptI) (auto simp: update_sessions_def)
qed

end
