(* ===== verification/Canonical_Json.thy ===== *)
theory Canonical_Json
  imports Prelude
begin

text \<open>
  The canonical serialization of request payloads (\<open>common/canonical-json.util.ts\<close>), whose SHA-256
  digest is the fingerprint of an idempotent request.  The digest function itself is a parameter.

  The lemmas show what the fingerprint can tell apart: the text of a payload determines the payload
  up to the order of object keys, and two payloads that differ in that order only have the same text.
\<close>

datatype json =
  JUndefined
| JNull
| JBool bool
| JNum int
| JStr string
| JArr "json list"
| JObj "(string \<times> json) list"

section \<open>JSON.stringify on scalars\<close>

definition hex_digit :: "nat \<Rightarrow> char" where
  "hex_digit n = (if n < 10 then char_of (48 + n) else char_of (87 + n))"

definition escape_char :: "char \<Rightarrow> string" where
  "escape_char c =
     (let n = (of_char c :: nat) in
      if n = 34 then [char_of (92::nat), char_of (34::nat)]
      else if n = 92 then [char_of (92::nat), char_of (92::nat)]
      else if n = 8 then [char_of (92::nat), CHR ''b'']
      else if n = 9 then [char_of (92::nat), CHR ''t'']
      else if n = 10 then [char_of (92::nat), CHR ''n'']
      else if n = 12 then [char_of (92::nat), CHR ''f'']
      else if n = 13 then [char_of (92::nat), CHR ''r'']
      else if n < 32 then char_of (92::nat) # ''u00'' @ [hex_digit (n div 16), hex_digit (n mod 16)]
      else [c])"

definition quote_char :: char where
  "quote_char = char_of (34::nat)"

definition stringify_string :: "string \<Rightarrow> string" where
  "stringify_string s = quote_char # concat (map escape_char s) @ [quote_char]"

fun nat_string :: "nat \<Rightarrow> string" where
  "nat_string n = (if n < 10 then [char_of (48 + n)] else nat_string (n div 10) @ [char_of (48 + n mod 10)])"

declare nat_string.simps [simp del]

definition int_string :: "int \<Rightarrow> string" where
  "int_string i = (if i < 0 then CHR ''-'' # nat_string (nat (- i)) else nat_string (nat i))"

definition join :: "string \<Rightarrow> string list \<Rightarrow> string" where
  "join sep xs = (case xs of [] \<Rightarrow> [] | y # ys \<Rightarrow> y @ concat (map (\<lambda>z. sep @ z) ys))"

section \<open>stableStringify\<close>

text \<open>
  \<open>JSON.stringify(undefined)\<close> is \<open>undefined\<close>: inside an object the template prints the word, inside an
  array \<open>join\<close> prints nothing.
\<close>

fun stableStringify :: "json \<Rightarrow> string" where
  "stableStringify JUndefined = ''undefined''"
| "stableStringify JNull = ''null''"
| "stableStringify (JBool b) = (if b then ''true'' else ''false'')"
| "stableStringify (JNum n) = int_string n"
| "stableStringify (JStr s) = stringify_string s"
| "stableStringify (JArr xs) =
     ''['' @ join '','' (map (\<lambda>x. if x = JUndefined then [] else stableStringify x) xs) @ '']''"
| "stableStringify (JObj kvs) =
     ''{'' @ join '',''
        (map snd (sort_key fst
          (map (\<lambda>kv. (fst kv, stringify_string (fst kv) @ '':'' @ stableStringify (snd kv))) kvs)))
     @ ''}''"

definition canonicalFingerprint :: "(string \<Rightarrow> string) \<Rightarrow> json \<Rightarrow> string" where
  "canonicalFingerprint sha256_hex payload = sha256_hex (stableStringify payload)"

section \<open>Key order\<close>

fun canon :: "json \<Rightarrow> json" where
  "canon (JArr xs) = JArr (map canon xs)"
| "canon (JObj kvs) = JObj (sort_key fst (map (\<lambda>kv. (fst kv, canon (snd kv))) kvs))"
| "canon v = v"

text \<open>Keys of an object are distinct, and no array holds \<open>undefined\<close> (JSON has no such value).\<close>

fun json_wf :: "json \<Rightarrow> bool" where
  "json_wf (JArr xs) = (\<forall>x \<in> set xs. x \<noteq> JUndefined \<and> json_wf x)"
| "json_wf (JObj kvs) = (distinct (map fst kvs) \<and> (\<forall>kv \<in> set kvs. json_wf (snd kv)))"
| "json_wf v = True"

lemma stableStringify_sample:
  "stableStringify (JObj [(''quantity'', JNum 2), (''productId'', JStr ''p'')]) =
     stableStringify (JObj [(''productId'', JStr ''p''), (''quantity'', JNum 2)])"
  by code_simp

section \<open>Sorting commutes with decorating the keys\<close>

lemma insort_key_map: "insort_key k (h x) (map h xs) = map h (insort_key (\<lambda>y. k (h y)) x xs)"
  by (induction xs) auto

lemma sort_key_map: "sort_key k (map h xs) = map h (sort_key (\<lambda>y. k (h y)) xs)"
  by (induction xs) (auto simp: insort_key_map)

definition entry_string :: "string \<times> json \<Rightarrow> string" where
  "entry_string kv = stringify_string (fst kv) @ '':'' @ stableStringify (snd kv)"

definition entry_canon :: "string \<times> json \<Rightarrow> string \<times> json" where
  "entry_canon kv = (fst kv, canon (snd kv))"

lemma stableStringify_obj:
  "stableStringify (JObj kvs) = ''{'' @ join '','' (map entry_string (sort_key fst kvs)) @ ''}''"
  by (simp add: sort_key_map comp_def) (simp add: entry_string_def [abs_def])

lemma canon_obj: "canon (JObj kvs) = JObj (map entry_canon (sort_key fst kvs))"
  by (simp add: sort_key_map comp_def) (simp add: entry_canon_def [abs_def])

lemma stableStringify_arr:
  "json_wf (JArr xs) \<Longrightarrow> stableStringify (JArr xs) = ''['' @ join '','' (map stableStringify xs) @ '']''"
  by (auto intro!: arg_cong2 [where f = join] map_cong)

section \<open>Strings and numbers can be read back\<close>

lemma of_char_inj: "(of_char c :: nat) = of_char c' \<longleftrightarrow> c = c'"
  by (rule of_char_eq_iff)

definition hex_value :: "char \<Rightarrow> nat" where
  "hex_value c = (let n = of_char c in if n < 58 then n - 48 else n - 87)"

lemma hex_value_digit [simp]: "n < 16 \<Longrightarrow> hex_value (hex_digit n) = n"
  by (auto simp: hex_value_def hex_digit_def Let_def take_bit_eq_mod)

text \<open>The first character of an escaped text, and the rest.\<close>

fun unescape :: "string \<Rightarrow> (char \<times> string) option" where
  "unescape [] = None"
| "unescape (x # xs) =
     (if (of_char x :: nat) \<noteq> 92 then Some (x, xs)
      else (case xs of [] \<Rightarrow> None
        | y # ys \<Rightarrow>
            (let n = (of_char y :: nat) in
             if n = 98 then Some (char_of (8::nat), ys)
             else if n = 116 then Some (char_of (9::nat), ys)
             else if n = 110 then Some (char_of (10::nat), ys)
             else if n = 102 then Some (char_of (12::nat), ys)
             else if n = 114 then Some (char_of (13::nat), ys)
             else if n \<noteq> 117 then Some (y, ys)
             else (case ys of _ # _ # h # l # zs \<Rightarrow>
                      Some (char_of (16 * hex_value h + hex_value l), zs)
                    | _ \<Rightarrow> None))))"

lemma unescape_special:
  "unescape (escape_char (char_of (34::nat)) @ u) = Some (char_of (34::nat), u)"
  "unescape (escape_char (char_of (92::nat)) @ u) = Some (char_of (92::nat), u)"
  "unescape (escape_char (char_of (8::nat)) @ u) = Some (char_of (8::nat), u)"
  "unescape (escape_char (char_of (9::nat)) @ u) = Some (char_of (9::nat), u)"
  "unescape (escape_char (char_of (10::nat)) @ u) = Some (char_of (10::nat), u)"
  "unescape (escape_char (char_of (12::nat)) @ u) = Some (char_of (12::nat), u)"
  "unescape (escape_char (char_of (13::nat)) @ u) = Some (char_of (13::nat), u)"
  by (simp_all add: escape_char_def)

lemma unescape_escape: "unescape (escape_char c @ u) = Some (c, u)"
proof -
  let ?n = "(of_char c :: nat)"
  have c: "c = char_of k" if "?n = k" for k
    using that by (metis char_of_char)
  consider "?n \<in> {34, 92, 8, 9, 10, 12, 13}" | "?n \<notin> {34, 92, 8, 9, 10, 12, 13}" "?n < 32"
    | "?n \<notin> {34, 92, 8, 9, 10, 12, 13}" "\<not> ?n < 32" by blast
  then show ?thesis
  proof cases
    case 1
    then obtain k :: nat where k: "k \<in> {34, 92, 8, 9, 10, 12, 13}" and ck: "c = char_of k"
      using c by blast
    from k show ?thesis unfolding ck by (elim insertE emptyE) (simp_all only: unescape_special)
  next
    case 2
    then have "escape_char c = char_of (92::nat) # ''u00'' @ [hex_digit (?n div 16), hex_digit (?n mod 16)]"
      by (simp add: escape_char_def Let_def)
    with 2 show ?thesis by (simp add: Let_def)
  next
    case 3
    then have "escape_char c = [c]" by (simp add: escape_char_def Let_def)
    with 3 show ?thesis by simp
  qed
qed

lemma escape_char_prefix: "escape_char c @ u = escape_char c' @ v \<Longrightarrow> c = c' \<and> u = v"
  by (metis option.inject prod.inject unescape_escape)

lemma escape_char_not_quote: "escape_char c @ u \<noteq> quote_char # v"
proof
  assume eq: "escape_char c @ u = quote_char # v"
  then have "unescape (quote_char # v) = Some (c, u)" using unescape_escape [of c u] by simp
  then have "c = quote_char" by (simp add: quote_char_def)
  with eq show False by (simp add: escape_char_def quote_char_def)
qed

lemma string_body_inj:
  "concat (map escape_char s) @ quote_char # r = concat (map escape_char t) @ quote_char # r' \<Longrightarrow>
     s = t \<and> r = r'"
proof (induction s arbitrary: t)
  case Nil
  then show ?case using escape_char_not_quote by (cases t) (auto dest: sym)
next
  case (Cons c s)
  then obtain c' t' where t: "t = c' # t'"
    using escape_char_not_quote by (cases t) auto
  with Cons.prems escape_char_prefix
  have "c = c' \<and> concat (map escape_char s) @ quote_char # r = concat (map escape_char t') @ quote_char # r'"
    by simp
  with t Cons.IH show ?case by blast
qed

lemma stringify_string_inj:
  "stringify_string s @ r = stringify_string t @ r' \<Longrightarrow> s = t \<and> r = r'"
  by (auto simp: stringify_string_def dest: string_body_inj)

definition is_digit :: "char \<Rightarrow> bool" where
  "is_digit c \<longleftrightarrow> (of_char c :: nat) \<in> {48..57}"

definition digits_value :: "string \<Rightarrow> nat" where
  "digits_value s = foldl (\<lambda>a c. 10 * a + (of_char c - 48)) 0 s"

lemma nat_string_digits: "\<forall>c \<in> set (nat_string n). is_digit c"
  by (induction n rule: nat_string.induct)
    (subst nat_string.simps, auto simp: is_digit_def take_bit_eq_mod)

lemma digits_value_nat_string [simp]: "digits_value (nat_string n) = n"
proof (induction n rule: nat_string.induct)
  case (1 n)
  show ?case
  proof (cases "n < 10")
    case True
    then show ?thesis by (subst nat_string.simps) (simp add: digits_value_def take_bit_eq_mod)
  next
    case False
    with "1.IH" have "foldl (\<lambda>a c. 10 * a + (of_char c - 48)) 0 (nat_string (n div 10)) = n div 10"
      by (simp add: digits_value_def)
    with False show ?thesis
      by (subst nat_string.simps) (simp add: digits_value_def take_bit_eq_mod)
  qed
qed

lemma nat_string_not_Nil [simp]: "nat_string n \<noteq> []"
  by (subst nat_string.simps) simp

definition stops :: "string \<Rightarrow> bool" where
  \<comment> \<open>what can follow a value in the text\<close>
  "stops r \<longleftrightarrow> r = [] \<or> hd r \<in> {CHR '','', CHR '']'', CHR ''}''}"

lemma stops_Nil [simp]: "stops []"
  and stops_Cons [simp]: "stops (c # r) \<longleftrightarrow> c \<in> {CHR '','', CHR '']'', CHR ''}''}"
  by (auto simp: stops_def)

lemma takeWhile_nat_string:
  assumes "stops r"
  shows "takeWhile is_digit (nat_string n @ r) = nat_string n"
proof -
  have "takeWhile is_digit r = []"
    using assms by (cases r) (auto simp: is_digit_def)
  then show ?thesis using nat_string_digits by (simp add: takeWhile_append)
qed

lemma nat_string_inj:
  assumes "stops r" "stops r'" and eq: "nat_string m @ r = nat_string n @ r'"
  shows "m = n \<and> r = r'"
proof -
  have "nat_string m = nat_string n"
    using takeWhile_nat_string [OF assms(1), of m] takeWhile_nat_string [OF assms(2), of n] eq by simp
  moreover from this have "m = n"
    using digits_value_nat_string by metis
  ultimately show ?thesis using eq by simp
qed

lemma nat_string_not_minus: "nat_string m @ r \<noteq> CHR ''-'' # s"
proof
  assume "nat_string m @ r = CHR ''-'' # s"
  then have "CHR ''-'' \<in> set (nat_string m)" by (cases "nat_string m") auto
  then show False using nat_string_digits [of m] by (auto simp: is_digit_def)
qed

lemma int_string_inj:
  assumes "stops r" "stops r'" and eq: "int_string m @ r = int_string n @ r'"
  shows "m = n \<and> r = r'"
proof (cases "m < 0"; cases "n < 0")
  assume "m < 0" "n < 0"
  with eq nat_string_inj [OF assms(1,2), of "nat (- m)" "nat (- n)"] show ?thesis
    by (auto simp: int_string_def)
next
  assume "m < 0" "\<not> n < 0"
  with eq nat_string_not_minus [of "nat n" r'] show ?thesis
    by (metis int_string_def append_Cons)
next
  assume "\<not> m < 0" "n < 0"
  with eq nat_string_not_minus [of "nat m" r] show ?thesis
    by (metis int_string_def append_Cons)
next
  assume "\<not> m < 0" "\<not> n < 0"
  with eq nat_string_inj [OF assms(1,2), of "nat m" "nat n"] show ?thesis
    by (auto simp: int_string_def)
qed

section \<open>A separated sequence of values can be read back\<close>

definition starts_value :: "string \<Rightarrow> bool" where
  "starts_value t \<longleftrightarrow> t \<noteq> [] \<and> \<not> stops t"

lemma starts_value_append: "starts_value t \<Longrightarrow> \<exists>c t'. t = c # t' \<and> \<not> stops (c # r)"
  by (cases t) (auto simp: starts_value_def)

abbreviation more :: "('a \<Rightarrow> string) \<Rightarrow> 'a list \<Rightarrow> string" where
  "more f xs \<equiv> concat (map (\<lambda>x. '','' @ f x) xs)"

lemma stops_more: "c \<in> {CHR '']'', CHR ''}''} \<Longrightarrow> stops (more f xs @ c # r)"
  by (cases xs) auto

lemma more_inj:
  assumes "\<And>x y r r'. x \<in> set xs \<Longrightarrow> y \<in> set ys \<Longrightarrow> stops r \<Longrightarrow> stops r' \<Longrightarrow>
      f x @ r = f y @ r' \<Longrightarrow> g x = g y \<and> r = r'"
    and "c \<in> {CHR '']'', CHR ''}''}"
    and "more f xs @ c # r = more f ys @ c # r'"
  shows "map g xs = map g ys \<and> r = r'"
  using assms
proof (induction xs arbitrary: ys)
  case Nil
  then show ?case by (cases ys) auto
next
  case (Cons x xs)
  then obtain y ys' where ys: "ys = y # ys'" by (cases ys) auto
  have eq: "f x @ (more f xs @ c # r) = f y @ (more f ys' @ c # r')"
    using Cons.prems(3) by (simp add: ys)
  have hd: "g x = g y \<and> more f xs @ c # r = more f ys' @ c # r'"
    by (rule Cons.prems(1) [OF _ _ stops_more stops_more eq]) (use Cons.prems(2) in \<open>auto simp: ys\<close>)
  moreover have "map g xs = map g ys' \<and> r = r'"
    by (rule Cons.IH) (use Cons.prems(1,2) hd in \<open>auto simp: ys\<close>)
  ultimately show ?case by (simp add: ys)
qed

lemma join_inj:
  assumes elem: "\<And>x y r r'. x \<in> set xs \<Longrightarrow> y \<in> set ys \<Longrightarrow> stops r \<Longrightarrow> stops r' \<Longrightarrow>
      f x @ r = f y @ r' \<Longrightarrow> g x = g y \<and> r = r'"
    and starts: "\<And>x. starts_value (f x)"
    and c: "c \<in> {CHR '']'', CHR ''}''}"
    and eq: "join '','' (map f xs) @ c # r = join '','' (map f ys) @ c # r'"
  shows "map g xs = map g ys \<and> r = r'"
proof (cases xs; cases ys)
  fix x xs' y ys' assume xs: "xs = x # xs'" and ys: "ys = y # ys'"
  have "f x @ (more f xs' @ c # r) = f y @ (more f ys' @ c # r')"
    using eq by (simp add: xs ys join_def comp_def)
  then have hd: "g x = g y \<and> more f xs' @ c # r = more f ys' @ c # r'"
    by (intro elem stops_more) (use c in \<open>auto simp: xs ys\<close>)
  have "map g xs' = map g ys' \<and> r = r'"
    by (rule more_inj [OF elem]) (use c hd in \<open>auto simp: xs ys\<close>)
  with hd show ?thesis by (simp add: xs ys)
next
  fix y ys' assume xs: "xs = []" and ys: "ys = y # ys'"
  obtain h t where "f y = h # t" and "\<not> stops (h # r)"
    using starts_value_append [OF starts] by blast
  with eq c show ?thesis by (auto simp: xs ys join_def)
next
  fix x xs' assume xs: "xs = x # xs'" and ys: "ys = []"
  obtain h t where "f x = h # t" and "\<not> stops (h # r)"
    using starts_value_append [OF starts] by blast
  with eq c show ?thesis by (auto simp: xs ys join_def)
qed (use eq in auto)

section \<open>The text determines the payload\<close>

lemma quote_char_literal: "quote_char = CHR 0x22"
  by code_simp

lemma int_string_head: "\<exists>c t. int_string n = c # t \<and> (c = CHR ''-'' \<or> is_digit c)"
proof (cases "n < 0")
  case True
  then show ?thesis by (simp add: int_string_def)
next
  case False
  obtain c t where ct: "nat_string (nat n) = c # t" by (cases "nat_string (nat n)") auto
  with nat_string_digits [of "nat n"] False show ?thesis by (auto simp: int_string_def)
qed

text \<open>The first character tells the kinds of values apart.\<close>

definition kind_char :: "json \<Rightarrow> char \<Rightarrow> bool" where
  "kind_char v c =
     (case v of JUndefined \<Rightarrow> c = CHR ''u'' | JNull \<Rightarrow> c = CHR ''n''
      | JBool b \<Rightarrow> c = (if b then CHR ''t'' else CHR ''f'')
      | JNum n \<Rightarrow> c = CHR ''-'' \<or> is_digit c | JStr s \<Rightarrow> c = CHR 0x22
      | JArr xs \<Rightarrow> c = CHR ''['' | JObj kvs \<Rightarrow> c = CHR ''{'')"

lemma stableStringify_head: "\<exists>c t. stableStringify v = c # t \<and> kind_char v c"
  using int_string_head by (cases v) (auto simp: kind_char_def stringify_string_def quote_char_literal)

lemma starts_value_stableStringify: "starts_value (stableStringify v)"
proof -
  obtain c t where "stableStringify v = c # t" and "kind_char v c"
    using stableStringify_head by blast
  then show ?thesis
    by (cases v) (auto simp: starts_value_def kind_char_def is_digit_def)
qed

lemma starts_value_entry: "starts_value (entry_string kv)"
  by (simp add: starts_value_def entry_string_def stringify_string_def quote_char_literal)

lemma kind_char_same:
  assumes "stableStringify a @ r = stableStringify b @ r'"
  shows "\<exists>c. kind_char a c \<and> kind_char b c"
proof -
  obtain c t where "stableStringify a = c # t" "kind_char a c" using stableStringify_head by blast
  moreover obtain c' t' where "stableStringify b = c' # t'" "kind_char b c'"
    using stableStringify_head by blast
  ultimately show ?thesis using assms by auto
qed

lemma stableStringify_prefix:
  "json_wf a \<Longrightarrow> json_wf b \<Longrightarrow> stops r \<Longrightarrow> stops r' \<Longrightarrow>
     stableStringify a @ r = stableStringify b @ r' \<Longrightarrow> canon a = canon b \<and> r = r'"
proof (induction a arbitrary: b r r' rule: stableStringify.induct)
  case (6 xs)
  then obtain ys where b: "b = JArr ys"
    using kind_char_same [OF "6.prems"(5)] by (cases b) (auto simp: kind_char_def is_digit_def split: if_splits)
  have "join '','' (map stableStringify xs) @ CHR '']'' # r =
      join '','' (map stableStringify ys) @ CHR '']'' # r'"
    using "6.prems"(5) unfolding b stableStringify_arr [OF "6.prems"(1)]
      stableStringify_arr [OF "6.prems"(2) [unfolded b]] by simp
  then have "map canon xs = map canon ys \<and> r = r'"
    by (rule join_inj [OF _ starts_value_stableStringify, rotated 2])
      (use 6 b in auto)
  then show ?case by (simp add: b)
next
  case (7 kvs)
  then obtain kws where b: "b = JObj kws"
    using kind_char_same [OF "7.prems"(5)] by (cases b) (auto simp: kind_char_def is_digit_def split: if_splits)
  have eq: "join '','' (map entry_string (sort_key fst kvs)) @ CHR ''}'' # r =
      join '','' (map entry_string (sort_key fst kws)) @ CHR ''}'' # r'"
    using "7.prems"(5) unfolding b stableStringify_obj by simp
  have "entry_canon x = entry_canon y \<and> u = u'"
    if mem: "x \<in> set (sort_key fst kvs)" "y \<in> set (sort_key fst kws)" and st: "stops u" "stops u'"
      and e: "entry_string x @ u = entry_string y @ u'" for x y u u'
  proof -
    have "fst x = fst y \<and> stableStringify (snd x) @ u = stableStringify (snd y) @ u'"
      using stringify_string_inj [of "fst x" "'':'' @ stableStringify (snd x) @ u" "fst y"
          "'':'' @ stableStringify (snd y) @ u'"] e
      by (simp add: entry_string_def)
    moreover have "canon (snd x) = canon (snd y) \<and> u = u'"
      by (rule "7.IH" [of x]) (use mem st calculation "7.prems"(1,2) b in auto)
    ultimately show ?thesis by (simp add: entry_canon_def)
  qed
  then have "map entry_canon (sort_key fst kvs) = map entry_canon (sort_key fst kws) \<and> r = r'"
    by (rule join_inj [OF _ starts_value_entry _ eq]) auto
  then show ?case unfolding b canon_obj by simp
next
  case (4 n)
  then obtain m where b: "b = JNum m"
    using kind_char_same [OF "4.prems"(5)] by (cases b) (auto simp: kind_char_def is_digit_def split: if_splits)
  with 4 int_string_inj [OF "4.prems"(3,4), of n m] show ?case by simp
next
  case (5 s)
  then obtain t where b: "b = JStr t"
    using kind_char_same [OF "5.prems"(5)] by (cases b) (auto simp: kind_char_def is_digit_def split: if_splits)
  with 5 stringify_string_inj [of s r t r'] show ?case by simp
next
  case (3 v)
  then obtain w where b: "b = JBool w" and "v = w"
    using kind_char_same [OF "3.prems"(5)]
    by (cases b) (auto simp: kind_char_def is_digit_def split: if_splits)
  with 3 show ?case by simp
next
  case 1
  then have b: "b = JUndefined"
    using kind_char_same [OF "1.prems"(5)] by (cases b) (auto simp: kind_char_def is_digit_def split: if_splits)
  with 1 show ?case by simp
next
  case 2
  then have b: "b = JNull"
    using kind_char_same [OF "2.prems"(5)] by (cases b) (auto simp: kind_char_def is_digit_def split: if_splits)
  with 2 show ?case by simp
qed

lemma stableStringify_inj:
  assumes "json_wf a" "json_wf b" and "stableStringify a = stableStringify b"
  shows "canon a = canon b"
  using stableStringify_prefix [OF assms(1,2), of "[]" "[]"] assms(3) by simp

section \<open>The order of keys does not matter\<close>

lemma canon_JUndefined [simp]: "canon x = JUndefined \<longleftrightarrow> x = JUndefined"
  by (cases x) auto

lemma sorted_canon_entries: "sorted (map fst (map entry_canon (sort_key fst kvs)))"
  by (simp add: entry_canon_def comp_def)

lemma stableStringify_canon: "stableStringify (canon a) = stableStringify a"
proof (induction a rule: stableStringify.induct)
  case (6 xs)
  then show ?case by (simp add: comp_def cong: map_cong if_cong)
next
  case (7 kvs)
  have "sort_key fst (map entry_canon (sort_key fst kvs)) = map entry_canon (sort_key fst kvs)"
    by (rule sort_key_id_if_sorted) (rule sorted_canon_entries)
  moreover have "map (entry_string \<circ> entry_canon) (sort_key fst kvs) = map entry_string (sort_key fst kvs)"
    using "7.IH" by (simp add: entry_string_def entry_canon_def)
  ultimately show ?case unfolding canon_obj stableStringify_obj by (simp only: list.map_comp)
qed auto

lemma stableStringify_eq_iff:
  assumes "json_wf a" "json_wf b"
  shows "stableStringify a = stableStringify b \<longleftrightarrow> canon a = canon b"
  using stableStringify_inj [OF assms] stableStringify_canon by metis

lemma sort_key_distinct_perm:
  assumes "distinct (map fst kvs)" "distinct (map fst kws)" and "set kvs = set kws"
  shows "sort_key fst kvs = sort_key fst (kws :: (string \<times> 'a) list)"
proof (rule map_sorted_distinct_set_unique [of fst])
  show "inj_on fst (set (sort_key fst kvs) \<union> set (sort_key fst kws))"
    using assms by (simp add: distinct_map)
qed (use assms in \<open>simp_all add: distinct_map\<close>)

lemma canon_reorder:
  assumes "distinct (map fst kvs)" "distinct (map fst kws)" and "set kvs = set kws"
  shows "canon (JObj kvs) = canon (JObj kws)"
  unfolding canon_obj using sort_key_distinct_perm [OF assms] by simp

end
