(* ===== verification/Js_Date.thy ===== *)
theory Js_Date
  imports Prelude
begin

text \<open>
  \<open>Date.prototype.toISOString\<close>, which the services call on every date they put into a
  response: the civil calendar of a millisecond count and its printed form
  \<open>YYYY-MM-DDTHH:mm:ss.sssZ\<close> (six digits and a sign for a year outside 0 to 9999).
\<close>

definition ms_per_day :: int where
  "ms_per_day = 86400000"

text \<open>The proleptic Gregorian date of a day number; day 0 is 1970-01-01.\<close>

definition civil_of_days :: "int \<Rightarrow> int \<times> int \<times> int" where
  "civil_of_days n =
     (let z = n + 719468; era = z div 146097; doe = z mod 146097;
          yoe = (doe - doe div 1460 + doe div 36524 - doe div 146096) div 365;
          doy = doe - (365 * yoe + yoe div 4 - yoe div 100);
          mp = (5 * doy + 2) div 153;
          m = (if mp < 10 then mp + 3 else mp - 9)
      in (yoe + era * 400 + (if m \<le> 2 then 1 else 0), m, doy - (153 * mp + 2) div 5 + 1))"

definition digit :: "int \<Rightarrow> char" where
  "digit d = char_of (48 + nat (d mod 10))"

fun digits :: "nat \<Rightarrow> int \<Rightarrow> string" where
  "digits 0 n = []"
| "digits (Suc w) n = digits w (n div 10) @ [digit n]"

lemma length_digits [simp]: "length (digits w n) = w"
  by (induction w n rule: digits.induct) auto

definition year_string :: "int \<Rightarrow> string" where
  "year_string y =
     (if 0 \<le> y \<and> y \<le> 9999 then digits 4 y
      else (if y < 0 then CHR ''-'' else CHR ''+'') # digits 6 \<bar>y\<bar>)"

definition toISOString :: "js_date \<Rightarrow> string" where
  "toISOString d =
     (let (y, m, dd) = civil_of_days (d div ms_per_day); t = d mod ms_per_day
      in year_string y @ ''-'' @ digits 2 m @ ''-'' @ digits 2 dd @ ''T'' @
         digits 2 (t div 3600000) @ '':'' @ digits 2 (t div 60000 mod 60) @ '':'' @
         digits 2 (t div 1000 mod 60) @ ''.'' @ digits 3 (t mod 1000) @ ''Z'')"

lemma toISOString_epoch: "toISOString 0 = ''1970-01-01T00:00:00.000Z''"
  by code_simp

lemma toISOString_sample: "toISOString 1709210096789 = ''2024-02-29T12:34:56.789Z''"
  by code_simp

end
