(* ===== verification/Pagination.thy ===== *)
theory Pagination
  imports Constraints Canonical_Json Js_Date
begin

text \<open>
  Keyset pagination (\<open>common/pagination.util.ts\<close>, \<open>common/pagination-query.dto.ts\<close>): the limit, the
  opaque cursor, the WHERE fragment after a cursor and the split of \<open>limit + 1\<close> rows into a page.

  Base64, \<open>JSON.parse\<close> and \<open>Date.parse\<close> are the parameters of a \<open>codec\<close>; the rest of the cursor's
  encoding is modelled.  The locale \<open>keyset\<close> is the interface of a listed table.
\<close>

section \<open>Limits\<close>

text \<open>A JavaScript number: \<open>Finite n k\<close> is the rational \<open>n / (k + 1)\<close>.\<close>

datatype js_number = NaN | Infinity | NegInfinity | Finite int nat

definition DEFAULT_LIMIT :: int where
  "DEFAULT_LIMIT = 20"

definition MAX_LIMIT :: int where
  "MAX_LIMIT = 100"

fun normalizeLimit :: "js_number option \<Rightarrow> int" where
  "normalizeLimit (Some (Finite n k)) =
     (if n < int (Suc k) then DEFAULT_LIMIT else min (n div int (Suc k)) MAX_LIMIT)"
| "normalizeLimit _ = DEFAULT_LIMIT"

definition pagination_query_valid :: "js_number option \<Rightarrow> bool" where
  \<comment> \<open>\<open>@IsOptional @IsInt @Min(1) @Max(100)\<close>\<close>
  "pagination_query_valid l =
     (case l of None \<Rightarrow> True
      | Some (Finite n k) \<Rightarrow> n mod int (Suc k) = 0 \<and> 1 \<le> n div int (Suc k) \<and> n div int (Suc k) \<le> 100
      | Some _ \<Rightarrow> False)"

section \<open>Cursors\<close>

record cursor_fields =
  cur_createdAt :: js_date
  cur_id :: string

record codec =
  toBase64url :: "string \<Rightarrow> string"
  fromBase64url :: "string \<Rightarrow> string"
  jsonParse :: "string \<Rightarrow> json option"     \<comment> \<open>\<open>None\<close>: a SyntaxError\<close>
  dateParse :: "string \<Rightarrow> js_date option"  \<comment> \<open>\<open>None\<close>: an invalid date\<close>

definition cursor_text :: "cursor_fields \<Rightarrow> string" where
  "cursor_text f =
     ''{'' @ stringify_string ''c'' @ '':'' @ stringify_string (toISOString (cur_createdAt f)) @ '','' @
     stringify_string ''i'' @ '':'' @ stringify_string (cur_id f) @ ''}''"

definition encodeCursor :: "codec \<Rightarrow> cursor_fields \<Rightarrow> string" where
  "encodeCursor cd f = toBase64url cd (cursor_text f)"

definition decodeCursor :: "codec \<Rightarrow> string option \<Rightarrow> cursor_fields option" where
  "decodeCursor cd cursor =
     (case cursor of
        None \<Rightarrow> None
      | Some s \<Rightarrow>
          if s = [] then None
          else (case jsonParse cd (fromBase64url cd s) of
                  Some (JObj kvs) \<Rightarrow>
                    (case (map_of kvs ''c'', map_of kvs ''i'') of
                       (Some (JStr c), Some (JStr i)) \<Rightarrow>
                         map_option (\<lambda>t. \<lparr>cur_createdAt = t, cur_id = i\<rparr>) (dateParse cd c)
                     | _ \<Rightarrow> None)
                | _ \<Rightarrow> None))"

lemma decode_encode:
  assumes "toBase64url cd (cursor_text f) \<noteq> []"
    and "fromBase64url cd (toBase64url cd (cursor_text f)) = cursor_text f"
    and "jsonParse cd (cursor_text f) =
      Some (JObj [(''c'', JStr (toISOString (cur_createdAt f))), (''i'', JStr (cur_id f))])"
    and "dateParse cd (toISOString (cur_createdAt f)) = Some (cur_createdAt f)"
  shows "decodeCursor cd (Some (encodeCursor cd f)) = Some f"
  using assms by (simp add: decodeCursor_def encodeCursor_def)

section \<open>The uuid a cursor names\<close>

text \<open>
  The server's input function for \<open>uuid\<close>: sixteen pairs of hexadecimal digits, an optional hyphen
  after every second pair, the whole optionally in braces.  Anything else is SQLSTATE 22P02.
\<close>

definition hex_char :: "char \<Rightarrow> bool" where
  "hex_char c \<longleftrightarrow> (let n = (of_char c :: nat) in n \<in> {48..57} \<or> n \<in> {65..70} \<or> n \<in> {97..102})"

fun uuid_pairs :: "nat \<Rightarrow> string \<Rightarrow> (string \<times> string) option" where
  "uuid_pairs 0 s = Some ([], s)"
| "uuid_pairs (Suc n) (a # b # rest) =
     (if hex_char a \<and> hex_char b
      then map_option (\<lambda>(ds, r). (a # b # ds, r))
             (uuid_pairs n (case rest of c # r \<Rightarrow> if c = CHR ''-'' \<and> even n \<and> 0 < n then r else rest | [] \<Rightarrow> []))
      else None)"
| "uuid_pairs (Suc n) _ = None"

definition uuid_in :: "string \<Rightarrow> uuid option" where
  "uuid_in s =
     (let (body, close) = (case s of c # r \<Rightarrow> if c = CHR ''{'' then (r, ''}'') else (s, []) | [] \<Rightarrow> (s, []))
      in case uuid_pairs 16 body of
           Some (ds, rest) \<Rightarrow>
             if rest = close
             then Some (lower (take 8 ds @ ''-'' @ take 4 (drop 8 ds) @ ''-'' @ take 4 (drop 12 ds) @ ''-'' @
                    take 4 (drop 16 ds) @ ''-'' @ drop 20 ds))
             else None
         | None \<Rightarrow> None)"

lemma uuid_in_sample:
  "uuid_in ''0A000000-0000-0000-0000-00000000000f'' = Some ''0a000000-0000-0000-0000-00000000000f''"
  "uuid_in ''x'' = None"
  by code_simp+

definition invalid_text_representation :: exn where
  "invalid_text_representation = DrizzleQueryError ''22P02'' None"

section \<open>The page\<close>

text \<open>
  The position of a row in a listing, ordered as \<open>ORDER BY created_at, id\<close> orders rows: by time, and by
  id among rows of the same time.
\<close>

datatype row_position = Position timestamptz uuid

instantiation row_position :: linorder
begin

fun less_eq_row_position :: "row_position \<Rightarrow> row_position \<Rightarrow> bool" where
  "Position t i \<le> Position t' i' \<longleftrightarrow> t < t' \<or> t = t' \<and> i \<le> i'"

fun less_row_position :: "row_position \<Rightarrow> row_position \<Rightarrow> bool" where
  "Position t i < Position t' i' \<longleftrightarrow> t < t' \<or> t = t' \<and> i < i'"

instance
proof
  fix a b c :: row_position
  show "a < b \<longleftrightarrow> a \<le> b \<and> \<not> b \<le> a" by (cases a; cases b) auto
  show "a \<le> a" by (cases a) simp
  show "a \<le> c" if "a \<le> b" "b \<le> c" using that by (cases a; cases b; cases c) auto
  show "a = b" if "a \<le> b" "b \<le> a" using that by (cases a; cases b) auto
  show "a \<le> b \<or> b \<le> a" by (cases a; cases b) auto
qed

end

text \<open>\<open>(created_at, id)\<close> strictly before the cursor in the descending listing.\<close>

definition keysetBefore :: "('r \<Rightarrow> timestamptz) \<Rightarrow> ('r \<Rightarrow> uuid) \<Rightarrow> timestamptz \<times> uuid \<Rightarrow> 'r \<Rightarrow> bool" where
  "keysetBefore created ident c r \<longleftrightarrow>
     created r < fst c \<or> created r = fst c \<and> ident r < snd c"

definition select_page ::
  "('r \<Rightarrow> timestamptz) \<Rightarrow> ('r \<Rightarrow> uuid) \<Rightarrow> (timestamptz \<times> uuid) option \<Rightarrow> nat \<Rightarrow> 'r list \<Rightarrow> 'r list" where
  "select_page created ident c n rows =
     take n (rev (sort_key (\<lambda>r. Position (created r) (ident r))
       (filter (\<lambda>r. case c of None \<Rightarrow> True | Some k \<Rightarrow> keysetBefore created ident k r) rows)))"

record 'a cursor_page =
  page_items :: "'a list"
  nextCursor :: "string option"

definition paginate :: "codec \<Rightarrow> ('a \<Rightarrow> cursor_fields) \<Rightarrow> 'a list \<Rightarrow> nat \<Rightarrow> 'a cursor_page" where
  "paginate cd cursor_of rows limit =
     (let hasMore = length rows > limit;
          its = (if hasMore then take limit rows else rows)
      in \<lparr>page_items = its,
          nextCursor = (if hasMore \<and> its \<noteq> [] then Some (encodeCursor cd (cursor_of (last its))) else None)\<rparr>)"

text \<open>
  The shape \<open>listProducts\<close> and \<open>listOrders\<close> share: a row's \<open>createdAt\<close> leaves the database as a \<open>Date\<close>,
  so the cursor of a row holds milliseconds.
\<close>

record page_query =
  pq_limit :: "js_number option"
  pq_cursor :: "string option"

definition row_cursor :: "('r \<Rightarrow> timestamptz) \<Rightarrow> ('r \<Rightarrow> uuid) \<Rightarrow> 'r \<Rightarrow> cursor_fields" where
  "row_cursor created ident r = \<lparr>cur_createdAt = date_of_timestamp (created r), cur_id = ident r\<rparr>"

definition list_page ::
  "codec \<Rightarrow> ('r \<Rightarrow> timestamptz) \<Rightarrow> ('r \<Rightarrow> uuid) \<Rightarrow> 'r list \<Rightarrow> page_query \<Rightarrow> exn + 'r cursor_page" where
  "list_page cd created ident rows q =
     (let limit = nat (normalizeLimit (pq_limit q)); cursor = decodeCursor cd (pq_cursor q)
      in if pq_cursor q \<notin> {None, Some []} \<and> cursor = None
         then Inl (HttpException (RejectBody (Message ''Invalid pagination cursor.'')) 400)
         else (case cursor of
                 None \<Rightarrow> Inr (paginate cd (row_cursor created ident)
                           (select_page created ident None (limit + 1) rows) limit)
               | Some c \<Rightarrow>
                   (case uuid_in (cur_id c) of
                      None \<Rightarrow> Inl invalid_text_representation
                    | Some u \<Rightarrow> Inr (paginate cd (row_cursor created ident)
                        (select_page created ident (Some (timestamp_of_date (cur_createdAt c), u))
                          (limit + 1) rows) limit))))"

definition map_page :: "('a \<Rightarrow> 'b) \<Rightarrow> exn + 'a cursor_page \<Rightarrow> exn + 'b cursor_page" where
  \<comment> \<open>the columns of a listing: what of a row is selected\<close>
  "map_page f res = map_sum id (\<lambda>p. \<lparr>page_items = map f (page_items p), nextCursor = nextCursor p\<rparr>) res"

text \<open>
  A client that follows \<open>nextCursor\<close> from page to page; \<open>fuel\<close> bounds its requests, and \<open>None\<close> says
  that it was not enough.
\<close>

fun follow :: "(string option \<Rightarrow> exn + 'a cursor_page) \<Rightarrow> nat \<Rightarrow> string option \<Rightarrow> (exn + 'a list) option" where
  "follow fetch 0 c = None"
| "follow fetch (Suc fuel) c =
     (case fetch c of
        Inl err \<Rightarrow> Some (Inl err)
      | Inr page \<Rightarrow>
          (case nextCursor page of
             None \<Rightarrow> Some (Inr (page_items page))
           | Some c' \<Rightarrow> map_option (map_sum id (\<lambda>rest. page_items page @ rest)) (follow fetch fuel (Some c'))))"

definition fetch_page ::
  "codec \<Rightarrow> ('r \<Rightarrow> timestamptz) \<Rightarrow> ('r \<Rightarrow> uuid) \<Rightarrow> 'r list \<Rightarrow> js_number option \<Rightarrow> string option \<Rightarrow> exn + 'r cursor_page" where
  "fetch_page cd created ident rows l c = list_page cd created ident rows \<lparr>pq_limit = l, pq_cursor = c\<rparr>"

text \<open>Selecting columns commutes with following the cursors.\<close>

lemma follow_map_page:
  "follow (\<lambda>c. map_page f (fetch c)) fuel c = map_option (map_sum id (map f)) (follow fetch fuel c)"
proof (induction fuel arbitrary: c)
  case (Suc fuel)
  show ?case
  proof (cases "fetch c")
    case (Inr page)
    then show ?thesis
      using Suc by (cases "nextCursor page")
        (auto simp: map_page_def option.map_comp sum.map_comp comp_def intro!: option.map_cong sum.map_cong)
  qed (simp add: map_page_def)
qed simp

section \<open>Bounds\<close>

lemma normalizeLimit_bounds: "1 \<le> normalizeLimit l \<and> normalizeLimit l \<le> MAX_LIMIT"
proof (cases "\<exists>n k. l = Some (Finite n k) \<and> int (Suc k) \<le> n")
  case True
  then obtain n k where l: "l = Some (Finite n k)" "int (Suc k) \<le> n" by blast
  then have "1 \<le> n div int (Suc k)"
    using zdiv_mono1 [of "int (Suc k)" n "int (Suc k)"] by simp
  with l show ?thesis by (simp add: MAX_LIMIT_def)
next
  case False
  then have "normalizeLimit l = DEFAULT_LIMIT"
    by (cases l rule: normalizeLimit.cases) auto
  then show ?thesis by (simp add: DEFAULT_LIMIT_def MAX_LIMIT_def)
qed

lemma normalizeLimit_valid:
  assumes "pagination_query_valid (Some (Finite n k))"
  shows "normalizeLimit (Some (Finite n k)) * int (Suc k) = n"
proof -
  from assms have "n mod int (Suc k) = 0" and le: "1 \<le> n div int (Suc k)" "n div int (Suc k) \<le> 100"
    by (auto simp: pagination_query_valid_def)
  then have eq: "n div int (Suc k) * int (Suc k) = n"
    using div_mult_mod_eq [of n "int (Suc k)"] by simp
  have "int (Suc k) \<le> n" using eq le(1) mult_right_mono [of 1 "n div int (Suc k)" "int (Suc k)"] by simp
  with eq le show ?thesis by (simp add: MAX_LIMIT_def)
qed

section \<open>The listing as a strictly descending sequence\<close>

definition row_key :: "('r \<Rightarrow> timestamptz) \<Rightarrow> ('r \<Rightarrow> uuid) \<Rightarrow> 'r \<Rightarrow> row_position" where
  "row_key created ident r = Position (created r) (ident r)"

definition listing :: "('r \<Rightarrow> timestamptz) \<Rightarrow> ('r \<Rightarrow> uuid) \<Rightarrow> 'r list \<Rightarrow> 'r list" where
  "listing created ident rows = rev (sort_key (row_key created ident) rows)"

lemma keysetBefore_less: "keysetBefore created ident c r \<longleftrightarrow> row_key created ident r < Position (fst c) (snd c)"
  by (cases c) (auto simp: keysetBefore_def row_key_def)

lemma select_page_listing:
  "select_page created ident c n rows =
     take n (filter (\<lambda>r. case c of None \<Rightarrow> True | Some k \<Rightarrow> row_key created ident r < Position (fst k) (snd k))
       (listing created ident rows))"
proof -
  have "row_key created ident = (\<lambda>r. Position (created r) (ident r))" by (simp add: row_key_def fun_eq_iff)
  then show ?thesis
    by (cases c)
      (simp_all add: select_page_def listing_def keysetBefore_less filter_sort rev_filter [symmetric])
qed

lemma set_listing [simp]: "set (listing created ident rows) = set rows"
  by (simp add: listing_def)

lemma listing_descending:
  assumes "distinct (map ident rows)"
  shows "sorted_wrt (\<lambda>a b. row_key created ident b < row_key created ident a) (listing created ident rows)"
proof -
  let ?k = "row_key created ident" and ?s = "sort_key (row_key created ident) rows"
  have "distinct (map ?k rows)"
    using assms by (auto simp: distinct_map inj_on_def row_key_def)
  then have "distinct (map ?k ?s)" by (simp add: distinct_map)
  then have "sorted_wrt (<) (map ?k ?s)" by (simp add: strict_sorted_iff)
  then show ?thesis by (simp add: listing_def sorted_wrt_rev sorted_wrt_map)
qed

lemma filter_after:
  assumes "sorted_wrt (\<lambda>a b. k b < (k a :: 'k::linorder)) (pre @ x # post)"
  shows "filter (\<lambda>r. k r < k x) (pre @ x # post) = post"
  using assms by (fastforce simp: sorted_wrt_append filter_id_conv filter_empty_conv)


lemma last_take:
  assumes "1 \<le> n" and "\<not> length s \<le> n"
  shows "take n s \<noteq> []" and "last (take n s) = s ! (n - 1)"
proof -
  show ne: "take n s \<noteq> []" using assms by auto
  show "last (take n s) = s ! (n - 1)" using assms by (simp add: last_conv_nth [OF ne] min_def)
qed

lemma paginate_take:
  assumes "1 \<le> n"
  shows "paginate cd f (take (n + 1) s) n =
    (if length s \<le> n then \<lparr>page_items = s, nextCursor = None\<rparr>
     else \<lparr>page_items = take n s, nextCursor = Some (encodeCursor cd (f (s ! (n - 1))))\<rparr>)"
proof (cases "length s \<le> n")
  case False
  with last_take [OF assms False] show ?thesis by (simp add: paginate_def Let_def min_def)
qed (simp add: paginate_def)

lemma paginate_subset: "set (page_items (paginate cd f rows n)) \<subseteq> set rows"
  by (auto simp: paginate_def Let_def dest: in_set_takeD)

section \<open>The interface of a listed table\<close>

text \<open>
  A table is listed by a timestamp and an identifier that no two of an organization's rows share.
  \<open>exact_cursors\<close> is what the cursor of every row has to keep of it for the listing to be complete:
  the codec gives the cursor's fields back, the identifier is read as itself, and the timestamp
  has no microseconds.
\<close>

definition ms_aligned :: "timestamptz \<Rightarrow> bool" where
  "ms_aligned t \<longleftrightarrow> timestamp_of_date (date_of_timestamp t) = t"

definition codec_returns :: "codec \<Rightarrow> cursor_fields \<Rightarrow> bool" where
  "codec_returns cd f \<longleftrightarrow> decodeCursor cd (Some (encodeCursor cd f)) = Some f"

definition exact_cursors ::
  "codec \<Rightarrow> ('r \<Rightarrow> timestamptz) \<Rightarrow> ('r \<Rightarrow> uuid) \<Rightarrow> 'r list \<Rightarrow> bool" where
  "exact_cursors cd created ident rows \<longleftrightarrow>
     (\<forall>r \<in> set rows. codec_returns cd (row_cursor created ident r) \<and>
        uuid_in (ident r) = Some (ident r) \<and> ms_aligned (created r))"

lemma ms_aligned_iff: "ms_aligned t \<longleftrightarrow> t mod 1000 = 0"
  unfolding ms_aligned_def timestamp_of_date_def date_of_timestamp_def
  by (metis add_cancel_right_right div_mult_mod_eq)

lemma list_page_first:
  "list_page cd created ident rows \<lparr>pq_limit = l, pq_cursor = None\<rparr> =
     Inr (paginate cd (row_cursor created ident)
       (take (nat (normalizeLimit l) + 1) (listing created ident rows)) (nat (normalizeLimit l)))"
  by (simp add: list_page_def Let_def decodeCursor_def select_page_listing)

lemma list_page_after:
  assumes "codec_returns cd (row_cursor created ident x)" and "uuid_in (ident x) = Some (ident x)"
  shows "list_page cd created ident rows
      \<lparr>pq_limit = l, pq_cursor = Some (encodeCursor cd (row_cursor created ident x))\<rparr> =
    Inr (paginate cd (row_cursor created ident)
      (take (nat (normalizeLimit l) + 1)
        (filter (\<lambda>r. row_key created ident r < Position (timestamp_of_date (date_of_timestamp (created x))) (ident x))
          (listing created ident rows)))
      (nat (normalizeLimit l)))"
  using assms
  by (simp add: list_page_def Let_def codec_returns_def select_page_listing row_cursor_def)

locale keyset =
  fixes created :: "'r \<Rightarrow> timestamptz" and ident :: "'r \<Rightarrow> uuid" and rows_of :: "uuid \<Rightarrow> db \<Rightarrow> 'r list"
  assumes distinct_ident: "db_ok d \<Longrightarrow> distinct (map ident (rows_of g d))"
begin

lemma follow_rest:
  assumes ok: "db_ok d" and exact: "exact_cursors cd created ident (rows_of g d)"
    and split: "listing created ident (rows_of g d) = pre @ rest"
    and c: "c = (if pre = [] then None else Some (encodeCursor cd (row_cursor created ident (last pre))))"
    and fuel: "length rest < fuel"
  shows "follow (fetch_page cd created ident (rows_of g d) l) fuel c = Some (Inr rest)"
  using split c fuel
proof (induction fuel arbitrary: pre rest c)
  case (Suc fuel)
  let ?rows = "rows_of g d" and ?n = "nat (normalizeLimit l)"
  let ?L = "listing created ident ?rows"
  have n: "1 \<le> ?n" using normalizeLimit_bounds [of l] by linarith
  note desc = listing_descending [OF distinct_ident [OF ok, of g], of created]
  have page: "fetch_page cd created ident ?rows l c =
      Inr (paginate cd (row_cursor created ident) (take (?n + 1) rest) ?n)"
  proof (cases "pre = []")
    case True
    with Suc.prems show ?thesis by (simp add: fetch_page_def list_page_first)
  next
    case False
    then obtain ps x where pre: "pre = ps @ [x]" by (metis rev_exhaust)
    then have "x \<in> set ?rows" by (metis Suc.prems(1) set_listing Un_iff in_set_conv_decomp set_append)
    then have x: "codec_returns cd (row_cursor created ident x)" "uuid_in (ident x) = Some (ident x)"
      "timestamp_of_date (date_of_timestamp (created x)) = created x"
      using exact by (auto simp: exact_cursors_def ms_aligned_def)
    have "?L = ps @ x # rest" using Suc.prems(1) pre by simp
    then have "filter (\<lambda>r. row_key created ident r < row_key created ident x) ?L = rest"
      using filter_after desc by metis
    with x(3) list_page_after [OF x(1,2)] show ?thesis
      using Suc.prems(2) pre by (simp add: fetch_page_def row_key_def)
  qed
  show ?case
  proof (cases "length rest \<le> ?n")
    case True
    with page [unfolded paginate_take [OF n]] show ?thesis by simp
  next
    case False
    let ?pre = "pre @ take ?n rest"
    note ne = last_take(1) [OF n False] and lst = last_take(2) [OF n False]
    have "follow (fetch_page cd created ident ?rows l) fuel
        (Some (encodeCursor cd (row_cursor created ident (rest ! (?n - 1))))) = Some (Inr (drop ?n rest))"
      using Suc.prems(1,3) ne lst n False by (intro Suc.IH [of ?pre]) auto
    with page [unfolded paginate_take [OF n]] False show ?thesis by simp
  qed
qed simp

text \<open>All pages together are the listing, whatever page size the client asks for.\<close>

lemma follow_complete:
  assumes "db_ok d" and "exact_cursors cd created ident (rows_of g d)" and "length (rows_of g d) < fuel"
  shows "follow (fetch_page cd created ident (rows_of g d) l) fuel None =
    Some (Inr (listing created ident (rows_of g d)))"
  using assms by (intro follow_rest [where pre = "[]"]) (simp_all add: listing_def)

text \<open>
  Without the alignment rows are lost: a row that follows \<open>x\<close> in the listing within the same
  millisecond is on no page after \<open>x\<close>'s cursor.
\<close>

lemma page_after_skips:
  assumes "codec_returns cd (row_cursor created ident x)" and "uuid_in (ident x) = Some (ident x)"
    and same: "date_of_timestamp (created y) = date_of_timestamp (created x)"
    and micros: "\<not> ms_aligned (created y)"
  shows "\<exists>page. list_page cd created ident (rows_of g d)
      \<lparr>pq_limit = l, pq_cursor = Some (encodeCursor cd (row_cursor created ident x))\<rparr> = Inr page \<and>
    y \<notin> set (page_items page)"
proof -
  let ?k = "Position (timestamp_of_date (date_of_timestamp (created x))) (ident x)"
  have "timestamp_of_date (date_of_timestamp (created y)) < created y"
    using micros unfolding timestamp_of_date_def date_of_timestamp_def ms_aligned_def by linarith
  then have "\<not> row_key created ident y < ?k"
    using same by (simp add: row_key_def)
  then show ?thesis
    using list_page_after [OF assms(1,2)]
    by (auto simp: paginate_def Let_def dest!: in_set_takeD)
qed

end

end
