(* ===== verification/Products.thy ===== *)
theory Products
  imports Pagination
begin

text \<open>
  \<open>ProductsService\<close> (\<open>products/products.service.ts\<close>): creating a product together with its
  inventory row, the paginated listing, and the detail view.
\<close>

section \<open>Data\<close>

record create_product_dto =
  cp_sku :: string
  cp_name :: string
  cp_description :: "string option"
  cp_unitPriceCents :: int
  cp_initialOnHand :: "int option"

definition create_product_valid :: "create_product_dto \<Rightarrow> bool" where
  "create_product_valid dto \<longleftrightarrow>
     1 \<le> length (cp_sku dto) \<and> length (cp_sku dto) \<le> 64 \<and>
     1 \<le> length (cp_name dto) \<and> length (cp_name dto) \<le> 200 \<and>
     (case cp_description dto of None \<Rightarrow> True | Some s \<Rightarrow> length s \<le> 2000) \<and>
     0 \<le> cp_unitPriceCents dto \<and> cp_unitPriceCents dto \<le> PG_INT4_MAX \<and>
     (case cp_initialOnHand dto of None \<Rightarrow> True | Some n \<Rightarrow> 0 \<le> n \<and> n \<le> PG_INT4_MAX)"

record product_summary =
  ps_id :: uuid
  ps_sku :: string
  ps_name :: string
  ps_unitPriceCents :: int
  ps_status :: product_status
  ps_createdAt :: js_date

record product_detail = product_summary +
  pd_description :: "string option"
  pd_onHand :: int
  pd_reserved :: int
  pd_available :: int

text \<open>The generated column \<open>sku_normalized\<close>.\<close>

definition sku_normalized :: "string \<Rightarrow> string" where
  "sku_normalized sku = lower (btrim sku)"

section \<open>Creating\<close>

definition initial_stock :: "create_product_dto \<Rightarrow> int" where
  "initial_stock dto = (case cp_initialOnHand dto of None \<Rightarrow> 0 | Some n \<Rightarrow> n)"

definition new_product :: "env \<Rightarrow> string \<Rightarrow> create_product_dto \<Rightarrow> product" where
  "new_product e organizationId dto =
     \<lparr>prod_id = new_uuid e 0, prod_organizationId = pg_uuid organizationId, prod_sku = cp_sku dto,
      prod_skuNormalized = sku_normalized (cp_sku dto), prod_name = cp_name dto,
      prod_description = cp_description dto, prod_unitPriceCents = cp_unitPriceCents dto,
      prod_status = Active, prod_createdAt = env_now e, prod_updatedAt = env_now e\<rparr>"

definition new_inventory :: "env \<Rightarrow> string \<Rightarrow> create_product_dto \<Rightarrow> inventory_row" where
  "new_inventory e organizationId dto =
     \<lparr>inv_id = new_uuid e 1, inv_organizationId = pg_uuid organizationId, inv_productId = new_uuid e 0,
      inv_onHand = initial_stock dto, inv_reserved = 0,
      inv_createdAt = env_now e, inv_updatedAt = env_now e\<rparr>"

definition initial_movement :: "env \<Rightarrow> string \<Rightarrow> create_product_dto \<Rightarrow> inventory_movement" where
  "initial_movement e organizationId dto =
     \<lparr>mov_organizationId = pg_uuid organizationId, mov_productId = new_uuid e 0,
      mov_movementType = OnHandAdjustment, mov_onHandDelta = initial_stock dto, mov_reservedDelta = 0,
      mov_reason = ''Initial stock at product creation'', mov_reference = None, mov_createdAt = env_now e\<rparr>"

definition detail_of :: "product \<Rightarrow> int \<Rightarrow> int \<Rightarrow> product_detail" where
  "detail_of p onHand reserved =
     \<lparr>ps_id = prod_id p, ps_sku = prod_sku p, ps_name = prod_name p,
      ps_unitPriceCents = prod_unitPriceCents p, ps_status = prod_status p,
      ps_createdAt = date_of_timestamp (prod_createdAt p), pd_description = prod_description p,
      pd_onHand = onHand, pd_reserved = reserved, pd_available = onHand - reserved\<rparr>"

definition create_product_body ::
  "env \<Rightarrow> string \<Rightarrow> create_product_dto \<Rightarrow> db \<Rightarrow> exn + (product_detail \<times> db)" where
  "create_product_body e organizationId dto d =
     (let product = new_product e organizationId dto; row = new_inventory e organizationId dto in
      andThen (insert_product product d) (\<lambda>d1.
      andThen (insert_inventory row d1) (\<lambda>d2.
      andThen (if initial_stock dto > 0
               then insert_movements [initial_movement e organizationId dto] d2 else Inr d2) (\<lambda>d3.
      Inr (detail_of product (inv_onHand row) (inv_reserved row), d3)))))"

definition sku_conflict :: exn where
  "sku_conflict = HttpException (RejectBody (Message
     ''A product with this SKU already exists in this organization.'')) 409"

definition createProduct ::
  "env \<Rightarrow> string \<Rightarrow> create_product_dto \<Rightarrow> db \<Rightarrow> (exn + product_detail) \<times> db" where
  "createProduct e organizationId dto d =
     (case transaction (create_product_body e organizationId dto) d of
        (Inl err, d') \<Rightarrow>
          (Inl (if pgErrorCode err = Some PG_UNIQUE_VIOLATION then sku_conflict else err), d')
      | (Inr detail, d') \<Rightarrow> (Inr detail, d'))"

section \<open>Reading\<close>

definition products_of :: "uuid \<Rightarrow> db \<Rightarrow> product list" where
  "products_of g d = filter (\<lambda>p. prod_organizationId p = g) (products d)"

definition summary_of :: "product \<Rightarrow> product_summary" where
  "summary_of p =
     \<lparr>ps_id = prod_id p, ps_sku = prod_sku p, ps_name = prod_name p,
      ps_unitPriceCents = prod_unitPriceCents p, ps_status = prod_status p,
      ps_createdAt = date_of_timestamp (prod_createdAt p)\<rparr>"

definition listProducts ::
  "codec \<Rightarrow> db \<Rightarrow> string \<Rightarrow> page_query \<Rightarrow> exn + product_summary cursor_page" where
  "listProducts cd d organizationId q =
     map_page summary_of (list_page cd prod_createdAt prod_id (products_of (pg_uuid organizationId) d) q)"

definition product_not_found :: exn where
  "product_not_found = HttpException (RejectBody (Message ''Product not found in this organization.'')) 404"

definition getProduct :: "db \<Rightarrow> string \<Rightarrow> string \<Rightarrow> exn + product_detail" where
  "getProduct d organizationId pid =
     (case find (\<lambda>p. prod_id p = pg_uuid pid \<and> prod_organizationId p = pg_uuid organizationId)
             (products d) of
        None \<Rightarrow> Inl product_not_found
      | Some p \<Rightarrow>
          (case find (\<lambda>r. inv_productId r = prod_id p) (inventory d) of
             None \<Rightarrow> Inr (detail_of p 0 0)
           | Some r \<Rightarrow> Inr (detail_of p (inv_onHand r) (inv_reserved r))))"

section \<open>The listing is a keyset listing\<close>

interpretation product_list: keyset prod_createdAt prod_id products_of
  by unfold_locales
    (auto simp: products_of_def products_ok_def distinct_map_filter dest: db_okD(4))

section \<open>What creation does\<close>

definition sku_taken :: "db \<Rightarrow> string \<Rightarrow> string \<Rightarrow> bool" where
  "sku_taken d organizationId sku \<longleftrightarrow>
     (\<exists>p \<in> set (products d). prod_organizationId p = pg_uuid organizationId \<and>
        prod_skuNormalized p = sku_normalized sku)"

definition fresh_product_ids :: "env \<Rightarrow> db \<Rightarrow> bool" where
  "fresh_product_ids e d \<longleftrightarrow>
     new_uuid e 0 \<notin> prod_id ` set (products d) \<and> new_uuid e 1 \<notin> inv_id ` set (inventory d)"

definition with_product :: "env \<Rightarrow> string \<Rightarrow> create_product_dto \<Rightarrow> db \<Rightarrow> db" where
  "with_product e organizationId dto d =
     d\<lparr>products := products d @ [new_product e organizationId dto],
       inventory := inventory d @ [new_inventory e organizationId dto],
       inventoryMovements := inventoryMovements d @
         (if initial_stock dto > 0 then [initial_movement e organizationId dto] else [])\<rparr>"

lemma initial_stock_bounds:
  "create_product_valid dto \<Longrightarrow> 0 \<le> initial_stock dto \<and> initial_stock dto \<le> PG_INT4_MAX"
  by (auto simp: create_product_valid_def initial_stock_def PG_INT4_MAX_def split: option.splits)

lemma create_product_body_ok:
  assumes "create_product_body e organizationId dto d = Inr (detail, d')" and "db_ok d"
  shows "db_ok d'"
  using assms
  by (auto simp: create_product_body_def Let_def andThen_Inr_iff split: if_splits)
    (blast intro: insert_product_ok insert_inventory_ok insert_movements_ok)+

lemma create_product_body_Inr:
  assumes "create_product_body e organizationId dto d = Inr (detail, d')"
  shows "d' = with_product e organizationId dto d"
    and "detail = detail_of (new_product e organizationId dto) (initial_stock dto) 0"
  using assms
  by (auto simp: create_product_body_def Let_def andThen_Inr_iff insert_product_def insert_inventory_iff
      insert_movements_def require_Inr_iff with_product_def new_inventory_def split: if_splits)

lemma create_product_body_fresh:
  assumes ok: "db_ok d" and valid: "create_product_valid dto"
    and org: "org_exists d (pg_uuid organizationId)" and fresh: "fresh_product_ids e d"
    and free: "\<not> sku_taken d organizationId (cp_sku dto)"
  shows "create_product_body e organizationId dto d =
    Inr (detail_of (new_product e organizationId dto) (initial_stock dto) 0, with_product e organizationId dto d)"
proof -
  let ?p = "new_product e organizationId dto" and ?r = "new_inventory e organizationId dto"
  let ?d1 = "d\<lparr>products := products d @ [?p]\<rparr>" and ?d2 = "d\<lparr>products := products d @ [?p], inventory := inventory d @ [?r]\<rparr>"
  note n = initial_stock_bounds [OF valid]
  have "insert_product ?p d = Inr ?d1"
    using valid org fresh free
    by (auto simp: insert_product_def require_Inr_iff new_product_def fresh_product_ids_def sku_taken_def
        create_product_valid_def int4_def PG_INT4_MIN_def)
  moreover have "new_uuid e 0 \<notin> inv_productId ` set (inventory d)"
    using db_okD(5) [OF ok] fresh
    by (force simp: inventory_ok_def product_of_org_def fresh_product_ids_def)
  then have "insert_inventory ?r ?d1 = Inr ?d2"
    using n org fresh
    by (auto simp: insert_inventory_iff new_inventory_def new_product_def inventory_row_ok_def
        fresh_product_ids_def product_of_org_def)
  moreover have "insert_movements [initial_movement e organizationId dto] ?d2 =
      Inr (?d2\<lparr>inventoryMovements := inventoryMovements d @ [initial_movement e organizationId dto]\<rparr>)"
    using n org
    by (auto simp: insert_movements_def require_Inr_iff initial_movement_def int4_def PG_INT4_MIN_def
        PG_INT4_MAX_def product_of_org_def new_product_def)
  ultimately show ?thesis
    by (simp add: create_product_body_def Let_def with_product_def new_inventory_def)
qed

lemma create_product_body_taken:
  assumes valid: "create_product_valid dto" and taken: "sku_taken d organizationId (cp_sku dto)"
  obtains c where "create_product_body e organizationId dto d = Inl (unique_violation c)"
proof -
  let ?p = "new_product e organizationId dto"
  have "(prod_organizationId ?p, prod_skuNormalized ?p) \<in>
      (\<lambda>p. (prod_organizationId p, prod_skuNormalized p)) ` set (products d)"
    using taken by (force simp: sku_taken_def new_product_def)
  then have "\<exists>c. insert_product ?p d = Inl (unique_violation c)"
    using valid
    by (auto simp: insert_product_def require.simps new_product_def create_product_valid_def int4_def
        PG_INT4_MIN_def)
  then show ?thesis using that by (auto simp: create_product_body_def Let_def)
qed

lemma createProduct_cases:
  "createProduct e organizationId dto d =
     (case create_product_body e organizationId dto d of
        Inl err \<Rightarrow> (Inl (if pgErrorCode err = Some PG_UNIQUE_VIOLATION then sku_conflict else err), d)
      | Inr (detail, d') \<Rightarrow> (Inr detail, d'))"
  by (simp add: createProduct_def transaction_def split: sum.splits)

end
