(* ===== verification/Stock.thy ===== *)
theory Stock
  imports Constraints
begin

text \<open>
  The shared core of the stock operations: the loop that updates one locked inventory row per item,
  and its closed form.  The reservation, release and fulfillment loops of
  \<open>reservations/reservations.service.ts\<close> are instances that differ in their step only.
\<close>

section \<open>The update loop\<close>

text \<open>
  A step names the row to update and the assignment to its columns, or throws.
\<close>

fun update_each ::
  "('i \<Rightarrow> exn + (uuid \<times> (inventory_row \<Rightarrow> inventory_row))) \<Rightarrow> 'i list \<Rightarrow> db \<Rightarrow> exn + db" where
  "update_each step [] d = Inr d"
| "update_each step (i # is) d =
     andThen (step i) (\<lambda>(rid, f).
     andThen (update_inventory (\<lambda>r. inv_id r = rid) f d) (update_each step is))"

definition shift :: "int \<Rightarrow> int \<Rightarrow> timestamptz \<Rightarrow> inventory_row \<Rightarrow> inventory_row" where
  "shift dh dr t r =
     r\<lparr>inv_onHand := inv_onHand r + dh, inv_reserved := inv_reserved r + dr, inv_updatedAt := t\<rparr>"

lemma shift_simps [simp]:
  "inv_id (shift dh dr t r) = inv_id r" "inv_productId (shift dh dr t r) = inv_productId r"
  "inv_organizationId (shift dh dr t r) = inv_organizationId r"
  "inv_onHand (shift dh dr t r) = inv_onHand r + dh" "inv_reserved (shift dh dr t r) = inv_reserved r + dr"
  by (simp_all add: shift_def)

text \<open>
  What the items of one product move: \<open>dh\<close> and \<open>dr\<close> are the signs with which a unit enters
  \<open>on_hand\<close> and \<open>reserved\<close>.
\<close>

definition units :: "('i \<Rightarrow> uuid) \<Rightarrow> ('i \<Rightarrow> int) \<Rightarrow> 'i list \<Rightarrow> uuid \<Rightarrow> int" where
  "units key q is p = sum_where (\<lambda>i. key i = p) q is"

definition apply_items ::
  "int \<Rightarrow> int \<Rightarrow> ('i \<Rightarrow> uuid) \<Rightarrow> ('i \<Rightarrow> int) \<Rightarrow> timestamptz \<Rightarrow> 'i list \<Rightarrow> inventory_row \<Rightarrow> inventory_row" where
  "apply_items dh dr key q t is r =
     (if inv_productId r \<in> key ` set is
      then shift (dh * units key q is (inv_productId r)) (dr * units key q is (inv_productId r)) t r
      else r)"

lemma units_Nil [simp]: "units key q [] p = 0"
  by (simp add: units_def)

lemma units_Cons [simp]: "units key q (i # is) p = (if key i = p then q i else 0) + units key q is p"
  by (simp add: units_def)

lemma units_absent: "p \<notin> key ` set is \<Longrightarrow> units key q is p = 0"
  unfolding units_def by (rule sum_where_False) auto

lemma units_unique: "distinct (map key is) \<Longrightarrow> i \<in> set is \<Longrightarrow> units key q is (key i) = q i"
  unfolding units_def by (rule sum_where_unique)

lemma apply_items_keys [simp]:
  "inv_id (apply_items dh dr key q t is r) = inv_id r"
  "inv_productId (apply_items dh dr key q t is r) = inv_productId r"
  "inv_organizationId (apply_items dh dr key q t is r) = inv_organizationId r"
  by (simp_all add: apply_items_def)

lemma apply_items_stock:
  "inv_onHand (apply_items dh dr key q t is r) = inv_onHand r + dh * units key q is (inv_productId r)"
  "inv_reserved (apply_items dh dr key q t is r) = inv_reserved r + dr * units key q is (inv_productId r)"
  by (simp_all add: apply_items_def units_absent)

lemma apply_items_Nil [simp]: "apply_items dh dr key q t [] r = r"
  by (simp add: apply_items_def)

lemma apply_items_Cons:
  assumes "key i \<notin> key ` set is"
  shows "apply_items dh dr key q t (i # is) r =
    (if inv_productId r = key i then shift (dh * q i) (dr * q i) t r
     else apply_items dh dr key q t is r)"
  using assms units_absent [OF assms] by (auto simp: apply_items_def)

text \<open>
  The closed form: with one item per product, every item's row at hand and every new row within the
  table's checks, the loop is one simultaneous update.
\<close>

lemma update_each_closed:
  assumes "distinct (map inv_id (inventory d))" and "distinct (map inv_productId (inventory d))"
    and "distinct (map key is)"
    and "\<And>i. i \<in> set is \<Longrightarrow> \<exists>row \<in> set (inventory d). inv_productId row = key i \<and>
      (\<exists>f. step i = Inr (inv_id row, f) \<and> f row = shift (dh * q i) (dr * q i) t row) \<and>
      inventory_row_ok (shift (dh * q i) (dr * q i) t row)"
  shows "update_each step is d = Inr (d\<lparr>inventory := map (apply_items dh dr key q t is) (inventory d)\<rparr>)"
  using assms
proof (induction "is" arbitrary: d)
  case Nil
  then show ?case by (simp add: map_idI)
next
  case (Cons i "is")
  obtain row f where row: "row \<in> set (inventory d)" "inv_productId row = key i"
    and f: "step i = Inr (inv_id row, f)" "f row = shift (dh * q i) (dr * q i) t row"
    and ok: "inventory_row_ok (shift (dh * q i) (dr * q i) t row)"
    using Cons.prems(4) [of i] by auto
  have new: "key i \<notin> key ` set is" using Cons.prems(3) by simp
  have only: "r = row" if "r \<in> set (inventory d)" "inv_id r = inv_id row" for r
    using distinct_map_inj [OF Cons.prems(1)] row that by blast
  have only_p: "r = row" if "r \<in> set (inventory d)" "inv_productId r = key i" for r
    using distinct_map_inj [OF Cons.prems(2)] row that by metis
  let ?inv = "update_where (\<lambda>r. inv_id r = inv_id row) f (inventory d)"
  let ?d1 = "d\<lparr>inventory := ?inv\<rparr>"
  have inv: "?inv = map (\<lambda>r. if inv_productId r = key i then shift (dh * q i) (dr * q i) t r else r) (inventory d)"
    unfolding update_where_def
  proof (rule map_cong [OF refl])
    fix r assume r: "r \<in> set (inventory d)"
    show "(if inv_id r = inv_id row then f r else r) =
        (if inv_productId r = key i then shift (dh * q i) (dr * q i) t r else r)"
    proof (cases "r = row")
      case True
      with f(2) row show ?thesis by simp
    next
      case False
      with only [OF r] only_p [OF r] show ?thesis by auto
    qed
  qed
  have up: "update_inventory (\<lambda>r. inv_id r = inv_id row) f d = Inr ?d1"
    unfolding update_inventory_Inr_iff using only f(2) ok by metis
  have "update_each step is ?d1 = Inr (?d1\<lparr>inventory := map (apply_items dh dr key q t is) (inventory ?d1)\<rparr>)"
  proof (rule Cons.IH)
    show "distinct (map inv_id (inventory ?d1))" "distinct (map inv_productId (inventory ?d1))"
      using Cons.prems(1,2) by (simp_all add: inv comp_def if_distrib cong: if_cong)
    show "distinct (map key is)" using Cons.prems(3) by simp
    fix j assume j: "j \<in> set is"
    then have neq: "key j \<noteq> key i" using new by (metis image_eqI)
    obtain row' where row': "row' \<in> set (inventory d)" "inv_productId row' = key j"
      and more: "(\<exists>f. step j = Inr (inv_id row', f) \<and> f row' = shift (dh * q j) (dr * q j) t row') \<and>
        inventory_row_ok (shift (dh * q j) (dr * q j) t row')"
      using Cons.prems(4) [of j] j by auto
    have "row' \<in> set ?inv"
      using row' neq unfolding inv set_map by (intro image_eqI [of _ _ row']) simp_all
    with row'(2) more show "\<exists>row \<in> set (inventory ?d1). inv_productId row = key j \<and>
        (\<exists>f. step j = Inr (inv_id row, f) \<and> f row = shift (dh * q j) (dr * q j) t row) \<and>
        inventory_row_ok (shift (dh * q j) (dr * q j) t row)"
      by (intro bexI [of _ row']) simp_all
  qed
  moreover have "map (apply_items dh dr key q t is) ?inv = map (apply_items dh dr key q t (i # is)) (inventory d)"
    unfolding inv using new
    by (auto simp: apply_items_def units_absent [OF new])
  ultimately show ?case using f(1) up by simp
qed

text \<open>If the loop returns, no step threw.\<close>

lemma update_each_Inr_steps:
  "update_each step is d = Inr d' \<Longrightarrow> i \<in> set is \<Longrightarrow> \<exists>rid f. step i = Inr (rid, f)"
  by (induction "is" arbitrary: d) (auto simp: tx_simps)

text \<open>The loop touches the inventory only, whatever it does.\<close>

lemma update_each_frame:
  "update_each step is d = Inr d' \<Longrightarrow> \<exists>inv. d' = d\<lparr>inventory := inv\<rparr>"
proof (induction "is" arbitrary: d)
  case (Cons i "is")
  then obtain rid f d1 where "update_inventory (\<lambda>r. inv_id r = rid) f d = Inr d1"
    and "update_each step is d1 = Inr d'" by (auto simp: tx_simps)
  with Cons.IH show ?case by (fastforce simp: tx_simps)
next
  case Nil
  then show ?case by (intro exI [of _ "inventory d'"]) simp
qed

lemma update_each_ok:
  assumes "db_ok d" and "update_each step is d = Inr d'"
    and keys: "\<And>i rid f r. step i = Inr (rid, f) \<Longrightarrow> inv_id (f r) = inv_id r \<and>
      inv_productId (f r) = inv_productId r \<and> inv_organizationId (f r) = inv_organizationId r"
  shows "db_ok d'"
  using assms(1,2)
proof (induction "is" arbitrary: d)
  case (Cons i "is")
  then obtain rid f d1 where s: "step i = Inr (rid, f)"
    and u: "update_inventory (\<lambda>r. inv_id r = rid) f d = Inr d1"
    and rest: "update_each step is d1 = Inr d'" by (auto simp: tx_simps)
  have "db_ok d1" by (rule update_inventory_ok [OF Cons.prems(1) u]) (use keys [OF s] in auto)
  then show ?case using rest by (rule Cons.IH)
qed simp

lemma update_each_never_claims:
  assumes "\<And>i. i \<in> set is \<Longrightarrow> step i \<noteq> Inl IdempotencyKeyClaimedError"
  shows "update_each step is d \<noteq> Inl IdempotencyKeyClaimedError"
  using assms
proof (induction "is" arbitrary: d)
  case (Cons i "is")
  have "update_inventory P f d1 \<noteq> Inl IdempotencyKeyClaimedError" for P f d1
    by (auto simp: update_inventory_def inventory_checks_def dest!: require_Inl)
  with Cons show ?case by (auto simp: tx_simps)
qed simp

end
