(* ===== verification/Idempotency.thy ===== *)
theory Idempotency
  imports Constraints
begin

text \<open>
  The idempotency mechanism (\<open>idempotency/idempotency.util.ts\<close>): claiming a key by inserting an
  \<open>in_progress\<close> row, completing it with the outcome, and resolving the conflict of a second
  request with the same key.  \<open>idempotent\<close> is the shape every guarded service method has: claim,
  work and complete in one transaction, then unwrap, or resolve on a fresh read.

  The locale \<open>guarded_work\<close> states what the work between claim and completion promises; its lemmas
  are the exactly-once behaviour, proved once for all guarded operations.
\<close>

definition IDEMPOTENCY_UNIQUE_CONSTRAINT :: string where
  "IDEMPOTENCY_UNIQUE_CONSTRAINT = ''idempotency_keys_org_operation_key_key''"

record idempotency_request =
  req_organizationId :: string
  req_operation :: string
  req_idempotencyKey :: string
  req_requestFingerprint :: string

definition request_key :: "idempotency_request \<Rightarrow> uuid \<times> string \<times> string" where
  "request_key rq = (pg_uuid (req_organizationId rq), req_operation rq, req_idempotencyKey rq)"

definition idempotency_ttl :: timestamptz where
  "idempotency_ttl = 24 * 60 * 60 * 1000000"

definition claim_row :: "env \<Rightarrow> idempotency_request \<Rightarrow> idempotency_key" where
  "claim_row e rq =
     \<lparr>idem_organizationId = pg_uuid (req_organizationId rq), idem_operation = req_operation rq,
      idem_idempotencyKey = req_idempotencyKey rq,
      idem_requestFingerprint = req_requestFingerprint rq, idem_state = InProgress,
      idem_responseStatus = None, idem_responseBody = NullBody, idem_createdAt = env_now e,
      idem_updatedAt = env_now e, idem_expiresAt = env_now e + idempotency_ttl\<rparr>"

definition claimIdempotencyKey :: "env \<Rightarrow> idempotency_request \<Rightarrow> db \<Rightarrow> exn + db" where
  "claimIdempotencyKey e rq d =
     (case insert_idempotency_key (claim_row e rq) d of
        Inr d' \<Rightarrow> Inr d'
      | Inl err \<Rightarrow>
          if pgErrorCode err = Some PG_UNIQUE_VIOLATION \<and>
             pgErrorConstraint err = Some IDEMPOTENCY_UNIQUE_CONSTRAINT
          then Inl IdempotencyKeyClaimedError
          else Inl err)"

definition completion :: "env \<Rightarrow> outcome \<Rightarrow> idempotency_key \<Rightarrow> idempotency_key" where
  "completion e out k =
     k\<lparr>idem_state := Completed, idem_responseStatus := Some (status out),
       idem_responseBody := body out, idem_updatedAt := app_time e\<rparr>"

definition completeIdempotencyKey ::
  "env \<Rightarrow> idempotency_request \<Rightarrow> outcome \<Rightarrow> db \<Rightarrow> exn + db" where
  "completeIdempotencyKey e rq out d =
     update_idempotency_keys (\<lambda>k. idem_key_of k = request_key rq) (completion e out) d"

definition resolveIdempotencyConflict :: "db \<Rightarrow> idempotency_request \<Rightarrow> outcome" where
  "resolveIdempotencyConflict d rq =
     (case find (\<lambda>k. idem_key_of k = request_key rq) (idempotencyKeys d) of
        None \<Rightarrow> reject 409 (Message
          ''This idempotency key was briefly claimed by another request that did not complete. Retry the request.'')
      | Some existing \<Rightarrow>
          if idem_requestFingerprint existing \<noteq> req_requestFingerprint rq then
            reject 409 (Message
              ''This idempotency key was already used for a request with a different payload.'')
          else if idem_state existing = Completed then
            (let s = (case idem_responseStatus existing of None \<Rightarrow> 500 | Some n \<Rightarrow> n)
             in if s < 400 then \<lparr>ok = True, status = s, body = idem_responseBody existing\<rparr>
                else \<lparr>ok = False, status = s, body = idem_responseBody existing\<rparr>)
          else reject 409 (Message
            ''A request with this idempotency key is still in progress. Retry shortly.''))"

text \<open>
  \<open>later\<close> is the committed database that the fresh read of the conflict branch sees.
\<close>

definition guarded_body ::
  "env \<Rightarrow> idempotency_request \<Rightarrow> (db \<Rightarrow> exn + (outcome \<times> db)) \<Rightarrow> db \<Rightarrow> exn + (outcome \<times> db)" where
  "guarded_body e rq work d =
     andThen (claimIdempotencyKey e rq d) (\<lambda>d1.
     andThen (work d1) (\<lambda>(result, d2).
     andThen (completeIdempotencyKey e rq result d2) (\<lambda>d3. Inr (result, d3))))"

definition idempotent ::
  "env \<Rightarrow> idempotency_request \<Rightarrow> (db \<Rightarrow> exn + (outcome \<times> db)) \<Rightarrow> db \<Rightarrow> db \<Rightarrow>
     (exn + response_body) \<times> db" where
  "idempotent e rq work d later =
     (case transaction (guarded_body e rq work) d of
        (Inr out, d') \<Rightarrow> (unwrapOutcome out, d')
      | (Inl err, d') \<Rightarrow>
          if err = IdempotencyKeyClaimedError
          then (unwrapOutcome (resolveIdempotencyConflict later rq), d')
          else (Inl err, d'))"

section \<open>Claiming\<close>

lemma idem_key_of_claim_row [simp]: "idem_key_of (claim_row e rq) = request_key rq"
  by (simp add: idem_key_of_def claim_row_def request_key_def)

lemma idem_key_of_completion [simp]: "idem_key_of (completion e out k) = idem_key_of k"
  by (simp add: idem_key_of_def completion_def)

definition key_free :: "db \<Rightarrow> idempotency_request \<Rightarrow> bool" where
  "key_free d rq \<longleftrightarrow> request_key rq \<notin> idem_key_of ` set (idempotencyKeys d)"

lemma claim_cases:
  "claimIdempotencyKey e rq d =
     (if \<not> key_free d rq then Inl IdempotencyKeyClaimedError
      else if \<not> org_exists d (pg_uuid (req_organizationId rq))
        then Inl (fk_violation ''idempotency_keys_organization_id_organizations_id_fk'')
      else Inr (d\<lparr>idempotencyKeys := idempotencyKeys d @ [claim_row e rq]\<rparr>))"
  by (simp add: claimIdempotencyKey_def insert_idempotency_key_def require.simps key_free_def
      idem_completed_ok_def claim_row_def [THEN arg_cong [where f = idem_state]]
      claim_row_def [THEN arg_cong [where f = idem_organizationId]]
      IDEMPOTENCY_UNIQUE_CONSTRAINT_def pg_error_defs pgErrorCode_def pgErrorConstraint_def)

lemma claim_Inr_iff [tx_simps]:
  "claimIdempotencyKey e rq d = Inr d' \<longleftrightarrow>
     key_free d rq \<and> org_exists d (pg_uuid (req_organizationId rq)) \<and>
     d' = d\<lparr>idempotencyKeys := idempotencyKeys d @ [claim_row e rq]\<rparr>"
  by (auto simp: claim_cases)

lemma claimed_ok:
  assumes "db_ok d" and "key_free d rq" and "org_exists d (pg_uuid (req_organizationId rq))"
  shows "db_ok (d\<lparr>idempotencyKeys := idempotencyKeys d @ [claim_row e rq]\<rparr>)"
proof -
  have "insert_idempotency_key (claim_row e rq) d = Inr (d\<lparr>idempotencyKeys := idempotencyKeys d @ [claim_row e rq]\<rparr>)"
    using assms(2,3)
    by (auto simp: insert_idempotency_key_def require_Inr_iff key_free_def idem_completed_ok_def claim_row_def
        request_key_def idem_key_of_def)
  then show ?thesis by (rule insert_idempotency_key_ok [OF assms(1)])
qed

lemma claim_claimed_iff:
  "claimIdempotencyKey e rq d = Inl IdempotencyKeyClaimedError \<longleftrightarrow> \<not> key_free d rq"
  by (simp add: claim_cases)

lemma complete_Inr [simp]:
  "completeIdempotencyKey e rq out d =
     Inr (d\<lparr>idempotencyKeys :=
       update_where (\<lambda>k. idem_key_of k = request_key rq) (completion e out) (idempotencyKeys d)\<rparr>)"
  unfolding completeIdempotencyKey_def update_idempotency_keys_iff
  by (simp add: idem_completed_ok_def completion_def)

lemma update_where_other:
  "(\<And>r. r \<in> set rs \<Longrightarrow> \<not> P r) \<Longrightarrow> update_where P f rs = rs"
  by (induction rs) (auto simp: update_where_def)

lemma find_append_last:
  "(\<And>r. r \<in> set rs \<Longrightarrow> \<not> P r) \<Longrightarrow> P x \<Longrightarrow> find P (rs @ [x]) = Some x"
  by (induction rs) auto

section \<open>The contract of guarded work\<close>

locale guarded_work =
  fixes work :: "db \<Rightarrow> exn + (outcome \<times> db)"
  assumes keeps_keys: "work d = Inr (out, d') \<Longrightarrow> idempotencyKeys d' = idempotencyKeys d"
    and wf_outcome: "work d = Inr (out, d') \<Longrightarrow> outcome_wf out"
    and never_claims: "work d \<noteq> Inl IdempotencyKeyClaimedError"
    and keeps_constraints: "db_ok d \<Longrightarrow> work d = Inr (out, d') \<Longrightarrow> db_ok d'"
begin

lemma guarded_Inr:
  assumes "guarded_body e rq work d = Inr (out, d')"
  obtains d2 where "key_free d rq" and "org_exists d (pg_uuid (req_organizationId rq))"
    and "work (d\<lparr>idempotencyKeys := idempotencyKeys d @ [claim_row e rq]\<rparr>) = Inr (out, d2)"
    and "d' = d2\<lparr>idempotencyKeys := idempotencyKeys d @ [completion e out (claim_row e rq)]\<rparr>"
    and "outcome_wf out"
proof -
  let ?d1 = "d\<lparr>idempotencyKeys := idempotencyKeys d @ [claim_row e rq]\<rparr>"
  from assms obtain d2 where free: "key_free d rq"
    and org: "org_exists d (pg_uuid (req_organizationId rq))"
    and w: "work ?d1 = Inr (out, d2)"
    and d': "d' = d2\<lparr>idempotencyKeys := update_where (\<lambda>k. idem_key_of k = request_key rq)
        (completion e out) (idempotencyKeys d2)\<rparr>"
    by (auto simp: guarded_body_def tx_simps)
  have "update_where (\<lambda>k. idem_key_of k = request_key rq) (completion e out) (idempotencyKeys d2) =
      idempotencyKeys d @ [completion e out (claim_row e rq)]"
    using free keeps_keys [OF w]
    by (auto simp: update_where_def key_free_def image_iff intro!: map_idI)
  with d' show ?thesis using that free org w wf_outcome [OF w] by simp
qed

lemma guarded_claimed_iff:
  "guarded_body e rq work d = Inl IdempotencyKeyClaimedError \<longleftrightarrow> \<not> key_free d rq"
  using never_claims
  by (auto simp: guarded_body_def tx_simps claim_claimed_iff)

lemma guarded_ok:
  assumes "db_ok d" and "guarded_body e rq work d = Inr (out, d')"
  shows "db_ok d'"
proof -
  from assms(2) obtain d1 d2 where c: "claimIdempotencyKey e rq d = Inr d1"
    and w: "work d1 = Inr (out, d2)" and f: "completeIdempotencyKey e rq out d2 = Inr d'"
    by (auto simp: guarded_body_def tx_simps simp del: complete_Inr)
  have "insert_idempotency_key (claim_row e rq) d = Inr d1"
    using c by (auto simp: claimIdempotencyKey_def split: sum.splits if_splits)
  then have "db_ok d1" by (rule insert_idempotency_key_ok [OF assms(1)])
  then have "db_ok d2" using w by (rule keeps_constraints)
  then show ?thesis
    using f unfolding completeIdempotencyKey_def by (rule update_idempotency_keys_ok) simp
qed

text \<open>What a guarded call did is stored under its key, and is what a repetition resolves to.\<close>

lemma stored_outcome:
  assumes "guarded_body e rq work d = Inr (out, d')"
  shows "find (\<lambda>k. idem_key_of k = request_key rq) (idempotencyKeys d') =
    Some (completion e out (claim_row e rq))"
proof -
  obtain d2 where "key_free d rq"
    and "d' = d2\<lparr>idempotencyKeys := idempotencyKeys d @ [completion e out (claim_row e rq)]\<rparr>"
    using guarded_Inr [OF assms] by blast
  then show ?thesis
    by (auto simp: key_free_def image_iff intro!: find_append_last)
qed

lemma resolve_stored:
  assumes "outcome_wf out"
    and "find (\<lambda>k. idem_key_of k = request_key rq) (idempotencyKeys later) =
      Some (completion e out (claim_row e rq))"
  shows "resolveIdempotencyConflict later rq = out"
  using assms
  by (auto simp: resolveIdempotencyConflict_def completion_def claim_row_def outcome_wf_def Let_def)

lemma first_stored:
  assumes first: "idempotent e rq work d later = (r, d')"
    and ran: "key_free d rq" "\<not> key_free d' rq"
    and kept: "\<And>k. k \<in> set (idempotencyKeys d') \<Longrightarrow> k \<in> set (idempotencyKeys d2)"
      "distinct (map idem_key_of (idempotencyKeys d2))"
  shows "\<exists>k out. find (\<lambda>k. idem_key_of k = request_key rq) (idempotencyKeys d2) = Some k \<and>
    idem_requestFingerprint k = req_requestFingerprint rq \<and> \<not> key_free d2 rq \<and>
    r = unwrapOutcome out \<and> resolveIdempotencyConflict d2 rq = out"
proof -
  have "\<exists>out. guarded_body e rq work d = Inr (out, d') \<and> r = unwrapOutcome out"
  proof (cases "guarded_body e rq work d")
    case (Inl err)
    then have "d' = d" using first
      by (auto simp: idempotent_def transaction_def split: if_splits)
    with ran show ?thesis by simp
  next
    case (Inr p)
    with first show ?thesis by (auto simp: idempotent_def transaction_def split: prod.splits)
  qed
  then obtain out where g: "guarded_body e rq work d = Inr (out, d')" and r: "r = unwrapOutcome out"
    by blast
  let ?k = "completion e out (claim_row e rq)"
  have "?k \<in> set (idempotencyKeys d')"
    using stored_outcome [OF g] by (auto dest: find_Some_in)
  then have k: "?k \<in> set (idempotencyKeys d2)" by (rule kept(1))
  have found: "find (\<lambda>k. idem_key_of k = request_key rq) (idempotencyKeys d2) = Some ?k"
    using find_distinct [OF kept(2) k] by simp
  then have "resolveIdempotencyConflict d2 rq = out"
    using guarded_Inr [OF g] by (intro resolve_stored) auto
  moreover have "\<not> key_free d2 rq" using k by (force simp: key_free_def image_iff)
  moreover have "idem_requestFingerprint ?k = req_requestFingerprint rq"
    by (simp add: completion_def claim_row_def)
  ultimately show ?thesis using found r by blast
qed

lemma replay:
  assumes first: "idempotent e rq work d later = (r, d')"
    and ran: "key_free d rq" "\<not> key_free d' rq"
    and kept: "\<And>k. k \<in> set (idempotencyKeys d') \<Longrightarrow> k \<in> set (idempotencyKeys d2)"
      "distinct (map idem_key_of (idempotencyKeys d2))"
  shows "idempotent e2 rq work2 d2 d2 = (r, d2)"
  using first_stored [OF assms]
  by (auto simp: idempotent_def transaction_def guarded_body_def claim_cases)

text \<open>A request with a key that another payload has used is refused.\<close>

lemma reused:
  assumes first: "idempotent e rq work d later = (r, d')"
    and ran: "key_free d rq" "\<not> key_free d' rq"
    and kept: "\<And>k. k \<in> set (idempotencyKeys d') \<Longrightarrow> k \<in> set (idempotencyKeys d2)"
      "distinct (map idem_key_of (idempotencyKeys d2))"
    and other: "request_key rq2 = request_key rq" "req_requestFingerprint rq2 \<noteq> req_requestFingerprint rq"
  shows "idempotent e2 rq2 work2 d2 d2 = (Inl (HttpException (RejectBody (Message
    ''This idempotency key was already used for a request with a different payload.'')) 409), d2)"
proof -
  obtain k where k: "find (\<lambda>k. idem_key_of k = request_key rq) (idempotencyKeys d2) = Some k"
    and f: "idem_requestFingerprint k = req_requestFingerprint rq" and taken: "\<not> key_free d2 rq"
    using first_stored [OF first ran kept] by blast
  from k f other have "resolveIdempotencyConflict d2 rq2 = reject 409 (Message
      ''This idempotency key was already used for a request with a different payload.'')"
    by (simp add: resolveIdempotencyConflict_def)
  moreover have "guarded_body e2 rq2 work2 d2 = Inl IdempotencyKeyClaimedError"
    using taken other(1) by (simp add: guarded_body_def claim_cases key_free_def)
  ultimately show ?thesis by (simp add: idempotent_def transaction_def unwrapOutcome_def reject_def)
qed

end

end
