(* ===== verification/Reservations.thy ===== *)
theory Reservations
  imports Stock Idempotency Canonical_Json Js_Date
begin

text \<open>
  \<open>ReservationsService\<close> (\<open>reservations/reservations.service.ts\<close>): creating a multi-product
  reservation, releasing it and fulfilling the order.  A locked row of the SELECT ... FOR UPDATE is
  the row itself (with the unit price of the joined product for a reservation); \<open>js_map\<close> is the
  \<open>Map\<close> built from them.  One reading of the application's clock serves a whole transaction.
\<close>

text \<open>A currency of \<open>null\<close>, which the validation lets pass, is taken as an absent one.\<close>

record create_reservation_dto =
  cr_items :: "reservation_item list"
  cr_currency :: "string option"

definition item_json :: "reservation_item \<Rightarrow> json" where
  "item_json i = JObj [(''productId'', JStr (productId i)), (''quantity'', JNum (quantity i))]"

definition create_dto_json :: "create_reservation_dto \<Rightarrow> json" where
  "create_dto_json dto =
     JObj [(''items'', JArr (map item_json (cr_items dto))),
       (''currency'', case cr_currency dto of None \<Rightarrow> JUndefined | Some c \<Rightarrow> JStr c)]"

definition CREATE_OPERATION :: string where
  "CREATE_OPERATION = ''reservation.create''"

definition RELEASE_OPERATION :: string where
  "RELEASE_OPERATION = ''reservation.release''"

definition FULFILL_OPERATION :: string where
  "FULFILL_OPERATION = ''order.fulfill''"

definition bad_request :: "string \<Rightarrow> exn" where
  "bad_request m = HttpException (RejectBody (Message m)) 400"

section \<open>Reserving\<close>

type_synonym priced_row = "inventory_row \<times> int"

definition locked_rows :: "string \<Rightarrow> string list \<Rightarrow> db \<Rightarrow> priced_row list" where
  "locked_rows organizationId productIds d =
     sort_key (\<lambda>(r, _). inv_productId r)
       (concat (map (\<lambda>r. map (\<lambda>p. (r, prod_unitPriceCents p))
            (filter (\<lambda>p. inv_productId r = prod_id p) (products d)))
         (filter (\<lambda>r. inv_organizationId r = pg_uuid organizationId \<and>
            inv_productId r \<in> set (map pg_uuid productIds)) (inventory d))))"

definition locked_by_product :: "string \<Rightarrow> string list \<Rightarrow> db \<Rightarrow> string \<Rightarrow> priced_row option" where
  "locked_by_product organizationId productIds d =
     js_map (map (\<lambda>row. (inv_productId (fst row), row)) (locked_rows organizationId productIds d))"

definition available_for :: "(string \<Rightarrow> priced_row option) \<Rightarrow> string \<Rightarrow> int" where
  "available_for locked p =
     (case locked p of None \<Rightarrow> 0 | Some (r, _) \<Rightarrow> inv_onHand r - inv_reserved r)"

definition shortfalls_of :: "(string \<Rightarrow> priced_row option) \<Rightarrow> reservation_item list \<Rightarrow> shortfall list" where
  "shortfalls_of locked items =
     map (\<lambda>i. \<lparr>sf_productId = productId i, sf_requested = quantity i,
               sf_available = available_for locked (productId i)\<rparr>)
       (filter (\<lambda>i. available_for locked (productId i) < quantity i) items)"

definition reserve_step ::
  "env \<Rightarrow> (string \<Rightarrow> priced_row option) \<Rightarrow> reservation_item \<Rightarrow>
     exn + (uuid \<times> (inventory_row \<Rightarrow> inventory_row))" where
  "reserve_step e locked i =
     (case locked (productId i) of
        None \<Rightarrow> Inl (TypeError ''Cannot read properties of undefined'')
      | Some (row, _) \<Rightarrow>
          Inr (inv_id row, \<lambda>r. r\<lparr>inv_reserved := inv_reserved row + quantity i, inv_updatedAt := app_time e\<rparr>))"

definition price_of :: "(string \<Rightarrow> priced_row option) \<Rightarrow> string \<Rightarrow> int" where
  \<comment> \<open>\<open>lockedByProductId.get(...)!.unitPriceCents\<close>; reached only after the loop found every row\<close>
  "price_of locked p = (case locked p of None \<Rightarrow> 0 | Some (_, price) \<Rightarrow> price)"

definition new_order :: "env \<Rightarrow> string \<Rightarrow> create_reservation_dto \<Rightarrow> order" where
  "new_order e organizationId dto =
     \<lparr>ord_id = new_uuid e 0, ord_organizationId = pg_uuid organizationId, ord_status = Pending,
      ord_currency = (case cr_currency dto of None \<Rightarrow> ''USD'' | Some c \<Rightarrow> c),
      ord_createdAt = env_now e, ord_updatedAt = env_now e,
      ord_cancelledAt = None, ord_fulfilledAt = None\<rparr>"

definition new_order_item ::
  "env \<Rightarrow> string \<Rightarrow> (string \<Rightarrow> priced_row option) \<Rightarrow> uuid \<Rightarrow> reservation_item \<Rightarrow> order_item" where
  "new_order_item e organizationId locked oid i =
     \<lparr>oi_organizationId = pg_uuid organizationId, oi_orderId = oid, oi_productId = pg_uuid (productId i),
      oi_quantity = quantity i, oi_unitPriceCents = price_of locked (productId i),
      oi_createdAt = env_now e\<rparr>"

definition reservation_movement :: "env \<Rightarrow> string \<Rightarrow> uuid \<Rightarrow> reservation_item \<Rightarrow> inventory_movement" where
  "reservation_movement e organizationId oid i =
     \<lparr>mov_organizationId = pg_uuid organizationId, mov_productId = pg_uuid (productId i),
      mov_movementType = Reservation, mov_onHandDelta = 0, mov_reservedDelta = quantity i,
      mov_reason = ''Reservation created'', mov_reference = Some oid, mov_createdAt = env_now e\<rparr>"

definition audit_of :: "env \<Rightarrow> string \<Rightarrow> uuid \<Rightarrow> string \<Rightarrow> string \<Rightarrow> audit_metadata \<Rightarrow> audit_entry" where
  "audit_of e organizationId userId action resourceId metadata =
     \<lparr>aud_organizationId = pg_uuid organizationId, aud_actorUserId = Some (pg_uuid userId),
      aud_action = action, aud_resourceType = ''order'', aud_resourceId = resourceId,
      aud_metadata = metadata, aud_createdAt = env_now e\<rparr>"

definition reservation_result_of ::
  "(string \<Rightarrow> priced_row option) \<Rightarrow> order \<Rightarrow> reservation_item list \<Rightarrow> reservation_result" where
  "reservation_result_of locked order items =
     \<lparr>rr_orderId = ord_id order, rr_status = ord_status order, rr_currency = ord_currency order,
      rr_items = map (\<lambda>i. \<lparr>rir_productId = productId i, rir_quantity = quantity i,
                            rir_unitPriceCents = price_of locked (productId i)\<rparr>) items,
      rr_createdAt = toISOString (date_of_timestamp (ord_createdAt order))\<rparr>"

definition reserveStock ::
  "env \<Rightarrow> string \<Rightarrow> uuid \<Rightarrow> create_reservation_dto \<Rightarrow> db \<Rightarrow> exn + (outcome \<times> db)" where
  "reserveStock e organizationId userId dto d =
     (let items = cr_items dto;
          locked = locked_by_product organizationId (map productId items) d;
          shortfalls = shortfalls_of locked items;
          order = new_order e organizationId dto
      in if shortfalls \<noteq> [] then
           Inr (reject 409 (MessageShortfalls
             ''Insufficient stock for one or more requested products.'' shortfalls), d)
         else
           andThen (update_each (reserve_step e locked) items d) (\<lambda>d1.
           andThen (insert_order order d1) (\<lambda>d2.
           andThen (insert_order_items
                     (map (new_order_item e organizationId locked (ord_id order)) items) d2) (\<lambda>d3.
           andThen (insert_movements
                     (map (reservation_movement e organizationId (ord_id order)) items) d3) (\<lambda>d4.
           andThen (insert_audit (audit_of e organizationId userId ''reservation.create''
                     (ord_id order) (MetadataItems items)) d4) (\<lambda>d5.
           Inr (accept 201 (ReservationBody (reservation_result_of locked order items)), d5)))))))"

definition create_request ::
  "(string \<Rightarrow> string) \<Rightarrow> string \<Rightarrow> create_reservation_dto \<Rightarrow> string \<Rightarrow> idempotency_request" where
  "create_request sha organizationId dto key =
     \<lparr>req_organizationId = organizationId, req_operation = CREATE_OPERATION,
      req_idempotencyKey = key, req_requestFingerprint = canonicalFingerprint sha (create_dto_json dto)\<rparr>"

definition createReservation ::
  "(string \<Rightarrow> string) \<Rightarrow> env \<Rightarrow> string \<Rightarrow> uuid \<Rightarrow> create_reservation_dto \<Rightarrow> string \<Rightarrow> db \<Rightarrow> db \<Rightarrow>
     (exn + response_body) \<times> db" where
  "createReservation sha e organizationId userId dto key d later =
     (let productIds = map productId (cr_items dto);
          matching = filter (\<lambda>p. prod_organizationId p = pg_uuid organizationId \<and>
                                prod_id p \<in> set (map pg_uuid productIds)) (products d)
      in if card (set productIds) \<noteq> length productIds then
           (Inl (bad_request ''Duplicate product lines are not allowed in a single reservation request.''), d)
         else if length matching \<noteq> card (set productIds) then
           (Inl (bad_request ''One or more products do not exist in this organization.''), d)
         else
           idempotent e (create_request sha organizationId dto key)
             (reserveStock e organizationId userId dto) d later)"

section \<open>Releasing and fulfilling\<close>

definition status_string :: "order_status \<Rightarrow> string" where
  "status_string s = (case s of Pending \<Rightarrow> ''pending'' | Fulfilled \<Rightarrow> ''fulfilled'' | Cancelled \<Rightarrow> ''cancelled'')"

definition order_items_of :: "string \<Rightarrow> db \<Rightarrow> order_item list" where
  "order_items_of orderId d =
     sort_key oi_productId (filter (\<lambda>i. oi_orderId i = pg_uuid orderId) (orderItems d))"

definition locked_inventory :: "string \<Rightarrow> uuid list \<Rightarrow> db \<Rightarrow> inventory_row list" where
  "locked_inventory organizationId productIds d =
     sort_key inv_productId
       (filter (\<lambda>r. inv_organizationId r = pg_uuid organizationId \<and> inv_productId r \<in> set productIds)
         (inventory d))"

definition inventory_by_product :: "string \<Rightarrow> uuid list \<Rightarrow> db \<Rightarrow> uuid \<Rightarrow> inventory_row option" where
  "inventory_by_product organizationId productIds d =
     js_map (map (\<lambda>r. (inv_productId r, r)) (locked_inventory organizationId productIds d))"

definition pending_order :: "string \<Rightarrow> string \<Rightarrow> order \<Rightarrow> bool" where
  "pending_order organizationId orderId o' \<longleftrightarrow>
     ord_id o' = pg_uuid orderId \<and> ord_organizationId o' = pg_uuid organizationId \<and> ord_status o' = Pending"

definition status_of_order :: "string \<Rightarrow> string \<Rightarrow> db \<Rightarrow> order_status option" where
  "status_of_order organizationId orderId d =
     map_option ord_status
       (find (\<lambda>o'. ord_id o' = pg_uuid orderId \<and> ord_organizationId o' = pg_uuid organizationId) (orders d))"

definition cancel_row :: "env \<Rightarrow> order \<Rightarrow> order" where
  "cancel_row e o' =
     o'\<lparr>ord_status := Cancelled, ord_cancelledAt := Some (app_time e), ord_updatedAt := app_time e\<rparr>"

text \<open>The two exceptions of the loops; the dash of the messages is written as two hyphens.\<close>

definition release_violated :: "order_item \<Rightarrow> int \<Rightarrow> exn" where
  "release_violated i reserved = PlainError
     (''Invariant violated: cannot release '' @ int_string (oi_quantity i) @
      '' reserved unit(s) of product '' @ oi_productId i @
      '' -- locked inventory row shows only '' @ int_string reserved @ '' reserved.'')"

definition fulfill_violated :: "order_item \<Rightarrow> int \<Rightarrow> int \<Rightarrow> exn" where
  "fulfill_violated i onHand reserved = PlainError
     (''Invariant violated: cannot fulfill '' @ int_string (oi_quantity i) @
      '' unit(s) of product '' @ oi_productId i @
      '' -- locked inventory row shows on_hand='' @ int_string onHand @
      '', reserved='' @ int_string reserved @ ''.'')"

definition release_step ::
  "env \<Rightarrow> (uuid \<Rightarrow> inventory_row option) \<Rightarrow> order_item \<Rightarrow>
     exn + (uuid \<times> (inventory_row \<Rightarrow> inventory_row))" where
  "release_step e locked i =
     (case locked (oi_productId i) of
        None \<Rightarrow> Inl (release_violated i 0)
      | Some row \<Rightarrow>
          if inv_reserved row < oi_quantity i then Inl (release_violated i (inv_reserved row))
          else Inr (inv_id row,
                 \<lambda>r. r\<lparr>inv_reserved := inv_reserved row - oi_quantity i, inv_updatedAt := app_time e\<rparr>))"

definition release_movement :: "env \<Rightarrow> string \<Rightarrow> string \<Rightarrow> order_item \<Rightarrow> inventory_movement" where
  "release_movement e organizationId orderId i =
     \<lparr>mov_organizationId = pg_uuid organizationId, mov_productId = oi_productId i,
      mov_movementType = Release, mov_onHandDelta = 0, mov_reservedDelta = - oi_quantity i,
      mov_reason = ''Reservation released'', mov_reference = Some orderId, mov_createdAt = env_now e\<rparr>"

definition releaseStock ::
  "env \<Rightarrow> string \<Rightarrow> uuid \<Rightarrow> string \<Rightarrow> db \<Rightarrow> exn + (outcome \<times> db)" where
  "releaseStock e organizationId userId orderId d =
     (let (returned, d1) = update_orders (pending_order organizationId orderId) (cancel_row e) d in
      case returned of
        [] \<Rightarrow>
          (case status_of_order organizationId orderId d1 of
             None \<Rightarrow> Inr (reject 404 (Message ''Reservation not found in this organization.''), d1)
           | Some existing \<Rightarrow>
               Inr (reject 409 (Message (''Reservation cannot be released: it is already \"'' @
                 status_string existing @ ''\".'')), d1))
      | cancelled # _ \<Rightarrow>
          (let items = order_items_of orderId d1;
               locked = inventory_by_product organizationId (map oi_productId items) d1
           in andThen (update_each (release_step e locked) items d1) (\<lambda>d2.
              andThen (if items \<noteq> []
                       then insert_movements (map (release_movement e organizationId orderId) items) d2
                       else Inr d2) (\<lambda>d3.
              andThen (insert_audit (audit_of e organizationId userId ''reservation.release'' orderId NoMetadata) d3)
                (\<lambda>d4.
              Inr (accept 200 (ReleaseBody
                     \<lparr>rel_orderId = ord_id cancelled, rel_status = ord_status cancelled,
                      rel_cancelledAt = map_option (\<lambda>t. toISOString (date_of_timestamp t))
                        (ord_cancelledAt cancelled)\<rparr>), d4))))))"

definition fulfill_row :: "env \<Rightarrow> order \<Rightarrow> order" where
  "fulfill_row e o' =
     o'\<lparr>ord_status := Fulfilled, ord_fulfilledAt := Some (app_time e), ord_updatedAt := app_time e\<rparr>"

definition fulfill_step ::
  "env \<Rightarrow> (uuid \<Rightarrow> inventory_row option) \<Rightarrow> order_item \<Rightarrow>
     exn + (uuid \<times> (inventory_row \<Rightarrow> inventory_row))" where
  "fulfill_step e locked i =
     (case locked (oi_productId i) of
        None \<Rightarrow> Inl (fulfill_violated i 0 0)
      | Some row \<Rightarrow>
          if inv_reserved row < oi_quantity i \<or> inv_onHand row < oi_quantity i
          then Inl (fulfill_violated i (inv_onHand row) (inv_reserved row))
          else Inr (inv_id row,
                 \<lambda>r. r\<lparr>inv_onHand := inv_onHand row - oi_quantity i,
                       inv_reserved := inv_reserved row - oi_quantity i, inv_updatedAt := app_time e\<rparr>))"

definition fulfillment_movement :: "env \<Rightarrow> string \<Rightarrow> string \<Rightarrow> order_item \<Rightarrow> inventory_movement" where
  "fulfillment_movement e organizationId orderId i =
     \<lparr>mov_organizationId = pg_uuid organizationId, mov_productId = oi_productId i,
      mov_movementType = Fulfillment, mov_onHandDelta = - oi_quantity i,
      mov_reservedDelta = - oi_quantity i, mov_reason = ''Order fulfilled'',
      mov_reference = Some orderId, mov_createdAt = env_now e\<rparr>"

definition fulfillStock ::
  "env \<Rightarrow> string \<Rightarrow> uuid \<Rightarrow> string \<Rightarrow> db \<Rightarrow> exn + (outcome \<times> db)" where
  "fulfillStock e organizationId userId orderId d =
     (let (returned, d1) = update_orders (pending_order organizationId orderId) (fulfill_row e) d in
      case returned of
        [] \<Rightarrow>
          (case status_of_order organizationId orderId d1 of
             None \<Rightarrow> Inr (reject 404 (Message ''Order not found in this organization.''), d1)
           | Some existing \<Rightarrow>
               Inr (reject 409 (Message (''Order cannot be fulfilled: it is already \"'' @
                 status_string existing @ ''\".'')), d1))
      | fulfilled # _ \<Rightarrow>
          (let items = order_items_of orderId d1;
               locked = inventory_by_product organizationId (map oi_productId items) d1
           in andThen (update_each (fulfill_step e locked) items d1) (\<lambda>d2.
              andThen (if items \<noteq> []
                       then insert_movements (map (fulfillment_movement e organizationId orderId) items) d2
                       else Inr d2) (\<lambda>d3.
              andThen (insert_audit (audit_of e organizationId userId ''order.fulfill'' orderId NoMetadata) d3)
                (\<lambda>d4.
              Inr (accept 200 (FulfillBody
                     \<lparr>ful_orderId = ord_id fulfilled, ful_status = ord_status fulfilled,
                      ful_fulfilledAt = map_option (\<lambda>t. toISOString (date_of_timestamp t))
                        (ord_fulfilledAt fulfilled)\<rparr>), d4))))))"

definition transition_request ::
  "(string \<Rightarrow> string) \<Rightarrow> string \<Rightarrow> string \<Rightarrow> string \<Rightarrow> string \<Rightarrow> idempotency_request" where
  "transition_request sha operation organizationId orderId key =
     \<lparr>req_organizationId = organizationId, req_operation = operation, req_idempotencyKey = key,
      req_requestFingerprint = canonicalFingerprint sha (JObj [(''orderId'', JStr orderId)])\<rparr>"

definition releaseReservation ::
  "(string \<Rightarrow> string) \<Rightarrow> env \<Rightarrow> string \<Rightarrow> uuid \<Rightarrow> string \<Rightarrow> string \<Rightarrow> db \<Rightarrow> db \<Rightarrow>
     (exn + response_body) \<times> db" where
  "releaseReservation sha e organizationId userId orderId key d later =
     idempotent e (transition_request sha RELEASE_OPERATION organizationId orderId key)
       (releaseStock e organizationId userId orderId) d later"

definition fulfillOrder ::
  "(string \<Rightarrow> string) \<Rightarrow> env \<Rightarrow> string \<Rightarrow> uuid \<Rightarrow> string \<Rightarrow> string \<Rightarrow> db \<Rightarrow> db \<Rightarrow>
     (exn + response_body) \<times> db" where
  "fulfillOrder sha e organizationId userId orderId key d later =
     idempotent e (transition_request sha FULFILL_OPERATION organizationId orderId key)
       (fulfillStock e organizationId userId orderId) d later"

end
