(* ===== verification/Inventory.thy ===== *)
theory Inventory
  imports Stock Idempotency Canonical_Json
begin

text \<open>
  \<open>InventoryService\<close> (\<open>inventory/inventory.service.ts\<close>): the stock listing, and the signed
  on-hand adjustment with its rejections, guarded by the idempotency mechanism.
\<close>

section \<open>Listing\<close>

text \<open>
  The order of the listing is the database's collation of the SKU, given as a sort key.
\<close>

definition listInventory :: "(string \<Rightarrow> 'k::linorder) \<Rightarrow> db \<Rightarrow> string \<Rightarrow> inventory_line list" where
  "listInventory collation d organizationId =
     map (\<lambda>(r, p).
           \<lparr>il_productId = inv_productId r, il_sku = prod_sku p, il_name = prod_name p,
            il_onHand = inv_onHand r, il_reserved = inv_reserved r,
            il_available = inv_onHand r - inv_reserved r\<rparr>)
       (sort_key (\<lambda>(r, p). collation (prod_sku p))
         (concat (map (\<lambda>r. map (Pair r) (filter (\<lambda>p. inv_productId r = prod_id p) (products d)))
           (filter (\<lambda>r. inv_organizationId r = pg_uuid organizationId) (inventory d)))))"

section \<open>Adjustment\<close>

record adjust_inventory_dto =
  ad_productId :: string
  ad_delta :: int
  ad_reason :: string

definition adjust_inventory_valid :: "adjust_inventory_dto \<Rightarrow> bool" where
  \<comment> \<open>\<open>AdjustInventoryDto\<close>, less the shape of the id\<close>
  "adjust_inventory_valid dto \<longleftrightarrow>
     PG_INT4_MIN \<le> ad_delta dto \<and> ad_delta dto \<le> PG_INT4_MAX \<and> ad_delta dto \<noteq> 0 \<and>
     ad_reason dto \<noteq> [] \<and> length (ad_reason dto) \<le> 500"

definition adjust_dto_json :: "adjust_inventory_dto \<Rightarrow> json" where
  "adjust_dto_json dto =
     JObj [(''productId'', JStr (ad_productId dto)), (''delta'', JNum (ad_delta dto)),
       (''reason'', JStr (ad_reason dto))]"

definition ADJUST_OPERATION :: string where
  "ADJUST_OPERATION = ''inventory.adjust''"

definition adjustment_movement :: "env \<Rightarrow> string \<Rightarrow> adjust_inventory_dto \<Rightarrow> inventory_movement" where
  "adjustment_movement e organizationId dto =
     \<lparr>mov_organizationId = pg_uuid organizationId, mov_productId = pg_uuid (ad_productId dto),
      mov_movementType = OnHandAdjustment, mov_onHandDelta = ad_delta dto, mov_reservedDelta = 0,
      mov_reason = ad_reason dto, mov_reference = None, mov_createdAt = env_now e\<rparr>"

text \<open>
  The stock part: reject, or return the row after the change and the database that holds it.
\<close>

definition change_on_hand ::
  "env \<Rightarrow> string \<Rightarrow> adjust_inventory_dto \<Rightarrow> db \<Rightarrow> exn + (outcome + (inventory_row \<times> db))" where
  "change_on_hand e organizationId dto d =
     (case find (\<lambda>r. inv_productId r = pg_uuid (ad_productId dto) \<and>
                  inv_organizationId r = pg_uuid organizationId) (inventory d) of
        None \<Rightarrow>
          if ad_delta dto < 0
          then Inr (Inl (reject 409 (Message
                 ''Cannot reduce stock for a product with no existing inventory record.'')))
          else (let row = \<lparr>inv_id = new_uuid e 0, inv_organizationId = pg_uuid organizationId,
                           inv_productId = pg_uuid (ad_productId dto), inv_onHand = ad_delta dto,
                           inv_reserved = 0, inv_createdAt = env_now e, inv_updatedAt = env_now e\<rparr>
                in andThen (insert_inventory row d) (\<lambda>d1. Inr (Inr (row, d1))))
      | Some row \<Rightarrow>
          (let newOnHand = inv_onHand row + ad_delta dto in
           if newOnHand < 0 then
             Inr (Inl (reject 409 (MessageOnHand ''Adjustment would drive on-hand stock negative.''
               (inv_onHand row) (ad_delta dto))))
           else if newOnHand < inv_reserved row then
             Inr (Inl (reject 409 (MessageReserved
               ''Adjustment would reduce on-hand stock below already-reserved stock.''
               (inv_onHand row) (inv_reserved row) (ad_delta dto))))
           else if newOnHand > PG_INT4_MAX then
             Inr (Inl (reject 422 (Message
               ''Adjustment would overflow the maximum representable stock quantity.'')))
           else
             (let assign = (\<lambda>r. r\<lparr>inv_onHand := newOnHand, inv_updatedAt := app_time e\<rparr>)
              in andThen (update_inventory (\<lambda>r. inv_id r = inv_id row) assign d)
                   (\<lambda>d1. Inr (Inr (assign row, d1))))))"

definition applyAdjustment ::
  "env \<Rightarrow> string \<Rightarrow> adjust_inventory_dto \<Rightarrow> db \<Rightarrow> exn + (outcome \<times> db)" where
  "applyAdjustment e organizationId dto d =
     (case find (\<lambda>p. prod_id p = pg_uuid (ad_productId dto) \<and>
                  prod_organizationId p = pg_uuid organizationId) (products d) of
        None \<Rightarrow> Inr (reject 404 (Message ''Product not found in this organization.''), d)
      | Some product \<Rightarrow>
          andThen (change_on_hand e organizationId dto d) (\<lambda>change.
          case change of
            Inl rejection \<Rightarrow> Inr (rejection, d)
          | Inr (row, d1) \<Rightarrow>
              andThen (insert_movements [adjustment_movement e organizationId dto] d1) (\<lambda>d2.
              Inr (accept 200 (InventoryBody
                     \<lparr>il_productId = ad_productId dto, il_sku = prod_sku product,
                      il_name = prod_name product, il_onHand = inv_onHand row,
                      il_reserved = inv_reserved row,
                      il_available = inv_onHand row - inv_reserved row\<rparr>), d2))))"

definition adjust_request ::
  "(string \<Rightarrow> string) \<Rightarrow> string \<Rightarrow> adjust_inventory_dto \<Rightarrow> string \<Rightarrow> idempotency_request" where
  "adjust_request sha organizationId dto key =
     \<lparr>req_organizationId = organizationId, req_operation = ADJUST_OPERATION,
      req_idempotencyKey = key, req_requestFingerprint = canonicalFingerprint sha (adjust_dto_json dto)\<rparr>"

definition adjustStock ::
  "(string \<Rightarrow> string) \<Rightarrow> env \<Rightarrow> string \<Rightarrow> adjust_inventory_dto \<Rightarrow> string \<Rightarrow> db \<Rightarrow> db \<Rightarrow>
     (exn + response_body) \<times> db" where
  "adjustStock sha e organizationId dto key d later =
     idempotent e (adjust_request sha organizationId dto key) (applyAdjustment e organizationId dto) d later"

section \<open>What an accepted adjustment does\<close>

text \<open>The branch that finds a row, in closed form.\<close>

lemma change_on_hand_row:
  assumes ok: "db_ok d"
    and row: "find (\<lambda>r. inv_productId r = pg_uuid (ad_productId dto) \<and>
      inv_organizationId r = pg_uuid organizationId) (inventory d) = Some row"
    and bounds: "inv_reserved row \<le> inv_onHand row + ad_delta dto" "inv_onHand row + ad_delta dto \<le> PG_INT4_MAX"
  shows "change_on_hand e organizationId dto d =
    Inr (Inr (shift (ad_delta dto) 0 (app_time e) row,
      d\<lparr>inventory := map (\<lambda>r. if inv_id r = inv_id row then shift (ad_delta dto) 0 (app_time e) r else r)
        (inventory d)\<rparr>))"
proof -
  have mem: "row \<in> set (inventory d)" using row by (auto dest: find_Some_in)
  have inv: "inventory_ok d" using ok by (rule db_okD)
  have row_ok: "inventory_row_ok row" using inv mem by (auto simp: inventory_ok_def)
  have uniq: "r = row" if "r \<in> set (inventory d)" "inv_id r = inv_id row" for r
    using inv mem that distinct_map_inj unfolding inventory_ok_def by metis
  let ?assign = "\<lambda>r. r\<lparr>inv_onHand := inv_onHand row + ad_delta dto, inv_updatedAt := app_time e\<rparr>"
  have assign: "?assign row = shift (ad_delta dto) 0 (app_time e) row" by (simp add: shift_def)
  have same: "update_where (\<lambda>r. inv_id r = inv_id row) ?assign (inventory d) =
      map (\<lambda>r. if inv_id r = inv_id row then shift (ad_delta dto) 0 (app_time e) r else r) (inventory d)"
    unfolding update_where_def
  proof (rule map_cong [OF refl])
    fix r assume "r \<in> set (inventory d)"
    then show "(if inv_id r = inv_id row then ?assign r else r) =
        (if inv_id r = inv_id row then shift (ad_delta dto) 0 (app_time e) r else r)"
      using uniq [of r] assign by (cases "inv_id r = inv_id row") simp_all
  qed
  have "inventory_row_ok (?assign r)" if "r \<in> set (inventory d)" "inv_id r = inv_id row" for r
    using row_ok bounds uniq [OF that] by (simp add: inventory_row_ok_def)
  then have "update_inventory (\<lambda>r. inv_id r = inv_id row) ?assign d =
      Inr (d\<lparr>inventory := update_where (\<lambda>r. inv_id r = inv_id row) ?assign (inventory d)\<rparr>)"
    unfolding update_inventory_Inr_iff by blast
  moreover have "0 \<le> inv_reserved row" using row_ok by (simp add: inventory_row_ok_def)
  ultimately show ?thesis
    using bounds assign by (simp add: change_on_hand_def row same Let_def)
qed

section \<open>The adjustment honours the contract of guarded work\<close>

lemma insert_never_claims:
  "insert_inventory r d \<noteq> Inl IdempotencyKeyClaimedError"
  "insert_movements rs d \<noteq> Inl IdempotencyKeyClaimedError"
  "insert_order ro d \<noteq> Inl IdempotencyKeyClaimedError"
  "insert_order_items is d \<noteq> Inl IdempotencyKeyClaimedError"
  "insert_audit a d \<noteq> Inl IdempotencyKeyClaimedError"
  "update_inventory P f d \<noteq> Inl IdempotencyKeyClaimedError"
  by (auto simp: insert_defs update_inventory_def inventory_checks_def no_values_def dest!: require_Inl)

lemma change_on_hand_cases:
  assumes "change_on_hand e organizationId dto d = Inr c"
  shows "(\<exists>r. c = Inl r \<and> outcome_wf r \<and> \<not> ok r) \<or>
    (\<exists>row inv. c = Inr (row, d\<lparr>inventory := inv\<rparr>) \<and>
      ((\<exists>new. insert_inventory new d = Inr (d\<lparr>inventory := inv\<rparr>)) \<or>
       (\<exists>P n t. update_inventory P (\<lambda>r. r\<lparr>inv_onHand := n, inv_updatedAt := t\<rparr>) d =
         Inr (d\<lparr>inventory := inv\<rparr>))))"
proof (cases "find (\<lambda>r. inv_productId r = pg_uuid (ad_productId dto) \<and>
    inv_organizationId r = pg_uuid organizationId) (inventory d)")
  case None
  show ?thesis
  proof (cases "ad_delta dto < 0")
    case True
    with None assms show ?thesis by (auto simp: change_on_hand_def)
  next
    case False
    with None assms obtain new d1 where "insert_inventory new d = Inr d1" and "c = Inr (new, d1)"
      by (auto simp: change_on_hand_def Let_def andThen_Inr_iff)
    then show ?thesis by (auto simp: insert_inventory_iff)
  qed
next
  case (Some row)
  then show ?thesis
    using assms
    by (auto simp: change_on_hand_def Let_def andThen_Inr_iff update_inventory_Inr_iff split: if_splits)
      blast
qed

lemma change_on_hand_never_claims: "change_on_hand e organizationId dto d \<noteq> Inl IdempotencyKeyClaimedError"
  unfolding change_on_hand_def Let_def using insert_never_claims
  by (auto simp: tx_simps split: option.splits)

lemma change_on_hand_ok:
  assumes "db_ok d" and "change_on_hand e organizationId dto d = Inr (Inr (row, d1))"
  shows "db_ok d1"
proof -
  from change_on_hand_cases [OF assms(2)]
  consider new where "insert_inventory new d = Inr d1"
    | P n t where "update_inventory P (\<lambda>r. r\<lparr>inv_onHand := n, inv_updatedAt := t\<rparr>) d = Inr d1"
    by auto
  then show ?thesis
  proof cases
    case 1
    then show ?thesis by (rule insert_inventory_ok [OF assms(1)])
  next
    case 2
    then show ?thesis by (rule update_inventory_ok [OF assms(1)]) simp_all
  qed
qed

lemma change_on_hand_rejects: "change_on_hand e organizationId dto d = Inr (Inl r) \<Longrightarrow> outcome_wf r \<and> \<not> ok r"
  using change_on_hand_cases by fastforce

lemma applyAdjustment_Inr:
  assumes w: "applyAdjustment e organizationId dto d = Inr (out, d')"
  shows "(d' = d \<and> outcome_wf out \<and> \<not> ok out) \<or>
    (\<exists>row d1 line. change_on_hand e organizationId dto d = Inr (Inr (row, d1)) \<and>
      insert_movements [adjustment_movement e organizationId dto] d1 = Inr d' \<and>
      out = accept 200 (InventoryBody line))"
proof (cases "find (\<lambda>p. prod_id p = pg_uuid (ad_productId dto) \<and>
    prod_organizationId p = pg_uuid organizationId) (products d)")
  case None
  with w show ?thesis by (auto simp: applyAdjustment_def)
next
  case (Some product)
  with w obtain change where c: "change_on_hand e organizationId dto d = Inr change"
    and rest: "(case change of Inl rejection \<Rightarrow> Inr (rejection, d)
      | Inr (row, d1) \<Rightarrow> andThen (insert_movements [adjustment_movement e organizationId dto] d1)
          (\<lambda>d2. Inr (accept 200 (InventoryBody
             \<lparr>il_productId = ad_productId dto, il_sku = prod_sku product, il_name = prod_name product,
              il_onHand = inv_onHand row, il_reserved = inv_reserved row,
              il_available = inv_onHand row - inv_reserved row\<rparr>), d2))) = Inr (out, d')"
    by (auto simp: applyAdjustment_def andThen_Inr_iff)
  show ?thesis
  proof (cases change)
    case (Inl r)
    with rest c change_on_hand_rejects show ?thesis by auto
  next
    case (Inr p)
    with rest c show ?thesis by (cases p) (auto simp: andThen_Inr_iff)
  qed
qed

interpretation adjust_work: guarded_work "applyAdjustment e organizationId dto"
  for e organizationId dto
proof unfold_locales
  fix d out d' assume w: "applyAdjustment e organizationId dto d = Inr (out, d')"
  show "outcome_wf out" using applyAdjustment_Inr [OF w] by auto
  show "idempotencyKeys d' = idempotencyKeys d"
    using applyAdjustment_Inr [OF w]
    by (auto simp: insert_movements_def tx_simps dest!: change_on_hand_cases)
  show "db_ok d'" if "db_ok d"
    using applyAdjustment_Inr [OF w] that by (auto dest: change_on_hand_ok insert_movements_ok)
next
  fix d show "applyAdjustment e organizationId dto d \<noteq> Inl IdempotencyKeyClaimedError"
    using change_on_hand_never_claims insert_never_claims
    by (auto simp: applyAdjustment_def tx_simps split: option.splits sum.splits)
qed

end
