(* ===== verification/Reservation_Effects.thy ===== *)
theory Reservation_Effects
  imports Reservations Inventory
begin

text \<open>
  What the three stock operations of \<open>ReservationsService\<close> do to the database, in closed form: the
  loops over the locked rows become one simultaneous change of the inventory, and every branch that
  returns is either a rejection that changes nothing or that change with its order, movement and
  audit rows.
\<close>

section \<open>The locked rows of a reservation\<close>

lemma locked_rows_iff:
  "(r, price) \<in> set (locked_rows organizationId pids d) \<longleftrightarrow>
     r \<in> set (inventory d) \<and> inv_organizationId r = pg_uuid organizationId \<and>
     inv_productId r \<in> set (map pg_uuid pids) \<and>
     (\<exists>p \<in> set (products d). inv_productId r = prod_id p \<and> price = prod_unitPriceCents p)"
  by (auto simp: locked_rows_def)

lemma locked_by_product_iff:
  assumes "db_ok d"
  shows "locked_by_product organizationId pids d k = Some (r, price) \<longleftrightarrow>
    (r, price) \<in> set (locked_rows organizationId pids d) \<and> inv_productId r = k"
    (is "?L \<longleftrightarrow> ?R")
proof
  assume ?L
  then show ?R unfolding locked_by_product_def by (auto dest!: js_map_Some_in)
next
  assume R: ?R
  then have "locked_by_product organizationId pids d k \<noteq> None"
    unfolding locked_by_product_def js_map_None_iff by force
  then obtain r' price' where L: "locked_by_product organizationId pids d k = Some (r', price')"
    by auto
  then have R': "(r', price') \<in> set (locked_rows organizationId pids d)" "inv_productId r' = k"
    unfolding locked_by_product_def by (auto dest!: js_map_Some_in)
  have "r' = r"
    using db_okD(5) [OF assms] R R' distinct_map_inj
    unfolding inventory_ok_def locked_rows_iff by metis
  moreover have "price' = price"
    using db_okD(4) [OF assms] R R' distinct_map_inj
    unfolding products_ok_def locked_rows_iff by metis
  ultimately show ?L using L by simp
qed

text \<open>The keys of the \<open>Map\<close> are the ids as the database prints them.\<close>

lemma locked_by_product_canonical:
  assumes "locked_by_product organizationId pids d k = Some (r, price)"
  shows "pg_uuid k = k" and "inv_productId r = k"
  using assms by (auto simp: locked_by_product_def locked_rows_iff dest!: js_map_Some_in)

lemma shortfalls_Nil_iff:
  "shortfalls_of locked items = [] \<longleftrightarrow> (\<forall>i \<in> set items. quantity i \<le> available_for locked (productId i))"
  by (auto simp: shortfalls_of_def filter_empty_conv not_less)

section \<open>Reserving\<close>

definition reservation_valid :: "create_reservation_dto \<Rightarrow> bool" where
  \<comment> \<open>\<open>CreateReservationDto\<close>, less the shape of the ids\<close>
  "reservation_valid dto \<longleftrightarrow>
     cr_items dto \<noteq> [] \<and> (\<forall>i \<in> set (cr_items dto). 1 \<le> quantity i \<and> quantity i \<le> PG_INT4_MAX) \<and>
     (case cr_currency dto of None \<Rightarrow> True | Some c \<Rightarrow> length c = 3)"

definition after_reserve :: "env \<Rightarrow> string \<Rightarrow> uuid \<Rightarrow> create_reservation_dto \<Rightarrow> db \<Rightarrow> db" where
  "after_reserve e organizationId userId dto d =
     (let items = cr_items dto; locked = locked_by_product organizationId (map productId items) d;
          oid = new_uuid e 0
      in d\<lparr>inventory := map (apply_items 0 1 productId quantity (app_time e) items) (inventory d),
           orders := orders d @ [new_order e organizationId dto],
           orderItems := orderItems d @ map (new_order_item e organizationId locked oid) items,
           inventoryMovements := inventoryMovements d @ map (reservation_movement e organizationId oid) items,
           auditLog := auditLog d @
             [audit_of e organizationId userId ''reservation.create'' oid (MetadataItems items)]\<rparr>)"

lemma reserve_loop:
  assumes ok: "db_ok d" and "distinct (map productId items)"
    and pos: "\<forall>i \<in> set items. 0 < quantity i"
    and enough: "shortfalls_of (locked_by_product organizationId pids d) items = []"
  shows "update_each (reserve_step e (locked_by_product organizationId pids d)) items d =
    Inr (d\<lparr>inventory := map (apply_items 0 1 productId quantity (app_time e) items) (inventory d)\<rparr>)"
proof (rule update_each_closed)
  show "distinct (map inv_id (inventory d))" "distinct (map inv_productId (inventory d))"
    using db_okD(5) [OF ok] by (simp_all add: inventory_ok_def)
  fix i assume i: "i \<in> set items"
  let ?locked = "locked_by_product organizationId pids d"
  have q: "0 < quantity i" "quantity i \<le> available_for ?locked (productId i)"
    using pos enough i by (auto simp: shortfalls_Nil_iff)
  then obtain row price where l: "?locked (productId i) = Some (row, price)"
    by (cases "?locked (productId i)") (auto simp: available_for_def)
  then have row: "row \<in> set (inventory d)" "inv_productId row = productId i"
    using locked_by_product_iff [OF ok] by (auto simp: locked_rows_iff)
  then have "inventory_row_ok row" using db_okD(5) [OF ok] by (simp add: inventory_ok_def)
  then have "inventory_row_ok (shift 0 (quantity i) (app_time e) row)"
    using q l by (simp add: inventory_row_ok_def available_for_def)
  moreover have "reserve_step e ?locked i = Inr (inv_id row,
      \<lambda>r. r\<lparr>inv_reserved := inv_reserved row + quantity i, inv_updatedAt := app_time e\<rparr>)"
    using l by (simp add: reserve_step_def)
  ultimately show "\<exists>row \<in> set (inventory d). inv_productId row = productId i \<and>
      (\<exists>f. reserve_step e ?locked i = Inr (inv_id row, f) \<and>
        f row = shift (0 * quantity i) (1 * quantity i) (app_time e) row) \<and>
      inventory_row_ok (shift (0 * quantity i) (1 * quantity i) (app_time e) row)"
    using row by (intro bexI [of _ row]) (simp_all add: shift_def)
qed (use assms in simp)

lemma reserveStock_Inr:
  assumes ok: "db_ok d" and dist: "distinct (map productId (cr_items dto))"
    and pos: "\<forall>i \<in> set (cr_items dto). 0 < quantity i"
    and w: "reserveStock e organizationId userId dto d = Inr (out, d')"
  shows "(d' = d \<and> \<not> ok out \<and> outcome_wf out) \<or>
    (d' = after_reserve e organizationId userId dto d \<and>
     shortfalls_of (locked_by_product organizationId (map productId (cr_items dto)) d) (cr_items dto) = [] \<and>
     new_uuid e 0 \<notin> ord_id ` set (orders d) \<and>
     out = accept 201 (ReservationBody (reservation_result_of
       (locked_by_product organizationId (map productId (cr_items dto)) d)
       (new_order e organizationId dto) (cr_items dto))))"
proof (cases "shortfalls_of (locked_by_product organizationId (map productId (cr_items dto)) d) (cr_items dto) = []")
  case True
  note loop = reserve_loop [OF ok dist pos True]
  show ?thesis
    using w True
    by (auto simp: reserveStock_def Let_def loop andThen_Inr_iff insert_order_def insert_order_items_def
        insert_movements_def insert_audit_def require_Inr_iff after_reserve_def new_order_def)
next
  case False
  with w show ?thesis by (auto simp: reserveStock_def Let_def)
qed


lemma insert_order_Inr:
  assumes "length (ord_currency r) \<le> 3" and "ord_id r \<notin> ord_id ` set (orders d)"
    and "org_exists d (ord_organizationId r)"
  shows "insert_order r d = Inr (d\<lparr>orders := orders d @ [r]\<rparr>)"
  using assms by (simp add: insert_order_def require_Inr_iff)

lemma int4_nonneg: "0 \<le> n \<Longrightarrow> n \<le> PG_INT4_MAX \<Longrightarrow> int4 n"
  by (simp add: int4_def PG_INT4_MIN_def)

lemma insert_order_items_Inr:
  assumes "rs \<noteq> []" and "\<And>r. r \<in> set rs \<Longrightarrow> order_item_ok r \<and> org_exists d (oi_organizationId r) \<and>
      order_of_org d (oi_orderId r) (oi_organizationId r) \<and> product_of_org d (oi_productId r) (oi_organizationId r)"
  shows "insert_order_items rs d = Inr (d\<lparr>orderItems := orderItems d @ rs\<rparr>)"
  using assms
  by (auto simp: insert_order_items_def require_Inr_iff order_item_ok_def intro: int4_nonneg less_imp_le)

lemma insert_movements_Inr:
  assumes "rs \<noteq> []" and "\<And>r. r \<in> set rs \<Longrightarrow> int4 (mov_onHandDelta r) \<and> int4 (mov_reservedDelta r) \<and>
      org_exists d (mov_organizationId r) \<and> product_of_org d (mov_productId r) (mov_organizationId r)"
  shows "insert_movements rs d = Inr (d\<lparr>inventoryMovements := inventoryMovements d @ rs\<rparr>)"
  using assms by (auto simp: insert_movements_def require_Inr_iff)

lemma insert_audit_Inr:
  assumes "org_exists d (aud_organizationId r)" and "aud_actorUserId r = Some u" and "user_exists d u"
  shows "insert_audit r d = Inr (d\<lparr>auditLog := auditLog d @ [r]\<rparr>)"
  using assms by (simp add: insert_audit_def require_Inr_iff)

text \<open>The unit price of a row the reservation locked is one the table allows.\<close>

lemma locked_item:
  assumes ok: "db_ok d" and pos: "0 < quantity i"
    and enough: "quantity i \<le> available_for (locked_by_product organizationId pids d) (productId i)"
  shows "pg_uuid (productId i) = productId i" and "product_of_org d (productId i) (pg_uuid organizationId)"
    and "0 \<le> price_of (locked_by_product organizationId pids d) (productId i)"
    and "price_of (locked_by_product organizationId pids d) (productId i) \<le> PG_INT4_MAX"
proof -
  let ?locked = "locked_by_product organizationId pids d"
  obtain row price where l: "?locked (productId i) = Some (row, price)"
    using pos enough by (cases "?locked (productId i)") (auto simp: available_for_def)
  show "pg_uuid (productId i) = productId i" using locked_by_product_canonical(1) [OF l] .
  from l obtain p where row: "row \<in> set (inventory d)" "inv_productId row = productId i"
      "inv_organizationId row = pg_uuid organizationId"
    and p: "p \<in> set (products d)" "price = prod_unitPriceCents p"
    unfolding locked_by_product_iff [OF ok] locked_rows_iff by auto
  show "product_of_org d (productId i) (pg_uuid organizationId)"
    using db_okD(5) [OF ok] row by (auto simp: inventory_ok_def)
  show "0 \<le> price_of ?locked (productId i)" "price_of ?locked (productId i) \<le> PG_INT4_MAX"
    using db_okD(4) [OF ok] p l by (auto simp: products_ok_def price_of_def)
qed

lemma reserveStock_accepts:
  assumes ok: "db_ok d" and valid: "reservation_valid dto" and dist: "distinct (map productId (cr_items dto))"
    and enough: "shortfalls_of (locked_by_product organizationId (map productId (cr_items dto)) d) (cr_items dto) = []"
    and org: "org_exists d (pg_uuid organizationId)" and usr: "user_exists d (pg_uuid userId)"
    and fresh: "new_uuid e 0 \<notin> ord_id ` set (orders d)"
  shows "reserveStock e organizationId userId dto d =
    Inr (accept 201 (ReservationBody (reservation_result_of
       (locked_by_product organizationId (map productId (cr_items dto)) d)
       (new_order e organizationId dto) (cr_items dto))),
      after_reserve e organizationId userId dto d)"
proof -
  let ?items = "cr_items dto" and ?order = "new_order e organizationId dto" and ?oid = "new_uuid e 0"
  let ?locked = "locked_by_product organizationId (map productId ?items) d"
  let ?d1 = "d\<lparr>inventory := map (apply_items 0 1 productId quantity (app_time e) ?items) (inventory d)\<rparr>"
  let ?d2 = "?d1\<lparr>orders := orders d @ [?order]\<rparr>"
  let ?d3 = "?d2\<lparr>orderItems := orderItems d @ map (new_order_item e organizationId ?locked ?oid) ?items\<rparr>"
  let ?d4 = "?d3\<lparr>inventoryMovements := inventoryMovements d @
    map (reservation_movement e organizationId ?oid) ?items\<rparr>"
  have q: "0 < quantity i" "quantity i \<le> PG_INT4_MAX" "quantity i \<le> available_for ?locked (productId i)"
    if "i \<in> set ?items" for i
    using that valid enough by (auto simp: reservation_valid_def shortfalls_Nil_iff)
  note item = locked_item [OF ok q(1,3)]
  have ne: "?items \<noteq> []" using valid by (simp add: reservation_valid_def)
  have oid: "ord_id ?order = ?oid" by (simp add: new_order_def)
  have loop: "update_each (reserve_step e ?locked) ?items d = Inr ?d1"
    by (rule reserve_loop [OF ok dist _ enough]) (use q in blast)
  have o1: "insert_order ?order ?d1 = Inr ?d2"
    using org fresh valid
    by (intro trans [OF insert_order_Inr]) (auto simp: new_order_def reservation_valid_def split: option.splits)
  have o2: "insert_order_items (map (new_order_item e organizationId ?locked (ord_id ?order)) ?items) ?d2 = Inr ?d3"
    unfolding oid
  proof (intro trans [OF insert_order_items_Inr])
    fix r assume "r \<in> set (map (new_order_item e organizationId ?locked ?oid) ?items)"
    then obtain i where i: "i \<in> set ?items" and r: "r = new_order_item e organizationId ?locked ?oid i" by auto
    have "order_of_org ?d2 ?oid (pg_uuid organizationId)"
      by (simp add: order_of_org_def new_order_def)
    with q [OF i] item [OF i i] org show "order_item_ok r \<and> org_exists ?d2 (oi_organizationId r) \<and>
        order_of_org ?d2 (oi_orderId r) (oi_organizationId r) \<and>
        product_of_org ?d2 (oi_productId r) (oi_organizationId r)"
      by (simp add: r new_order_item_def order_item_ok_def)
  qed (use ne in simp_all)
  have o3: "insert_movements (map (reservation_movement e organizationId (ord_id ?order)) ?items) ?d3 = Inr ?d4"
    unfolding oid
  proof (intro trans [OF insert_movements_Inr])
    fix r assume "r \<in> set (map (reservation_movement e organizationId ?oid) ?items)"
    then obtain i where i: "i \<in> set ?items" and r: "r = reservation_movement e organizationId ?oid i" by auto
    show "int4 (mov_onHandDelta r) \<and> int4 (mov_reservedDelta r) \<and> org_exists ?d3 (mov_organizationId r) \<and>
        product_of_org ?d3 (mov_productId r) (mov_organizationId r)"
      using q [OF i] item [OF i i] org
      by (simp add: r reservation_movement_def int4_def PG_INT4_MIN_def PG_INT4_MAX_def)
  qed (use ne in simp_all)
  have o4: "insert_audit (audit_of e organizationId userId ''reservation.create'' (ord_id ?order)
      (MetadataItems ?items)) ?d4 = Inr (after_reserve e organizationId userId dto d)"
    unfolding oid
    using org usr
    by (intro trans [OF insert_audit_Inr [where u = "pg_uuid userId"]])
      (simp_all add: audit_of_def after_reserve_def Let_def)
  show ?thesis
    unfolding reserveStock_def Let_def using enough
    by (simp add: loop o1 o2 o3 o4)
qed


section \<open>Releasing and fulfilling\<close>

lemma inventory_by_product_iff:
  assumes "db_ok d"
  shows "inventory_by_product organizationId ps d p = Some r \<longleftrightarrow>
    r \<in> set (inventory d) \<and> inv_organizationId r = pg_uuid organizationId \<and> p \<in> set ps \<and> inv_productId r = p"
proof -
  have "distinct (map inv_productId (locked_inventory organizationId ps d))"
    using db_okD(5) [OF assms]
    by (simp add: locked_inventory_def inventory_ok_def distinct_map inj_on_def)
  then have "inventory_by_product organizationId ps d p = Some r \<longleftrightarrow>
      (p, r) \<in> set (map (\<lambda>r. (inv_productId r, r)) (locked_inventory organizationId ps d))"
    unfolding inventory_by_product_def by (intro js_map_distinct) (simp add: comp_def)
  then show ?thesis by (auto simp: locked_inventory_def)
qed

text \<open>Every line of the order has the units it reserved in its product's row.\<close>

definition order_covered :: "string \<Rightarrow> string \<Rightarrow> db \<Rightarrow> bool" where
  "order_covered organizationId orderId d \<longleftrightarrow>
     distinct (map oi_productId (order_items_of orderId d)) \<and>
     (\<forall>i \<in> set (order_items_of orderId d). \<exists>r \<in> set (inventory d).
        inv_productId r = oi_productId i \<and> inv_organizationId r = pg_uuid organizationId \<and>
        oi_quantity i \<le> inv_reserved r)"

lemma order_items_of_iff: "i \<in> set (order_items_of orderId d) \<longleftrightarrow> i \<in> set (orderItems d) \<and> oi_orderId i = pg_uuid orderId"
  by (auto simp: order_items_of_def)

lemma order_items_of_ok:
  assumes "db_ok d" and "i \<in> set (order_items_of orderId d)"
  shows "order_item_ok i"
  using assms db_okD(8) [OF assms(1)] by (simp add: order_items_ok_def order_items_of_iff)

lemma transition_loop:
  assumes ok: "db_ok d" and cov: "order_covered organizationId orderId d" and dh: "dh = 0 \<or> dh = -1"
    and step: "\<And>i row. i \<in> set (order_items_of orderId d) \<Longrightarrow>
      inventory_by_product organizationId (map oi_productId (order_items_of orderId d)) d (oi_productId i) = Some row \<Longrightarrow>
      oi_quantity i \<le> inv_reserved row \<Longrightarrow> oi_quantity i \<le> inv_onHand row \<Longrightarrow>
      \<exists>f. step i = Inr (inv_id row, f) \<and> f row = shift (dh * oi_quantity i) (- oi_quantity i) t row"
  shows "update_each step (order_items_of orderId d) d =
    Inr (d\<lparr>inventory := map (apply_items dh (-1) oi_productId oi_quantity t (order_items_of orderId d)) (inventory d)\<rparr>)"
proof (rule update_each_closed)
  show "distinct (map inv_id (inventory d))" "distinct (map inv_productId (inventory d))"
    using db_okD(5) [OF ok] by (simp_all add: inventory_ok_def)
  show "distinct (map oi_productId (order_items_of orderId d))" using cov by (simp add: order_covered_def)
  fix i assume i: "i \<in> set (order_items_of orderId d)"
  then obtain row where row: "row \<in> set (inventory d)" "inv_productId row = oi_productId i"
      "inv_organizationId row = pg_uuid organizationId" "oi_quantity i \<le> inv_reserved row"
    using cov by (auto simp: order_covered_def)
  have "inventory_row_ok row" using db_okD(5) [OF ok] row(1) by (simp add: inventory_ok_def)
  then have on: "oi_quantity i \<le> inv_onHand row"
    and new: "inventory_row_ok (shift (dh * oi_quantity i) (- oi_quantity i) t row)"
    using row(4) order_items_of_ok [OF ok i] dh by (auto simp: inventory_row_ok_def order_item_ok_def)
  have "inventory_by_product organizationId (map oi_productId (order_items_of orderId d)) d (oi_productId i) = Some row"
    using i row by (auto simp: inventory_by_product_iff [OF ok])
  from step [OF i this row(4) on] new row(1,2)
  show "\<exists>row \<in> set (inventory d). inv_productId row = oi_productId i \<and>
      (\<exists>f. step i = Inr (inv_id row, f) \<and> f row = shift (dh * oi_quantity i) (-1 * oi_quantity i) t row) \<and>
      inventory_row_ok (shift (dh * oi_quantity i) (-1 * oi_quantity i) t row)"
    by auto
qed

lemma release_loop:
  assumes "db_ok d" and "order_covered organizationId orderId d"
  shows "update_each (release_step e (inventory_by_product organizationId
        (map oi_productId (order_items_of orderId d)) d)) (order_items_of orderId d) d =
    Inr (d\<lparr>inventory := map (apply_items 0 (-1) oi_productId oi_quantity (app_time e)
        (order_items_of orderId d)) (inventory d)\<rparr>)"
  by (rule transition_loop [OF assms]) (auto simp: release_step_def shift_def)

lemma fulfill_loop:
  assumes "db_ok d" and "order_covered organizationId orderId d"
  shows "update_each (fulfill_step e (inventory_by_product organizationId
        (map oi_productId (order_items_of orderId d)) d)) (order_items_of orderId d) d =
    Inr (d\<lparr>inventory := map (apply_items (-1) (-1) oi_productId oi_quantity (app_time e)
        (order_items_of orderId d)) (inventory d)\<rparr>)"
  by (rule transition_loop [OF assms]) (auto simp: fulfill_step_def shift_def)

definition after_release :: "env \<Rightarrow> string \<Rightarrow> uuid \<Rightarrow> string \<Rightarrow> db \<Rightarrow> db" where
  "after_release e organizationId userId orderId d =
     (let items = order_items_of orderId d
      in d\<lparr>orders := update_where (pending_order organizationId orderId) (cancel_row e) (orders d),
           inventory := map (apply_items 0 (-1) oi_productId oi_quantity (app_time e) items) (inventory d),
           inventoryMovements := inventoryMovements d @ map (release_movement e organizationId orderId) items,
           auditLog := auditLog d @ [audit_of e organizationId userId ''reservation.release'' orderId NoMetadata]\<rparr>)"

definition after_fulfill :: "env \<Rightarrow> string \<Rightarrow> uuid \<Rightarrow> string \<Rightarrow> db \<Rightarrow> db" where
  "after_fulfill e organizationId userId orderId d =
     (let items = order_items_of orderId d
      in d\<lparr>orders := update_where (pending_order organizationId orderId) (fulfill_row e) (orders d),
           inventory := map (apply_items (-1) (-1) oi_productId oi_quantity (app_time e) items) (inventory d),
           inventoryMovements := inventoryMovements d @ map (fulfillment_movement e organizationId orderId) items,
           auditLog := auditLog d @ [audit_of e organizationId userId ''order.fulfill'' orderId NoMetadata]\<rparr>)"

text \<open>Setting the status of orders leaves what the loops read alone.\<close>

lemma orders_update_frame [simp]:
  "order_items_of orderId (d\<lparr>orders := os\<rparr>) = order_items_of orderId d"
  "locked_inventory organizationId ps (d\<lparr>orders := os\<rparr>) = locked_inventory organizationId ps d"
  "inventory_by_product organizationId ps (d\<lparr>orders := os\<rparr>) = inventory_by_product organizationId ps d"
  "order_covered organizationId orderId (d\<lparr>orders := os\<rparr>) = order_covered organizationId orderId d"
  by (simp_all add: order_items_of_def locked_inventory_def inventory_by_product_def order_covered_def)

lemma date_of_app_time [simp]: "date_of_timestamp (app_time e) = env_date e"
  by (simp add: app_time_def)

lemma cancel_row_keys [simp]:
  "ord_id (cancel_row e o') = ord_id o'" "ord_organizationId (cancel_row e o') = ord_organizationId o'"
  "ord_status (cancel_row e o') = Cancelled" "ord_cancelledAt (cancel_row e o') = Some (app_time e)"
  "ord_id (fulfill_row e o') = ord_id o'" "ord_organizationId (fulfill_row e o') = ord_organizationId o'"
  "ord_status (fulfill_row e o') = Fulfilled" "ord_fulfilledAt (fulfill_row e o') = Some (app_time e)"
  by (simp_all add: cancel_row_def fulfill_row_def)

lemma no_pending_update:
  "filter P (orders d) = [] \<Longrightarrow> d\<lparr>orders := update_where P f (orders d)\<rparr> = d"
  by (simp add: update_where_other filter_empty_conv)

lemma pending_filter:
  assumes "db_ok d" and "o' \<in> set (orders d)" and "pending_order organizationId orderId o'"
  shows "filter (pending_order organizationId orderId) (orders d) = [o']"
  using db_okD(7) [OF assms(1)] assms(2,3)
  by (intro filter_unique [where f = ord_id]) (auto simp: orders_ok_def pending_order_def)

lemma releaseStock_pending:
  fixes e :: env and userId :: uuid
  assumes ok: "db_ok d" and o': "o' \<in> set (orders d)" "pending_order organizationId orderId o'"
    and cov: "order_covered organizationId orderId d"
  defines "items \<equiv> order_items_of orderId d" and "d' \<equiv> after_release e organizationId userId orderId d"
  defines "d2 \<equiv> d\<lparr>orders := orders d', inventory := inventory d'\<rparr>"
  shows "releaseStock e organizationId userId orderId d =
    andThen (if items \<noteq> [] then insert_movements (map (release_movement e organizationId orderId) items) d2 else Inr d2)
      (\<lambda>d3. andThen (insert_audit (audit_of e organizationId userId ''reservation.release'' orderId NoMetadata) d3)
      (\<lambda>d4. Inr (accept 200 (ReleaseBody \<lparr>rel_orderId = ord_id o', rel_status = Cancelled,
          rel_cancelledAt = Some (toISOString (env_date e))\<rparr>), d4)))"
proof -
  let ?d1 = "d\<lparr>orders := update_where (pending_order organizationId orderId) (cancel_row e) (orders d)\<rparr>"
  have u: "update_orders (pending_order organizationId orderId) (cancel_row e) d = ([cancel_row e o'], ?d1)"
    by (simp add: update_orders_def pending_filter [OF ok o'])
  have "db_ok ?d1"
    using update_orders_ok [OF ok, of "cancel_row e" "pending_order organizationId orderId"]
    by (simp add: update_orders_def)
  from release_loop [OF this, of organizationId orderId e] cov show ?thesis
    by (simp add: releaseStock_def u after_release_def Let_def items_def d'_def d2_def)
qed

lemma releaseStock_settled:
  assumes "filter (pending_order organizationId orderId) (orders d) = []"
  shows "releaseStock e organizationId userId orderId d = Inr ((case status_of_order organizationId orderId d of
      None \<Rightarrow> reject 404 (Message ''Reservation not found in this organization.'')
    | Some s \<Rightarrow> reject 409 (Message (''Reservation cannot be released: it is already \"'' @ status_string s @ ''\".''))), d)"
  using assms by (simp add: releaseStock_def update_orders_def no_pending_update split: option.splits)

lemma fulfillStock_pending:
  fixes e :: env and userId :: uuid
  assumes ok: "db_ok d" and o': "o' \<in> set (orders d)" "pending_order organizationId orderId o'"
    and cov: "order_covered organizationId orderId d"
  defines "items \<equiv> order_items_of orderId d" and "d' \<equiv> after_fulfill e organizationId userId orderId d"
  defines "d2 \<equiv> d\<lparr>orders := orders d', inventory := inventory d'\<rparr>"
  shows "fulfillStock e organizationId userId orderId d =
    andThen (if items \<noteq> [] then insert_movements (map (fulfillment_movement e organizationId orderId) items) d2 else Inr d2)
      (\<lambda>d3. andThen (insert_audit (audit_of e organizationId userId ''order.fulfill'' orderId NoMetadata) d3)
      (\<lambda>d4. Inr (accept 200 (FulfillBody \<lparr>ful_orderId = ord_id o', ful_status = Fulfilled,
          ful_fulfilledAt = Some (toISOString (env_date e))\<rparr>), d4)))"
proof -
  let ?d1 = "d\<lparr>orders := update_where (pending_order organizationId orderId) (fulfill_row e) (orders d)\<rparr>"
  have u: "update_orders (pending_order organizationId orderId) (fulfill_row e) d = ([fulfill_row e o'], ?d1)"
    by (simp add: update_orders_def pending_filter [OF ok o'])
  have "db_ok ?d1"
    using update_orders_ok [OF ok, of "fulfill_row e" "pending_order organizationId orderId"]
    by (simp add: update_orders_def)
  from fulfill_loop [OF this, of organizationId orderId e] cov show ?thesis
    by (simp add: fulfillStock_def u after_fulfill_def Let_def items_def d'_def d2_def)
qed

lemma fulfillStock_settled:
  assumes "filter (pending_order organizationId orderId) (orders d) = []"
  shows "fulfillStock e organizationId userId orderId d = Inr ((case status_of_order organizationId orderId d of
      None \<Rightarrow> reject 404 (Message ''Order not found in this organization.'')
    | Some s \<Rightarrow> reject 409 (Message (''Order cannot be fulfilled: it is already \"'' @ status_string s @ ''\".''))), d)"
  using assms by (simp add: fulfillStock_def update_orders_def no_pending_update split: option.splits)

lemma releaseStock_Inr:
  assumes ok: "db_ok d"
    and cov: "\<forall>o' \<in> set (orders d). pending_order organizationId orderId o' \<longrightarrow>
      order_covered organizationId orderId d"
    and w: "releaseStock e organizationId userId orderId d = Inr (out, d')"
  shows "(d' = d \<and> \<not> ok out \<and> outcome_wf out) \<or>
    (\<exists>o' \<in> set (orders d). pending_order organizationId orderId o' \<and>
       d' = after_release e organizationId userId orderId d \<and>
       out = accept 200 (ReleaseBody \<lparr>rel_orderId = ord_id o', rel_status = Cancelled,
         rel_cancelledAt = Some (toISOString (env_date e))\<rparr>))"
proof (cases "filter (pending_order organizationId orderId) (orders d)")
  case Nil
  with w show ?thesis by (auto simp: releaseStock_settled split: option.splits)
next
  case (Cons o' rest)
  then have "o' \<in> set (filter (pending_order organizationId orderId) (orders d))" by simp
  then have o': "o' \<in> set (orders d)" "pending_order organizationId orderId o'" by auto
  show ?thesis
    using w o' unfolding releaseStock_pending [OF ok o' cov [rule_format, OF o']]
    by (auto simp: andThen_Inr_iff insert_movements_def insert_audit_def require_Inr_iff after_release_def Let_def
        split: if_splits)
qed

lemma fulfillStock_Inr:
  assumes ok: "db_ok d"
    and cov: "\<forall>o' \<in> set (orders d). pending_order organizationId orderId o' \<longrightarrow>
      order_covered organizationId orderId d"
    and w: "fulfillStock e organizationId userId orderId d = Inr (out, d')"
  shows "(d' = d \<and> \<not> ok out \<and> outcome_wf out) \<or>
    (\<exists>o' \<in> set (orders d). pending_order organizationId orderId o' \<and>
       d' = after_fulfill e organizationId userId orderId d \<and>
       out = accept 200 (FulfillBody \<lparr>ful_orderId = ord_id o', ful_status = Fulfilled,
         ful_fulfilledAt = Some (toISOString (env_date e))\<rparr>))"
proof (cases "filter (pending_order organizationId orderId) (orders d)")
  case Nil
  with w show ?thesis by (auto simp: fulfillStock_settled split: option.splits)
next
  case (Cons o' rest)
  then have "o' \<in> set (filter (pending_order organizationId orderId) (orders d))" by simp
  then have o': "o' \<in> set (orders d)" "pending_order organizationId orderId o'" by auto
  show ?thesis
    using w o' unfolding fulfillStock_pending [OF ok o' cov [rule_format, OF o']]
    by (auto simp: andThen_Inr_iff insert_movements_def insert_audit_def require_Inr_iff after_fulfill_def Let_def
        split: if_splits)
qed


section \<open>The stock operations honour the contract of guarded work\<close>

lemma insert_keeps_keys:
  "insert_order r d = Inr d' \<Longrightarrow> idempotencyKeys d' = idempotencyKeys d"
  "insert_order_items is d = Inr d' \<Longrightarrow> idempotencyKeys d' = idempotencyKeys d"
  "insert_movements ms d = Inr d' \<Longrightarrow> idempotencyKeys d' = idempotencyKeys d"
  "insert_audit a d = Inr d' \<Longrightarrow> idempotencyKeys d' = idempotencyKeys d"
  "update_each step xs d = Inr d' \<Longrightarrow> idempotencyKeys d' = idempotencyKeys d"
  by (auto simp: insert_defs require_Inr_iff dest: update_each_frame)

lemmas insert_keeps_ok = insert_order_ok insert_order_items_ok insert_movements_ok insert_audit_ok

lemma step_keys:
  "reserve_step e locked i = Inr (rid, f) \<Longrightarrow> inv_id (f r) = inv_id r \<and>
     inv_productId (f r) = inv_productId r \<and> inv_organizationId (f r) = inv_organizationId r"
  "release_step e locked' j = Inr (rid, f) \<Longrightarrow> inv_id (f r) = inv_id r \<and>
     inv_productId (f r) = inv_productId r \<and> inv_organizationId (f r) = inv_organizationId r"
  "fulfill_step e locked' j = Inr (rid, f) \<Longrightarrow> inv_id (f r) = inv_id r \<and>
     inv_productId (f r) = inv_productId r \<and> inv_organizationId (f r) = inv_organizationId r"
  by (auto simp: reserve_step_def release_step_def fulfill_step_def split: option.splits if_splits)

lemma step_never_claims:
  "reserve_step e locked i \<noteq> Inl IdempotencyKeyClaimedError"
  "release_step e locked' j \<noteq> Inl IdempotencyKeyClaimedError"
  "fulfill_step e locked' j \<noteq> Inl IdempotencyKeyClaimedError"
  by (auto simp: reserve_step_def release_step_def fulfill_step_def release_violated_def fulfill_violated_def
      split: option.splits)

lemma loops_never_claim:
  "update_each (reserve_step e locked) items d \<noteq> Inl IdempotencyKeyClaimedError"
  "update_each (release_step e locked') xs d \<noteq> Inl IdempotencyKeyClaimedError"
  "update_each (fulfill_step e locked') xs d \<noteq> Inl IdempotencyKeyClaimedError"
  by (rule update_each_never_claims, rule step_never_claims)+

lemma loop_ok:
  "db_ok d \<Longrightarrow> update_each (reserve_step e locked) items d = Inr d' \<Longrightarrow> db_ok d'"
  "db_ok d \<Longrightarrow> update_each (release_step e locked') xs d = Inr d' \<Longrightarrow> db_ok d'"
  "db_ok d \<Longrightarrow> update_each (fulfill_step e locked') xs d = Inr d' \<Longrightarrow> db_ok d'"
  by (erule (1) update_each_ok, erule step_keys)+

lemma reserveStock_parts:
  assumes "reserveStock e organizationId userId dto d = Inr (out, d')"
  obtains "d' = d" and "outcome_wf out"
  | locked d1 d2 d3 d4 ro ois ms a where "update_each (reserve_step e locked) (cr_items dto) d = Inr d1"
      and "insert_order ro d1 = Inr d2" and "insert_order_items ois d2 = Inr d3"
      and "insert_movements ms d3 = Inr d4" and "insert_audit a d4 = Inr d'" and "outcome_wf out"
proof (cases "shortfalls_of (locked_by_product organizationId (map productId (cr_items dto)) d) (cr_items dto) = []")
  case True
  let ?locked = "locked_by_product organizationId (map productId (cr_items dto)) d"
  and ?order = "new_order e organizationId dto"
  obtain d1 where 1: "update_each (reserve_step e ?locked) (cr_items dto) d = Inr d1"
    using assms True by (auto simp: reserveStock_def Let_def andThen_Inr_iff)
  obtain d2 where 2: "insert_order ?order d1 = Inr d2"
    using assms True 1 by (auto simp: reserveStock_def Let_def andThen_Inr_iff)
  obtain d3 where 3: "insert_order_items (map (new_order_item e organizationId ?locked (ord_id ?order)) (cr_items dto)) d2 = Inr d3"
    using assms True 1 2 by (auto simp: reserveStock_def Let_def andThen_Inr_iff)
  obtain d4 where 4: "insert_movements (map (reservation_movement e organizationId (ord_id ?order)) (cr_items dto)) d3 = Inr d4"
    using assms True 1 2 3 by (auto simp: reserveStock_def Let_def andThen_Inr_iff)
  have "insert_audit (audit_of e organizationId userId ''reservation.create'' (ord_id ?order)
      (MetadataItems (cr_items dto))) d4 = Inr d'" and "outcome_wf out"
    using assms True 1 2 3 4 by (auto simp: reserveStock_def Let_def andThen_Inr_iff)
  then show ?thesis using that(2) 1 2 3 4 by blast
next
  case False
  with assms show ?thesis by (intro that(1)) (auto simp: reserveStock_def Let_def)
qed

interpretation reserve_work: guarded_work "reserveStock e organizationId userId dto"
  for e organizationId userId dto
proof unfold_locales
  fix d out d' assume w: "reserveStock e organizationId userId dto d = Inr (out, d')"
  then show "idempotencyKeys d' = idempotencyKeys d"
    by (cases rule: reserveStock_parts) (simp_all add: insert_keeps_keys)
  from w show "outcome_wf out" by (cases rule: reserveStock_parts)
  from w show "db_ok d'" if "db_ok d"
  proof (cases rule: reserveStock_parts)
    case (2 locked d1 d2 d3 d4 ro ois ms a)
    from that 2(1) have "db_ok d1" by (rule loop_ok)
    then have "db_ok d2" using 2(2) by (rule insert_order_ok)
    then have "db_ok d3" using 2(3) by (rule insert_order_items_ok)
    then have "db_ok d4" using 2(4) by (rule insert_movements_ok)
    then show ?thesis using 2(5) by (rule insert_audit_ok)
  qed (use that in simp)
next
  fix d show "reserveStock e organizationId userId dto d \<noteq> Inl IdempotencyKeyClaimedError"
    using loops_never_claim(1) insert_never_claims
    by (simp add: reserveStock_def Let_def andThen_Inl_iff)
qed

text \<open>
  Releasing and fulfilling share what follows the status change: the loop, the movements and the
  audit entry.
\<close>

definition settle ::
  "(order_item \<Rightarrow> exn + (uuid \<times> (inventory_row \<Rightarrow> inventory_row))) \<Rightarrow> order_item list \<Rightarrow>
     inventory_movement list \<Rightarrow> audit_entry \<Rightarrow> response_body \<Rightarrow> db \<Rightarrow> exn + (outcome \<times> db)" where
  "settle step items ms a b d1 =
     andThen (update_each step items d1) (\<lambda>d2.
     andThen (if items \<noteq> [] then insert_movements ms d2 else Inr d2) (\<lambda>d3.
     andThen (insert_audit a d3) (\<lambda>d4. Inr (accept 200 b, d4))))"

lemma settle_facts:
  assumes "settle step items ms a b d1 = Inr (out, d')"
    and "\<And>d d'. db_ok d \<Longrightarrow> update_each step items d = Inr d' \<Longrightarrow> db_ok d'"
  shows "idempotencyKeys d' = idempotencyKeys d1" and "outcome_wf out" and "db_ok d1 \<Longrightarrow> db_ok d'"
proof -
  from assms(1) obtain d2 d3 where l: "update_each step items d1 = Inr d2"
    and m: "(if items \<noteq> [] then insert_movements ms d2 else Inr d2) = Inr d3"
    and a: "insert_audit a d3 = Inr d'" and out: "out = accept 200 b"
    by (auto simp: settle_def andThen_Inr_iff)
  show "idempotencyKeys d' = idempotencyKeys d1"
    using insert_keeps_keys(5) [OF l] insert_keeps_keys(4) [OF a] insert_keeps_keys(3) [of ms d2 d3] m
    by (simp split: if_splits)
  show "outcome_wf out" by (simp add: out)
  show "db_ok d'" if "db_ok d1"
  proof -
    have "db_ok d2" using that l by (rule assms(2))
    then have "db_ok d3" using m insert_movements_ok [of d2 ms d3] by (simp split: if_splits)
    then show ?thesis using a by (rule insert_audit_ok)
  qed
qed

lemma settle_never_claims:
  "(\<And>i. step i \<noteq> Inl IdempotencyKeyClaimedError) \<Longrightarrow> settle step items ms a b d \<noteq> Inl IdempotencyKeyClaimedError"
  using update_each_never_claims [of items step] insert_never_claims
  by (simp add: settle_def andThen_Inl_iff)

lemma releaseStock_shape:
  obtains r where "releaseStock e organizationId userId orderId d = Inr (r, d)" "outcome_wf r"
  | locked items ms a b where "releaseStock e organizationId userId orderId d =
      settle (release_step e locked) items ms a b (snd (update_orders (pending_order organizationId orderId) (cancel_row e) d))"
proof (cases "filter (pending_order organizationId orderId) (orders d)")
  case Nil
  then show ?thesis by (intro that(1), subst releaseStock_settled) (auto split: option.splits)
next
  case (Cons o' rest)
  then show ?thesis
    by (intro that(2)) (simp add: releaseStock_def update_orders_def Let_def settle_def)
qed

lemma fulfillStock_shape:
  obtains r where "fulfillStock e organizationId userId orderId d = Inr (r, d)" "outcome_wf r"
  | locked items ms a b where "fulfillStock e organizationId userId orderId d =
      settle (fulfill_step e locked) items ms a b (snd (update_orders (pending_order organizationId orderId) (fulfill_row e) d))"
proof (cases "filter (pending_order organizationId orderId) (orders d)")
  case Nil
  then show ?thesis by (intro that(1), subst fulfillStock_settled) (auto split: option.splits)
next
  case (Cons o' rest)
  then show ?thesis
    by (intro that(2)) (simp add: fulfillStock_def update_orders_def Let_def settle_def)
qed

lemma update_orders_keys [simp]: "idempotencyKeys (snd (update_orders P f d)) = idempotencyKeys d"
  by (simp add: update_orders_def)

interpretation release_work: guarded_work "releaseStock e organizationId userId orderId"
  for e organizationId userId orderId
proof unfold_locales
  fix d out d' assume w: "releaseStock e organizationId userId orderId d = Inr (out, d')"
  show "idempotencyKeys d' = idempotencyKeys d"
    using w by (cases rule: releaseStock_shape [of e organizationId userId orderId d])
      (auto dest: settle_facts(1) [OF _ loop_ok(2)])
  show "outcome_wf out"
    using w by (cases rule: releaseStock_shape [of e organizationId userId orderId d])
      (auto dest: settle_facts(2) [OF _ loop_ok(2)])
  show "db_ok d'" if "db_ok d"
  proof (cases rule: releaseStock_shape [of e organizationId userId orderId d])
    case 1
    with w that show ?thesis by simp
  next
    case 2
    with w settle_facts(3) [OF _ loop_ok(2)] update_orders_ok [OF that] show ?thesis by fastforce
  qed
next
  fix d show "releaseStock e organizationId userId orderId d \<noteq> Inl IdempotencyKeyClaimedError"
    by (cases rule: releaseStock_shape [of e organizationId userId orderId d])
      (simp_all add: settle_never_claims step_never_claims)
qed

interpretation fulfill_work: guarded_work "fulfillStock e organizationId userId orderId"
  for e organizationId userId orderId
proof unfold_locales
  fix d out d' assume w: "fulfillStock e organizationId userId orderId d = Inr (out, d')"
  show "idempotencyKeys d' = idempotencyKeys d"
    using w by (cases rule: fulfillStock_shape [of e organizationId userId orderId d])
      (auto dest: settle_facts(1) [OF _ loop_ok(3)])
  show "outcome_wf out"
    using w by (cases rule: fulfillStock_shape [of e organizationId userId orderId d])
      (auto dest: settle_facts(2) [OF _ loop_ok(3)])
  show "db_ok d'" if "db_ok d"
  proof (cases rule: fulfillStock_shape [of e organizationId userId orderId d])
    case 1
    with w that show ?thesis by simp
  next
    case 2
    with w settle_facts(3) [OF _ loop_ok(3)] update_orders_ok [OF that] show ?thesis by fastforce
  qed
next
  fix d show "fulfillStock e organizationId userId orderId d \<noteq> Inl IdempotencyKeyClaimedError"
    by (cases rule: fulfillStock_shape [of e organizationId userId orderId d])
      (simp_all add: settle_never_claims step_never_claims)
qed

end
