(* ===== verification/Books.thy ===== *)
theory Books
  imports Products Reservation_Effects
begin

text \<open>
  The books of the stock: what the inventory, the orders and the movement ledger promise of each
  other, and the proof that every stock operation keeps it.  \<open>reserved\<close> is exactly what the pending
  orders hold, both stock figures are the sums of the recorded movements, every product has its
  inventory row, and no order has two lines for one product.
\<close>

section \<open>What the books say\<close>

definition order_pending :: "db \<Rightarrow> uuid \<Rightarrow> bool" where
  "order_pending d oid \<longleftrightarrow> (\<exists>o' \<in> set (orders d). ord_id o' = oid \<and> ord_status o' = Pending)"

definition pending_units :: "db \<Rightarrow> uuid \<Rightarrow> int" where
  "pending_units d p = sum_where (\<lambda>i. oi_productId i = p \<and> order_pending d (oi_orderId i)) oi_quantity (orderItems d)"

definition ledger :: "(inventory_movement \<Rightarrow> int) \<Rightarrow> db \<Rightarrow> uuid \<Rightarrow> int" where
  "ledger f d p = sum_where (\<lambda>m. mov_productId m = p) f (inventoryMovements d)"

definition stocked :: "db \<Rightarrow> bool" where
  "stocked d \<longleftrightarrow> prod_id ` set (products d) \<subseteq> inv_productId ` set (inventory d)"

definition reserved_backed :: "db \<Rightarrow> bool" where
  "reserved_backed d \<longleftrightarrow> (\<forall>r \<in> set (inventory d). inv_reserved r = pending_units d (inv_productId r))"

definition ledger_explains :: "db \<Rightarrow> bool" where
  "ledger_explains d \<longleftrightarrow> (\<forall>r \<in> set (inventory d).
     inv_onHand r = ledger mov_onHandDelta d (inv_productId r) \<and>
     inv_reserved r = ledger mov_reservedDelta d (inv_productId r))"

definition lines_distinct :: "db \<Rightarrow> bool" where
  "lines_distinct d \<longleftrightarrow> distinct (map (\<lambda>i. (oi_orderId i, oi_productId i)) (orderItems d))"

definition books_ok :: "db \<Rightarrow> bool" where
  "books_ok d \<longleftrightarrow> db_ok d \<and> stocked d \<and> reserved_backed d \<and> ledger_explains d \<and> lines_distinct d"

lemmas book_defs = stocked_def reserved_backed_def ledger_explains_def lines_distinct_def

lemma books_okD:
  assumes "books_ok d"
  shows "db_ok d" "stocked d" "reserved_backed d" "ledger_explains d" "lines_distinct d"
  using assms by (simp_all add: books_ok_def)

lemma books_ok_empty [simp]: "books_ok empty_db"
  by (simp add: books_ok_def book_defs) (simp add: empty_db_def)

text \<open>Tables the books do not mention can change freely, as long as the constraints hold.\<close>

lemma books_ok_frame:
  assumes "books_ok d" and "db_ok d'"
    and "products d' = products d" and "inventory d' = inventory d"
    and "inventoryMovements d' = inventoryMovements d" and "orders d' = orders d" and "orderItems d' = orderItems d"
  shows "books_ok d'"
proof -
  have p: "pending_units d' = pending_units d" and l: "ledger f d' = ledger f d" for f
    using assms(3-) by (simp_all add: fun_eq_iff pending_units_def order_pending_def ledger_def)
  note old = books_okD [OF assms(1)]
  have "stocked d'" using old(2) assms(3-) by (simp add: stocked_def)
  moreover have "reserved_backed d'" using old(3) assms(4) p by (simp add: reserved_backed_def)
  moreover have "ledger_explains d'" using old(4) assms(4) l by (simp add: ledger_explains_def)
  moreover have "lines_distinct d'" using old(5) assms(7) by (simp add: lines_distinct_def)
  ultimately show ?thesis using assms(2) by (simp add: books_ok_def)
qed

section \<open>Reading the books\<close>

lemma product_unique:
  assumes "db_ok d" and "product_of_org d p g" and "product_of_org d p h"
  shows "g = h"
  using assms db_okD(4) [OF assms(1)] unfolding products_ok_def product_of_org_def
  by (auto dest: distinct_map_inj)

lemma order_unique:
  assumes "db_ok d" and "order_of_org d p g" and "order_of_org d p h"
  shows "g = h"
  using assms db_okD(7) [OF assms(1)] unfolding orders_ok_def order_of_org_def
  by (auto dest: distinct_map_inj)

lemma stocked_row:
  assumes "books_ok d" and "product_of_org d p g"
  obtains r where "r \<in> set (inventory d)" and "inv_productId r = p" and "inv_organizationId r = g"
proof -
  note db = books_okD(1) [OF assms(1)]
  obtain r where r: "r \<in> set (inventory d)" "inv_productId r = p"
    using assms by (force simp: books_ok_def stocked_def product_of_org_def)
  then have "product_of_org d p (inv_organizationId r)"
    using db_okD(5) [OF db] by (auto simp: inventory_ok_def)
  with product_unique [OF db assms(2)] r that show ?thesis by blast
qed

text \<open>A pending order is covered: its lines are distinct, and their units are in the rows.\<close>

lemma books_cover:
  assumes books: "books_ok d" and o': "o' \<in> set (orders d)" "pending_order organizationId orderId o'"
  shows "order_covered organizationId orderId d"
  unfolding order_covered_def
proof (intro conjI ballI)
  note db = books_okD(1) [OF books]
  let ?items = "order_items_of orderId d"
  have "inj_on oi_productId (set ?items)" and "distinct ?items"
    using books_okD(5) [OF books]
    by (auto simp: lines_distinct_def distinct_map inj_on_def order_items_of_def)
  then show "distinct (map oi_productId ?items)" by (simp add: distinct_map)
  fix i assume "i \<in> set ?items"
  then have i: "i \<in> set (orderItems d)" "oi_orderId i = pg_uuid orderId" by (simp_all add: order_items_of_iff)
  then have refs: "order_of_org d (pg_uuid orderId) (oi_organizationId i)"
    "product_of_org d (oi_productId i) (oi_organizationId i)"
    using db_okD(8) [OF db] by (auto simp: order_items_ok_def)
  have "order_of_org d (pg_uuid orderId) (pg_uuid organizationId)"
    using o' by (force simp: order_of_org_def pending_order_def)
  with order_unique [OF db refs(1)] have "oi_organizationId i = pg_uuid organizationId" by blast
  with refs(2) obtain r where r: "r \<in> set (inventory d)" "inv_productId r = oi_productId i"
      "inv_organizationId r = pg_uuid organizationId"
    using stocked_row [OF books] by metis
  have "order_pending d (oi_orderId i)" using o' i(2) by (auto simp: order_pending_def pending_order_def)
  then have "oi_quantity i \<le> pending_units d (oi_productId i)"
    unfolding pending_units_def using i(1) db_okD(8) [OF db]
    by (intro sum_where_member_le) (auto simp: order_items_ok_def order_item_ok_def)
  then have "oi_quantity i \<le> inv_reserved r"
    using books_okD(3) [OF books] r by (simp add: reserved_backed_def)
  with r show "\<exists>r \<in> set (inventory d). inv_productId r = oi_productId i \<and>
      inv_organizationId r = pg_uuid organizationId \<and> oi_quantity i \<le> inv_reserved r" by blast
qed


section \<open>A stock operation keeps the books\<close>

text \<open>
  The pattern of every stock operation: the rows of the items' products are shifted, one movement
  per item records the shift, and the pending units change by what \<open>reserved\<close> does.
\<close>

lemma ledger_append:
  assumes "inventoryMovements d' = inventoryMovements d @ map mv items"
    and "\<And>i. i \<in> set items \<Longrightarrow> mov_productId (mv i) = key i \<and> f (mv i) = c * q i"
  shows "ledger f d' p = ledger f d p + c * units key q items p"
proof -
  have "sum_where (\<lambda>m. mov_productId m = p) f (map mv items) = sum_where (\<lambda>i. key i = p) (\<lambda>i. c * q i) items"
    unfolding sum_where_map using assms(2) by (intro sum_where_cong) auto
  then show ?thesis by (simp add: ledger_def assms(1) units_def sum_where_mult)
qed

lemma books_shift:
  assumes books: "books_ok d" and db: "db_ok d'"
    and tables: "products d' = products d"
      "inventory d' = map (apply_items dh dr key q t items) (inventory d)"
      "inventoryMovements d' = inventoryMovements d @ map mv items"
    and mv: "\<And>i. i \<in> set items \<Longrightarrow> mov_productId (mv i) = key i \<and>
      mov_onHandDelta (mv i) = dh * q i \<and> mov_reservedDelta (mv i) = dr * q i"
    and pending: "\<And>p. pending_units d' p = pending_units d p + dr * units key q items p"
    and lines: "lines_distinct d'"
  shows "books_ok d'"
proof -
  note old = books_okD [OF books]
  have "ledger mov_onHandDelta d' p = ledger mov_onHandDelta d p + dh * units key q items p"
    and "ledger mov_reservedDelta d' p = ledger mov_reservedDelta d p + dr * units key q items p" for p
    using mv by (auto intro: ledger_append [OF tables(3)])
  then have "ledger_explains d'"
    using old(4) by (auto simp: ledger_explains_def tables apply_items_stock)
  moreover have "reserved_backed d'"
    using old(3) by (simp add: reserved_backed_def tables apply_items_stock pending)
  moreover have "stocked d'"
    using old(2) by (simp add: stocked_def tables image_image)
  ultimately show ?thesis using db lines by (simp add: books_ok_def)
qed

subsection \<open>Adjusting\<close>

definition after_adjust :: "env \<Rightarrow> string \<Rightarrow> adjust_inventory_dto \<Rightarrow> db \<Rightarrow> db" where
  "after_adjust e organizationId dto d =
     d\<lparr>inventory := map (apply_items 1 0 (\<lambda>a. pg_uuid (ad_productId a)) ad_delta (app_time e) [dto]) (inventory d),
       inventoryMovements := inventoryMovements d @ [adjustment_movement e organizationId dto]\<rparr>"

lemma applyAdjustment_effect:
  assumes db: "db_ok d" and st: "stocked d"
    and w: "applyAdjustment e organizationId dto d = Inr (out, d')"
  shows "(d' = d \<and> \<not> ok out \<and> outcome_wf out) \<or>
    (d' = after_adjust e organizationId dto d \<and> (\<exists>line. out = accept 200 (InventoryBody line)))"
  using applyAdjustment_Inr [OF w]
proof (elim disjE exE conjE)
  fix row d1 line
  assume c: "change_on_hand e organizationId dto d = Inr (Inr (row, d1))"
    and m: "insert_movements [adjustment_movement e organizationId dto] d1 = Inr d'"
    and out: "out = accept 200 (InventoryBody line)"
  let ?p = "pg_uuid (ad_productId dto)"
  have "find (\<lambda>p. prod_id p = ?p \<and> prod_organizationId p = pg_uuid organizationId) (products d) \<noteq> None"
    using w out by (auto simp: applyAdjustment_def split: option.splits)
  then obtain pr where "find (\<lambda>p. prod_id p = ?p \<and> prod_organizationId p = pg_uuid organizationId) (products d) = Some pr"
    by auto
  then have prod: "product_of_org d ?p (pg_uuid organizationId)"
    by (force simp: product_of_org_def dest: find_Some_in)
  obtain r where r: "r \<in> set (inventory d)" "inv_productId r = ?p"
    using st prod by (force simp: stocked_def product_of_org_def)
  then have "product_of_org d ?p (inv_organizationId r)"
    using db_okD(5) [OF db] by (auto simp: inventory_ok_def)
  then have "inv_organizationId r = pg_uuid organizationId" using product_unique [OF db prod] by simp
  then have "find (\<lambda>r. inv_productId r = ?p \<and> inv_organizationId r = pg_uuid organizationId) (inventory d) \<noteq> None"
    using r by (auto simp: find_None_iff)
  then obtain old where old: "find (\<lambda>r. inv_productId r = ?p \<and> inv_organizationId r = pg_uuid organizationId)
      (inventory d) = Some old" by auto
  then have mem: "old \<in> set (inventory d)" "inv_productId old = ?p" by (auto dest: find_Some_in)
  have "inv_reserved old \<le> inv_onHand old + ad_delta dto" "inv_onHand old + ad_delta dto \<le> PG_INT4_MAX"
    using c by (auto simp: change_on_hand_def old Let_def split: if_splits)
  from change_on_hand_row [OF db old this] c
  have "d1 = d\<lparr>inventory := map (\<lambda>r. if inv_id r = inv_id old then shift (ad_delta dto) 0 (app_time e) r else r)
      (inventory d)\<rparr>" by simp
  moreover have "inv_id r = inv_id old \<longleftrightarrow> ?p = inv_productId r" if "r \<in> set (inventory d)" for r
    using db_okD(5) [OF db] mem that distinct_map_inj unfolding inventory_ok_def by metis
  ultimately have "d1 = d\<lparr>inventory := map (apply_items 1 0 (\<lambda>a. pg_uuid (ad_productId a)) ad_delta (app_time e) [dto])
      (inventory d)\<rparr>"
    by (auto simp: apply_items_def intro!: map_cong [OF refl] arg_cong [where f = "\<lambda>v. d\<lparr>inventory := v\<rparr>"])
  with m have "d' = after_adjust e organizationId dto d"
    by (auto simp: insert_movements_def require_Inr_iff after_adjust_def)
  with out show ?thesis by blast
qed simp

lemma after_adjust_books:
  assumes "books_ok d" and "db_ok (after_adjust e organizationId dto d)"
  shows "books_ok (after_adjust e organizationId dto d)"
proof (rule books_shift [OF assms])
  show "inventory (after_adjust e organizationId dto d) =
      map (apply_items 1 0 (\<lambda>a. pg_uuid (ad_productId a)) ad_delta (app_time e) [dto]) (inventory d)"
    and "inventoryMovements (after_adjust e organizationId dto d) =
      inventoryMovements d @ map (adjustment_movement e organizationId) [dto]"
    by (simp_all add: after_adjust_def)
  show "lines_distinct (after_adjust e organizationId dto d)"
    using books_okD(5) [OF assms(1)] by (simp add: lines_distinct_def after_adjust_def)
qed (simp_all add: after_adjust_def adjustment_movement_def pending_units_def order_pending_def)

subsection \<open>Reserving\<close>

lemma after_reserve_books:
  assumes books: "books_ok d" and db: "db_ok (after_reserve e organizationId userId dto d)"
    and dist: "distinct (map productId (cr_items dto))"
    and canon: "\<And>i. i \<in> set (cr_items dto) \<Longrightarrow> pg_uuid (productId i) = productId i"
    and fresh: "new_uuid e 0 \<notin> ord_id ` set (orders d)"
  shows "books_ok (after_reserve e organizationId userId dto d)" (is "books_ok ?d'")
proof (rule books_shift [OF books db])
  let ?items = "cr_items dto" and ?oid = "new_uuid e 0"
  note odb = books_okD(1) [OF books]
  have old: "oi_orderId i \<noteq> ?oid" if "i \<in> set (orderItems d)" for i
    using db_okD(8) [OF odb] that fresh by (force simp: order_items_ok_def order_of_org_def)
  have pend: "order_pending ?d' x \<longleftrightarrow> order_pending d x \<or> x = ?oid" for x
    by (auto simp: order_pending_def after_reserve_def Let_def new_order_def)
  show "pending_units ?d' p = pending_units d p + 1 * units productId quantity ?items p" for p
  proof -
    have "sum_where (\<lambda>i. oi_productId i = p \<and> order_pending ?d' (oi_orderId i)) oi_quantity (orderItems d) =
        pending_units d p"
      unfolding pending_units_def using old by (intro sum_where_cong) (auto simp: pend)
    moreover have "sum_where (\<lambda>i. oi_productId i = p \<and> order_pending ?d' (oi_orderId i)) oi_quantity
        (map (new_order_item e organizationId locked ?oid) ?items) = units productId quantity ?items p" for locked
      unfolding sum_where_map units_def using canon
      by (intro sum_where_cong) (auto simp: pend new_order_item_def)
    ultimately show ?thesis
      by (simp add: pending_units_def after_reserve_def [THEN arg_cong [where f = orderItems]] Let_def)
  qed
  show "lines_distinct ?d'"
    using books_okD(5) [OF books] dist canon old
    by (auto simp: lines_distinct_def after_reserve_def Let_def new_order_item_def comp_def distinct_map
        inj_on_def)
  show "inventory ?d' = map (apply_items 0 1 productId quantity (app_time e) ?items) (inventory d)"
    and "inventoryMovements ?d' = inventoryMovements d @ map (reservation_movement e organizationId ?oid) ?items"
    by (simp_all add: after_reserve_def Let_def)
qed (use canon in \<open>simp_all add: after_reserve_def Let_def reservation_movement_def\<close>)


subsection \<open>Releasing and fulfilling\<close>

text \<open>A pending order leaves the pending units by exactly its lines.\<close>

lemma pending_units_settled:
  assumes books: "books_ok d" and o': "o' \<in> set (orders d)" "pending_order organizationId orderId o'"
    and ordrs: "orders d' = update_where (pending_order organizationId orderId) f (orders d)"
    and lines: "orderItems d' = orderItems d"
    and f: "\<And>r. ord_id (f r) = ord_id r" "\<And>r. ord_status (f r) \<noteq> Pending"
  shows "pending_units d' p = pending_units d p - units oi_productId oi_quantity (order_items_of orderId d) p"
proof -
  let ?oid = "pg_uuid orderId"
  have dist: "distinct (map ord_id (orders d))"
    using db_okD(7) [OF books_okD(1) [OF books]] by (simp add: orders_ok_def)
  have only: "pending_order organizationId orderId r" if "r \<in> set (orders d)" "ord_id r = ?oid" for r
    using distinct_map_inj [OF dist that(1) o'(1)] that(2) o'(2) by (simp add: pending_order_def)
  have pend: "order_pending d' x \<longleftrightarrow> order_pending d x \<and> x \<noteq> ?oid" for x
    using f only
    by (auto simp: order_pending_def ordrs set_update_where pending_order_def)
  have now: "order_pending d ?oid" using o' by (auto simp: order_pending_def pending_order_def)
  let ?P = "\<lambda>i. oi_productId i = p \<and> order_pending d (oi_orderId i)"
  have "pending_units d p = sum_where (\<lambda>i. ?P i \<and> oi_orderId i = ?oid) oi_quantity (orderItems d) +
      sum_where (\<lambda>i. ?P i \<and> \<not> oi_orderId i = ?oid) oi_quantity (orderItems d)"
    unfolding pending_units_def by (rule sum_where_split)
  moreover have "sum_where (\<lambda>i. ?P i \<and> \<not> oi_orderId i = ?oid) oi_quantity (orderItems d) = pending_units d' p"
    unfolding pending_units_def lines by (intro sum_where_cong) (auto simp: pend)
  moreover have "units oi_productId oi_quantity (order_items_of orderId d) p =
      sum_where (\<lambda>i. ?P i \<and> oi_orderId i = ?oid) oi_quantity (orderItems d)"
    using now
    by (auto simp: units_def order_items_of_def sum_where_filter intro!: sum_where_cong)
  ultimately show ?thesis by simp
qed

lemma after_release_books:
  assumes books: "books_ok d" and db: "db_ok (after_release e organizationId userId orderId d)"
    and o': "o' \<in> set (orders d)" "pending_order organizationId orderId o'"
  shows "books_ok (after_release e organizationId userId orderId d)" (is "books_ok ?d'")
proof (rule books_shift [OF books db])
  show "pending_units ?d' p = pending_units d p + -1 * units oi_productId oi_quantity (order_items_of orderId d) p" for p
    using pending_units_settled [OF books o', of ?d' "cancel_row e"]
    by (simp add: after_release_def Let_def)
  show "lines_distinct ?d'"
    using books_okD(5) [OF books] by (simp add: lines_distinct_def after_release_def Let_def)
  show "inventory ?d' = map (apply_items 0 (-1) oi_productId oi_quantity (app_time e) (order_items_of orderId d)) (inventory d)"
    and "inventoryMovements ?d' = inventoryMovements d @ map (release_movement e organizationId orderId) (order_items_of orderId d)"
    by (simp_all add: after_release_def Let_def)
qed (simp_all add: after_release_def Let_def release_movement_def)

lemma after_fulfill_books:
  assumes books: "books_ok d" and db: "db_ok (after_fulfill e organizationId userId orderId d)"
    and o': "o' \<in> set (orders d)" "pending_order organizationId orderId o'"
  shows "books_ok (after_fulfill e organizationId userId orderId d)" (is "books_ok ?d'")
proof (rule books_shift [OF books db])
  show "pending_units ?d' p = pending_units d p + -1 * units oi_productId oi_quantity (order_items_of orderId d) p" for p
    using pending_units_settled [OF books o', of ?d' "fulfill_row e"]
    by (simp add: after_fulfill_def Let_def)
  show "lines_distinct ?d'"
    using books_okD(5) [OF books] by (simp add: lines_distinct_def after_fulfill_def Let_def)
  show "inventory ?d' = map (apply_items (-1) (-1) oi_productId oi_quantity (app_time e) (order_items_of orderId d)) (inventory d)"
    and "inventoryMovements ?d' = inventoryMovements d @ map (fulfillment_movement e organizationId orderId) (order_items_of orderId d)"
    by (simp_all add: after_fulfill_def Let_def)
qed (simp_all add: after_fulfill_def Let_def fulfillment_movement_def)

end
