(* ===== verification/History.thy ===== *)
theory History
  imports Books "HOL-Library.Sublist"
begin

text \<open>
  What no operation takes back: the ledger, the order lines, the audit log and the catalog only
  grow, an order changes only from pending to a final state, and its timestamps say which one.
  The locale \<open>stock_operation\<close> extends the contract of guarded work with it; its lemmas lift it
  through the idempotency mechanism, once for the four guarded operations.
\<close>

section \<open>Orders\<close>

definition order_consistent :: "order \<Rightarrow> bool" where
  "order_consistent o' \<longleftrightarrow>
     (ord_cancelledAt o' \<noteq> None \<longleftrightarrow> ord_status o' = Cancelled) \<and>
     (ord_fulfilledAt o' \<noteq> None \<longleftrightarrow> ord_status o' = Fulfilled)"

definition orders_consistent :: "db \<Rightarrow> bool" where
  "orders_consistent d \<longleftrightarrow> (\<forall>o' \<in> set (orders d). order_consistent o')"

definition order_evolves :: "order \<Rightarrow> order \<Rightarrow> bool" where
  "order_evolves a b \<longleftrightarrow>
     ord_id b = ord_id a \<and> ord_organizationId b = ord_organizationId a \<and> ord_currency b = ord_currency a \<and>
     ord_createdAt b = ord_createdAt a \<and> (b = a \<or> ord_status a = Pending)"

lemma order_evolves_refl [simp]: "order_evolves a a"
  by (simp add: order_evolves_def)

lemma order_evolves_trans: "order_evolves a b \<Longrightarrow> order_evolves b c \<Longrightarrow> order_evolves a c"
  by (auto simp: order_evolves_def)

lemma order_evolves_final: "order_evolves a b \<Longrightarrow> ord_status a \<noteq> Pending \<Longrightarrow> b = a"
  by (simp add: order_evolves_def)

definition orders_evolve :: "order list \<Rightarrow> order list \<Rightarrow> bool" where
  "orders_evolve xs ys \<longleftrightarrow> (\<forall>a \<in> set xs. \<exists>b \<in> set ys. order_evolves a b)"

lemma orders_evolve_grow [simp]: "orders_evolve xs (xs @ ys)" "orders_evolve xs xs"
  unfolding orders_evolve_def set_append using order_evolves_refl by blast+

lemma orders_evolve_trans: "orders_evolve xs ys \<Longrightarrow> orders_evolve ys zs \<Longrightarrow> orders_evolve xs zs"
  unfolding orders_evolve_def by (meson order_evolves_trans)

section \<open>Growth\<close>

definition history :: "db \<Rightarrow> db \<Rightarrow> bool" where
  "history d d' \<longleftrightarrow>
     prefix (products d) (products d') \<and> prefix (inventoryMovements d) (inventoryMovements d') \<and>
     prefix (orderItems d) (orderItems d') \<and> prefix (auditLog d) (auditLog d') \<and>
     orders_evolve (orders d) (orders d')"

lemma history_refl [simp]: "history d d"
  by (auto simp: history_def)

lemma history_trans: "history d d1 \<Longrightarrow> history d1 d2 \<Longrightarrow> history d d2"
  unfolding history_def by (meson orders_evolve_trans prefix_order.trans)

lemma history_frame:
  "history d d' \<Longrightarrow> products d1 = products d' \<Longrightarrow> inventoryMovements d1 = inventoryMovements d' \<Longrightarrow>
   orderItems d1 = orderItems d' \<Longrightarrow> auditLog d1 = auditLog d' \<Longrightarrow> orders d1 = orders d' \<Longrightarrow> history d d1"
  by (simp add: history_def)

section \<open>The contract of a stock operation\<close>

definition stock_state_ok :: "db \<Rightarrow> bool" where
  "stock_state_ok d \<longleftrightarrow> books_ok d \<and> orders_consistent d"

lemma stock_state_ok_frame:
  assumes "stock_state_ok d" and "db_ok d'"
    and "products d' = products d" and "inventory d' = inventory d"
    and "inventoryMovements d' = inventoryMovements d" and "orders d' = orders d" and "orderItems d' = orderItems d"
  shows "stock_state_ok d'"
  using assms books_ok_frame [of d d'] by (simp add: stock_state_ok_def orders_consistent_def)

locale stock_operation = guarded_work +
  fixes applicable :: bool
  assumes keeps_state: "applicable \<Longrightarrow> stock_state_ok d \<Longrightarrow> work d = Inr (out, d') \<Longrightarrow>
      stock_state_ok d' \<and> history d d' \<and> sessions d' = sessions d"
begin

lemma idempotent_keeps:
  fixes e :: env and rq :: idempotency_request and later :: db
  assumes app: "applicable" and st: "stock_state_ok d"
  defines "d' \<equiv> snd (idempotent e rq work d later)"
  shows "stock_state_ok d' \<and> history d d' \<and> sessions d' = sessions d \<and>
    (idempotencyKeys d' = idempotencyKeys d \<or>
     (\<exists>out. idempotencyKeys d' = idempotencyKeys d @ [completion e out (claim_row e rq)]))"
proof (cases "guarded_body e rq work d")
  case (Inl err)
  then have "d' = d" by (auto simp: d'_def idempotent_def transaction_def)
  with st show ?thesis by simp
next
  case (Inr p)
  then obtain out dn where g: "guarded_body e rq work d = Inr (out, dn)" by (cases p) auto
  then have dn: "d' = dn" by (auto simp: d'_def idempotent_def transaction_def)
  let ?d1 = "d\<lparr>idempotencyKeys := idempotencyKeys d @ [claim_row e rq]\<rparr>"
  have db: "db_ok d" using st by (simp add: stock_state_ok_def books_ok_def)
  obtain d2 where free: "key_free d rq" and org: "org_exists d (pg_uuid (req_organizationId rq))"
    and w: "work ?d1 = Inr (out, d2)"
    and d': "dn = d2\<lparr>idempotencyKeys := idempotencyKeys d @ [completion e out (claim_row e rq)]\<rparr>"
    using guarded_Inr [OF g] by blast
  have "db_ok ?d1" by (rule claimed_ok [OF db free org])
  then have "stock_state_ok ?d1" by (rule stock_state_ok_frame [OF st]) simp_all
  from keeps_state [OF app this w]
  have k: "stock_state_ok d2" "history ?d1 d2" "sessions d2 = sessions d" by simp_all
  have "stock_state_ok dn"
    using guarded_ok [OF db g] by (intro stock_state_ok_frame [OF k(1)]) (simp_all add: d')
  moreover have "history d dn" using k(2) by (simp add: history_def d')
  ultimately show ?thesis using k(3) by (auto simp: dn d')
qed

end

section \<open>The four operations\<close>

lemma update_orders_evolves:
  assumes "orders_consistent d" and "\<And>r. P r \<Longrightarrow> ord_status r = Pending"
    and "\<And>r. ord_id (f r) = ord_id r \<and> ord_organizationId (f r) = ord_organizationId r \<and>
      ord_currency (f r) = ord_currency r \<and> ord_createdAt (f r) = ord_createdAt r"
    and "\<And>r. order_consistent r \<Longrightarrow> ord_status r = Pending \<Longrightarrow> order_consistent (f r)"
  shows "orders_evolve (orders d) (update_where P f (orders d))"
    and "\<forall>b \<in> set (update_where P f (orders d)). order_consistent b"
proof -
  have "order_evolves a (if P a then f a else a)" for a
    using assms(2,3) by (simp add: order_evolves_def)
  then show "orders_evolve (orders d) (update_where P f (orders d))"
    unfolding orders_evolve_def set_update_where by blast
  show "\<forall>b \<in> set (update_where P f (orders d)). order_consistent b"
    using assms(1,2,4) by (auto simp: set_update_where orders_consistent_def)
qed

interpretation adjust_operation: stock_operation "applyAdjustment e organizationId dto" True
  for e organizationId dto
proof unfold_locales
  fix d out d' assume st: "stock_state_ok d" and w: "applyAdjustment e organizationId dto d = Inr (out, d')"
  have b: "books_ok d" "db_ok d" "stocked d" using st by (simp_all add: stock_state_ok_def books_ok_def)
  have ok: "db_ok d'" by (rule adjust_work.keeps_constraints [OF b(2) w])
  from applyAdjustment_effect [OF b(2,3) w]
  show "stock_state_ok d' \<and> history d d' \<and> sessions d' = sessions d"
  proof (elim disjE conjE)
    assume d': "d' = after_adjust e organizationId dto d"
    then have "books_ok d'" using after_adjust_books [OF b(1)] ok by simp
    with st show ?thesis
      by (auto simp: stock_state_ok_def d' after_adjust_def orders_consistent_def history_def)
  qed (use st in simp)
qed

interpretation reserve_operation: stock_operation "reserveStock e organizationId userId dto"
    "reservation_valid dto \<and> distinct (map productId (cr_items dto))"
  for e organizationId userId dto
proof unfold_locales
  fix d out d' assume app: "reservation_valid dto \<and> distinct (map productId (cr_items dto))"
    and st: "stock_state_ok d" and w: "reserveStock e organizationId userId dto d = Inr (out, d')"
  have b: "books_ok d" "db_ok d" using st by (simp_all add: stock_state_ok_def books_ok_def)
  have pos: "\<forall>i \<in> set (cr_items dto). 0 < quantity i" using app by (auto simp: reservation_valid_def)
  have ok: "db_ok d'" by (rule reserve_work.keeps_constraints [OF b(2) w])
  from reserveStock_Inr [OF b(2) _ pos w] app
  consider "d' = d"
    | (reserved) "d' = after_reserve e organizationId userId dto d"
      "shortfalls_of (locked_by_product organizationId (map productId (cr_items dto)) d) (cr_items dto) = []"
      "new_uuid e 0 \<notin> ord_id ` set (orders d)"
    by blast
  then show "stock_state_ok d' \<and> history d d' \<and> sessions d' = sessions d"
  proof cases
    case reserved
    have "pg_uuid (productId i) = productId i" if "i \<in> set (cr_items dto)" for i
      using pos reserved(2) that
      by (intro locked_item(1) [OF b(2), where organizationId = organizationId and
            pids = "map productId (cr_items dto)"]) (auto simp: shortfalls_Nil_iff)
    then have "books_ok d'"
      using after_reserve_books [OF b(1)] ok app reserved by simp
    with st show ?thesis
      by (auto simp: stock_state_ok_def reserved after_reserve_def Let_def orders_consistent_def history_def
          new_order_def order_consistent_def)
  qed (use st in simp)
qed

interpretation release_operation: stock_operation "releaseStock e organizationId userId orderId" True
  for e organizationId userId orderId
proof unfold_locales
  fix d out d' assume st: "stock_state_ok d" and w: "releaseStock e organizationId userId orderId d = Inr (out, d')"
  have b: "books_ok d" "db_ok d" "orders_consistent d" using st by (simp_all add: stock_state_ok_def books_ok_def)
  have ok: "db_ok d'" by (rule release_work.keeps_constraints [OF b(2) w])
  have "\<forall>o' \<in> set (orders d). pending_order organizationId orderId o' \<longrightarrow> order_covered organizationId orderId d"
    using books_cover [OF b(1)] by blast
  from releaseStock_Inr [OF b(2) this w]
  show "stock_state_ok d' \<and> history d d' \<and> sessions d' = sessions d"
  proof (elim disjE conjE bexE)
    fix o' assume o': "o' \<in> set (orders d)" "pending_order organizationId orderId o'"
      and d': "d' = after_release e organizationId userId orderId d"
    have "books_ok d'" using after_release_books [OF b(1) _ o'] ok d' by simp
    moreover note update_orders_evolves [OF b(3), of "pending_order organizationId orderId" "cancel_row e"]
    ultimately show ?thesis
      by (auto simp: stock_state_ok_def d' after_release_def Let_def orders_consistent_def history_def
          pending_order_def cancel_row_def order_consistent_def)
  qed (use st in simp)
qed

interpretation fulfill_operation: stock_operation "fulfillStock e organizationId userId orderId" True
  for e organizationId userId orderId
proof unfold_locales
  fix d out d' assume st: "stock_state_ok d" and w: "fulfillStock e organizationId userId orderId d = Inr (out, d')"
  have b: "books_ok d" "db_ok d" "orders_consistent d" using st by (simp_all add: stock_state_ok_def books_ok_def)
  have ok: "db_ok d'" by (rule fulfill_work.keeps_constraints [OF b(2) w])
  have "\<forall>o' \<in> set (orders d). pending_order organizationId orderId o' \<longrightarrow> order_covered organizationId orderId d"
    using books_cover [OF b(1)] by blast
  from fulfillStock_Inr [OF b(2) this w]
  show "stock_state_ok d' \<and> history d d' \<and> sessions d' = sessions d"
  proof (elim disjE conjE bexE)
    fix o' assume o': "o' \<in> set (orders d)" "pending_order organizationId orderId o'"
      and d': "d' = after_fulfill e organizationId userId orderId d"
    have "books_ok d'" using after_fulfill_books [OF b(1) _ o'] ok d' by simp
    moreover note update_orders_evolves [OF b(3), of "pending_order organizationId orderId" "fulfill_row e"]
    ultimately show ?thesis
      by (auto simp: stock_state_ok_def d' after_fulfill_def Let_def orders_consistent_def history_def
          pending_order_def fulfill_row_def order_consistent_def)
  qed (use st in simp)
qed

end
