(* ===== verification/Orders.thy ===== *)
theory Orders
  imports Pagination Reservations
begin

text \<open>
  \<open>OrdersService\<close> (\<open>orders/orders.service.ts\<close>): the order listing and detail, and the delegation of
  fulfillment and cancellation to \<open>ReservationsService\<close>.
\<close>

record order_summary =
  os_id :: uuid
  os_status :: order_status
  os_currency :: string
  os_createdAt :: js_date

record order_item_detail =
  oid_productId :: uuid
  oid_sku :: string
  oid_name :: string
  oid_quantity :: int
  oid_unitPriceCents :: int

record order_detail = order_summary +
  od_updatedAt :: js_date
  od_cancelledAt :: "js_date option"
  od_fulfilledAt :: "js_date option"
  od_items :: "order_item_detail list"

definition orders_of :: "uuid \<Rightarrow> db \<Rightarrow> order list" where
  "orders_of g d = filter (\<lambda>o'. ord_organizationId o' = g) (orders d)"

definition order_summary_of :: "order \<Rightarrow> order_summary" where
  "order_summary_of o' =
     \<lparr>os_id = ord_id o', os_status = ord_status o', os_currency = ord_currency o',
      os_createdAt = date_of_timestamp (ord_createdAt o')\<rparr>"

definition listOrders :: "codec \<Rightarrow> db \<Rightarrow> string \<Rightarrow> page_query \<Rightarrow> exn + order_summary cursor_page" where
  "listOrders cd d organizationId q =
     map_page order_summary_of (list_page cd ord_createdAt ord_id (orders_of (pg_uuid organizationId) d) q)"

definition order_not_found :: exn where
  "order_not_found = HttpException (RejectBody (Message ''Order not found in this organization.'')) 404"

definition order_item_details :: "db \<Rightarrow> string \<Rightarrow> order_item_detail list" where
  "order_item_details d orderId =
     map (\<lambda>(i, p). \<lparr>oid_productId = oi_productId i, oid_sku = prod_sku p, oid_name = prod_name p,
                     oid_quantity = oi_quantity i, oid_unitPriceCents = oi_unitPriceCents i\<rparr>)
       (sort_key (\<lambda>(i, p). oi_productId i)
         (concat (map (\<lambda>i. map (Pair i) (filter (\<lambda>p. oi_productId i = prod_id p) (products d)))
           (filter (\<lambda>i. oi_orderId i = pg_uuid orderId) (orderItems d)))))"

definition getOrder :: "db \<Rightarrow> string \<Rightarrow> string \<Rightarrow> exn + order_detail" where
  "getOrder d organizationId orderId =
     (case find (\<lambda>o'. ord_id o' = pg_uuid orderId \<and> ord_organizationId o' = pg_uuid organizationId) (orders d) of
        None \<Rightarrow> Inl order_not_found
      | Some o' \<Rightarrow> Inr
          \<lparr>os_id = ord_id o', os_status = ord_status o', os_currency = ord_currency o',
           os_createdAt = date_of_timestamp (ord_createdAt o'),
           od_updatedAt = date_of_timestamp (ord_updatedAt o'),
           od_cancelledAt = map_option date_of_timestamp (ord_cancelledAt o'),
           od_fulfilledAt = map_option date_of_timestamp (ord_fulfilledAt o'),
           od_items = order_item_details d orderId\<rparr>)"

definition fulfill_order ::
  "(string \<Rightarrow> string) \<Rightarrow> env \<Rightarrow> string \<Rightarrow> uuid \<Rightarrow> string \<Rightarrow> string \<Rightarrow> db \<Rightarrow> db \<Rightarrow>
     (exn + response_body) \<times> db" where
  "fulfill_order sha e organizationId userId orderId key d later =
     fulfillOrder sha e organizationId userId orderId key d later"

definition cancelOrder ::
  "(string \<Rightarrow> string) \<Rightarrow> env \<Rightarrow> string \<Rightarrow> uuid \<Rightarrow> string \<Rightarrow> string \<Rightarrow> db \<Rightarrow> db \<Rightarrow>
     (exn + response_body) \<times> db" where
  "cancelOrder sha e organizationId userId orderId key d later =
     releaseReservation sha e organizationId userId orderId key d later"

interpretation order_list: keyset ord_createdAt ord_id orders_of
  by unfold_locales (auto simp: orders_of_def orders_ok_def distinct_map_filter dest: db_okD(7))

end
