(* ===== verification/Dashboard.thy ===== *)
theory Dashboard
  imports Orders Products
begin

text \<open>
  \<open>DashboardService\<close> (\<open>dashboard/dashboard.service.ts\<close>): the counts of an organization, as the
  three aggregate queries and the \<open>Map\<close> of the grouped one.
\<close>

definition LOW_STOCK_THRESHOLD :: int where
  "LOW_STOCK_THRESHOLD = 5"

record dashboard_summary =
  totalProducts :: nat
  pendingOrders :: nat
  fulfilledOrders :: nat
  cancelledOrders :: nat
  lowStockProducts :: nat

text \<open>\<open>GROUP BY status\<close>: one row per status that occurs, with its count.\<close>

definition orders_by_status :: "uuid \<Rightarrow> db \<Rightarrow> (order_status \<times> nat) list" where
  "orders_by_status g d =
     (let statuses = map ord_status (filter (\<lambda>o'. ord_organizationId o' = g) (orders d))
      in map (\<lambda>s. (s, length (filter (\<lambda>t. t = s) statuses))) (remdups statuses))"

definition getSummary :: "db \<Rightarrow> string \<Rightarrow> dashboard_summary" where
  "getSummary d organizationId =
     (let g = pg_uuid organizationId;
          ordersByStatus = js_map (orders_by_status g d);
          count = (\<lambda>s. case ordersByStatus s of None \<Rightarrow> 0 | Some n \<Rightarrow> n)
      in \<lparr>totalProducts = length (filter (\<lambda>p. prod_organizationId p = g) (products d)),
          pendingOrders = count Pending, fulfilledOrders = count Fulfilled, cancelledOrders = count Cancelled,
          lowStockProducts = length (filter (\<lambda>r. inv_organizationId r = g \<and>
            inv_onHand r - inv_reserved r \<le> LOW_STOCK_THRESHOLD) (inventory d))\<rparr>)"

lemma orders_by_status_count:
  "(case js_map (orders_by_status g d) s of None \<Rightarrow> 0 | Some n \<Rightarrow> n) =
     length (filter (\<lambda>o'. ord_status o' = s) (orders_of g d))"
proof -
  let ?st = "map ord_status (orders_of g d)"
  have eq: "orders_by_status g d = map (\<lambda>s. (s, length (filter (\<lambda>t. t = s) ?st))) (remdups ?st)"
    by (simp add: orders_by_status_def orders_of_def Let_def)
  have dist: "distinct (map fst (orders_by_status g d))" by (simp add: eq comp_def)
  have len: "length (filter (\<lambda>t. t = s) ?st) = length (filter (\<lambda>o'. ord_status o' = s) (orders_of g d))"
    by (simp add: filter_map comp_def)
  show ?thesis
  proof (cases "s \<in> set ?st")
    case True
    then have "js_map (orders_by_status g d) s = Some (length (filter (\<lambda>t. t = s) ?st))"
      unfolding js_map_distinct [OF dist] by (auto simp: eq)
    then show ?thesis using len by simp
  next
    case False
    then have "js_map (orders_by_status g d) s = None"
      unfolding js_map_None_iff by (auto simp: eq)
    moreover have "filter (\<lambda>o'. ord_status o' = s) (orders_of g d) = []"
      using False by (auto simp: filter_empty_conv)
    ultimately show ?thesis by simp
  qed
qed

end
