(* ===== verification/Sessions.thy ===== *)
theory Sessions
  imports Constraints
begin

text \<open>
  Server-side sessions (\<open>auth/session.service.ts\<close>, \<open>auth/session.constants.ts\<close>): creation,
  validation with the throttled extension of the idle window, revocation, and the CSRF secret bound
  to a session.  The random tokens are arguments, SHA-256 is the parameter \<open>sha\<close>.
\<close>

definition IDLE_TIMEOUT_MS :: int where
  "IDLE_TIMEOUT_MS = 30 * 60 * 1000"

definition ABSOLUTE_TIMEOUT_MS :: int where
  "ABSOLUTE_TIMEOUT_MS = 8 * 60 * 60 * 1000"

definition ACTIVITY_TOUCH_THROTTLE_MS :: int where
  "ACTIVITY_TOUCH_THROTTLE_MS = 60 * 1000"

lemmas session_constants = IDLE_TIMEOUT_MS_def ABSOLUTE_TIMEOUT_MS_def ACTIVITY_TOUCH_THROTTLE_MS_def

section \<open>Operations\<close>

record created_session =
  crs_session :: session
  crs_token :: string
  crs_csrfToken :: string

definition new_session ::
  "(string \<Rightarrow> string) \<Rightarrow> env \<Rightarrow> string \<Rightarrow> string \<Rightarrow> uuid \<Rightarrow> session" where
  "new_session sha e token csrfToken userId =
     \<lparr>ses_id = new_uuid e 0, ses_userId = userId, ses_tokenHash = sha token,
      ses_csrfSecretHash = sha csrfToken, ses_createdAt = app_time e, ses_lastActivityAt = app_time e,
      ses_idleExpiresAt = timestamp_of_date (env_date e + IDLE_TIMEOUT_MS),
      ses_absoluteExpiresAt = timestamp_of_date (env_date e + ABSOLUTE_TIMEOUT_MS),
      ses_revokedAt = None\<rparr>"

definition createSession ::
  "(string \<Rightarrow> string) \<Rightarrow> env \<Rightarrow> string \<Rightarrow> string \<Rightarrow> uuid \<Rightarrow> db \<Rightarrow> exn + (created_session \<times> db)" where
  "createSession sha e token csrfToken userId d =
     (let s = new_session sha e token csrfToken userId in
      andThen (insert_session s d) (\<lambda>d'.
      Inr (\<lparr>crs_session = s, crs_token = token, crs_csrfToken = csrfToken\<rparr>, d')))"

definition touch :: "session \<Rightarrow> js_date \<Rightarrow> db \<Rightarrow> db" where
  "touch s now d =
     (if now - date_of_timestamp (ses_lastActivityAt s) < ACTIVITY_TOUCH_THROTTLE_MS then d
      else update_sessions (\<lambda>r. ses_id r = ses_id s)
        (\<lambda>r. r\<lparr>ses_lastActivityAt := timestamp_of_date now,
               ses_idleExpiresAt := timestamp_of_date (now + IDLE_TIMEOUT_MS)\<rparr>) d)"

definition session_live :: "js_date \<Rightarrow> session \<Rightarrow> bool" where
  "session_live now s \<longleftrightarrow>
     ses_revokedAt s = None \<and> ses_idleExpiresAt s > timestamp_of_date now \<and>
     ses_absoluteExpiresAt s > timestamp_of_date now"

definition find_session :: "(string \<Rightarrow> string) \<Rightarrow> js_date \<Rightarrow> string \<Rightarrow> db \<Rightarrow> (session \<times> user) option" where
  "find_session sha now rawToken d =
     find (\<lambda>(s, u). ses_tokenHash s = sha rawToken \<and> session_live now s)
       (concat (map (\<lambda>s. map (Pair s) (filter (\<lambda>u. ses_userId s = usr_id u) (users d))) (sessions d)))"

definition validateToken ::
  "(string \<Rightarrow> string) \<Rightarrow> js_date \<Rightarrow> string \<Rightarrow> db \<Rightarrow> (session \<times> user) option \<times> db" where
  "validateToken sha now rawToken d =
     (case find_session sha now rawToken d of
        None \<Rightarrow> (None, d)
      | Some (s, u) \<Rightarrow> (Some (s, u), touch s now d))"

text \<open>\<open>Buffer.from(s, 'hex')\<close>: the bytes of the leading pairs of hexadecimal digits.\<close>

definition hex_value :: "char \<Rightarrow> nat option" where
  "hex_value c =
     (let n = (of_char c :: nat) in
      if 48 \<le> n \<and> n \<le> 57 then Some (n - 48)
      else if 65 \<le> n \<and> n \<le> 70 then Some (n - 55)
      else if 97 \<le> n \<and> n \<le> 102 then Some (n - 87)
      else None)"

fun hex_bytes :: "string \<Rightarrow> nat list" where
  "hex_bytes (a # b # rest) =
     (case (hex_value a, hex_value b) of
        (Some x, Some y) \<Rightarrow> (16 * x + y) # hex_bytes rest
      | _ \<Rightarrow> [])"
| "hex_bytes _ = []"

definition verifyCsrfToken :: "(string \<Rightarrow> string) \<Rightarrow> session \<Rightarrow> string \<Rightarrow> bool" where
  "verifyCsrfToken sha s candidate =
     (let expected = hex_bytes (ses_csrfSecretHash s); actual = hex_bytes (sha candidate)
      in length expected = length actual \<and> expected = actual)"

definition rotateCsrfToken :: "(string \<Rightarrow> string) \<Rightarrow> string \<Rightarrow> session \<Rightarrow> db \<Rightarrow> string \<times> db" where
  "rotateCsrfToken sha csrfToken s d =
     (csrfToken, update_sessions (\<lambda>r. ses_id r = ses_id s) (\<lambda>r. r\<lparr>ses_csrfSecretHash := sha csrfToken\<rparr>) d)"

definition revokeByToken :: "(string \<Rightarrow> string) \<Rightarrow> js_date \<Rightarrow> string \<Rightarrow> db \<Rightarrow> db" where
  "revokeByToken sha now rawToken d =
     update_sessions (\<lambda>r. ses_tokenHash r = sha rawToken \<and> ses_revokedAt r = None)
       (\<lambda>r. r\<lparr>ses_revokedAt := Some (timestamp_of_date now)\<rparr>) d"

section \<open>Validation\<close>

lemma find_session_iff:
  assumes "db_ok d"
  shows "find_session sha now t d = Some (s, u) \<longleftrightarrow>
    s \<in> set (sessions d) \<and> u \<in> set (users d) \<and> ses_userId s = usr_id u \<and>
    ses_tokenHash s = sha t \<and> session_live now s" (is "?L \<longleftrightarrow> ?R")
proof
  assume ?L
  then show ?R unfolding find_session_def by (auto dest!: find_Some_in)
next
  assume R: ?R
  then have "find_session sha now t d \<noteq> None" unfolding find_session_def find_None_iff by auto
  then obtain s' u' where L: "find_session sha now t d = Some (s', u')" by auto
  then have R': "s' \<in> set (sessions d)" "u' \<in> set (users d)" "ses_userId s' = usr_id u'" "ses_tokenHash s' = sha t"
    unfolding find_session_def by (auto dest!: find_Some_in)
  have "s' = s" using db_okD(11) [OF assms] R R' distinct_map_inj unfolding sessions_ok_def by metis
  moreover from this have "u' = u"
    using db_okD(2) [OF assms] R R' distinct_map_inj unfolding users_ok_def by metis
  ultimately show ?L using L by simp
qed

lemma find_session_None_iff:
  assumes "db_ok d"
  shows "find_session sha now t d = None \<longleftrightarrow>
    (\<forall>s \<in> set (sessions d). ses_tokenHash s = sha t \<longrightarrow> \<not> session_live now s)"
proof -
  have "\<exists>u. u \<in> set (users d) \<and> ses_userId s = usr_id u" if "s \<in> set (sessions d)" for s
    using db_okD(11) [OF assms] that by (auto simp: sessions_ok_def user_exists_def)
  then show ?thesis unfolding find_session_def find_None_iff by fastforce
qed

lemma validateToken_fst [simp]: "fst (validateToken sha now t d) = find_session sha now t d"
  by (simp add: validateToken_def split: option.splits)

lemma touch_ok: "db_ok d \<Longrightarrow> db_ok (touch s now d)"
  by (simp add: touch_def update_sessions_ok)

lemma validateToken_ok: "db_ok d \<Longrightarrow> db_ok (snd (validateToken sha now t d))"
  by (simp add: validateToken_def touch_ok split: option.splits prod.splits)

lemma rotateCsrfToken_ok: "db_ok d \<Longrightarrow> db_ok (snd (rotateCsrfToken sha c s d))"
  by (simp add: rotateCsrfToken_def update_sessions_ok)

lemma revokeByToken_ok: "db_ok d \<Longrightarrow> db_ok (revokeByToken sha now t d)"
  by (simp add: revokeByToken_def update_sessions_ok)

lemma createSession_ok: "db_ok d \<Longrightarrow> createSession sha e t c u d = Inr (cs, d') \<Longrightarrow> db_ok d'"
  by (auto simp: createSession_def Let_def andThen_Inr_iff intro: insert_session_ok)


section \<open>Runs of the session service\<close>

text \<open>
  One call of the service, at any time and with any tokens; other operations of the API leave the
  session table alone.
\<close>

inductive session_step :: "(string \<Rightarrow> string) \<Rightarrow> db \<Rightarrow> db \<Rightarrow> bool" for sha where
  create: "createSession sha e t c u d = Inr (cs, d') \<Longrightarrow> session_step sha d d'"
| validate: "session_step sha d (snd (validateToken sha now t d))"
| rotate: "session_step sha d (snd (rotateCsrfToken sha c s d))"
| revoke: "session_step sha d (revokeByToken sha now t d)"
| other: "sessions d' = sessions d \<Longrightarrow> session_step sha d d'"

inductive session_run :: "(string \<Rightarrow> string) \<Rightarrow> db \<Rightarrow> db \<Rightarrow> bool" for sha where
  run_refl: "session_run sha d d"
| run_step: "session_run sha d d1 \<Longrightarrow> session_step sha d1 d2 \<Longrightarrow> session_run sha d d2"

text \<open>The windows every session row keeps.\<close>

definition session_windows :: "session \<Rightarrow> bool" where
  "session_windows s \<longleftrightarrow>
     ses_absoluteExpiresAt s = ses_createdAt s + 1000 * ABSOLUTE_TIMEOUT_MS \<and>
     ses_idleExpiresAt s = ses_lastActivityAt s + 1000 * IDLE_TIMEOUT_MS \<and>
     timestamp_of_date (date_of_timestamp (ses_lastActivityAt s)) = ses_lastActivityAt s"


definition sessions_windowed :: "db \<Rightarrow> bool" where
  "sessions_windowed d \<longleftrightarrow> (\<forall>s \<in> set (sessions d). session_windows s)"

lemma session_step_windowed:
  assumes "session_step sha d d'" and "sessions_windowed d"
  shows "sessions_windowed d'"
  using assms
proof (induction rule: session_step.induct)
  case create
  then show ?case
    by (auto simp: createSession_def Let_def andThen_Inr_iff insert_session_def require_Inr_iff
        sessions_windowed_def session_windows_def new_session_def app_time_def timestamp_of_date_def
        date_of_timestamp_def)
next
  case (validate d now t)
  then show ?case
    by (auto simp: validateToken_def touch_def update_sessions_def set_update_where sessions_windowed_def
        session_windows_def timestamp_of_date_def date_of_timestamp_def split: option.splits)
qed (auto simp: rotateCsrfToken_def revokeByToken_def update_sessions_def set_update_where
    sessions_windowed_def session_windows_def)

text \<open>A row keeps its token, and a revocation is never taken back.\<close>

definition session_kept :: "session \<Rightarrow> db \<Rightarrow> bool" where
  "session_kept s d \<longleftrightarrow> (\<exists>s' \<in> set (sessions d). ses_id s' = ses_id s \<and> ses_tokenHash s' = ses_tokenHash s \<and>
     ses_userId s' = ses_userId s \<and> ses_createdAt s' = ses_createdAt s \<and>
     ses_absoluteExpiresAt s' = ses_absoluteExpiresAt s \<and>
     (ses_revokedAt s \<noteq> None \<longrightarrow> ses_revokedAt s' = ses_revokedAt s))"

lemma session_kept_update:
  assumes "session_kept s d"
    and "\<And>r. ses_id (f r) = ses_id r \<and> ses_tokenHash (f r) = ses_tokenHash r \<and> ses_userId (f r) = ses_userId r \<and>
      ses_createdAt (f r) = ses_createdAt r \<and> ses_absoluteExpiresAt (f r) = ses_absoluteExpiresAt r"
    and "\<And>r. P r \<Longrightarrow> ses_revokedAt r \<noteq> None \<Longrightarrow> ses_revokedAt (f r) = ses_revokedAt r"
  shows "session_kept s (update_sessions P f d)"
proof -
  obtain s' where s': "s' \<in> set (sessions d)" "ses_id s' = ses_id s" "ses_tokenHash s' = ses_tokenHash s"
      "ses_userId s' = ses_userId s" "ses_createdAt s' = ses_createdAt s"
      "ses_absoluteExpiresAt s' = ses_absoluteExpiresAt s"
      "ses_revokedAt s \<noteq> None \<longrightarrow> ses_revokedAt s' = ses_revokedAt s"
    using assms(1) by (auto simp: session_kept_def)
  show ?thesis
    unfolding session_kept_def update_sessions_def
    using s' assms(2) [of s'] assms(3) [of s']
    by (intro bexI [of _ "if P s' then f s' else s'"]) (auto simp: set_update_where)
qed

lemma session_step_kept:
  assumes "session_step sha d d'" and "session_kept s d"
  shows "session_kept s d'"
  using assms
proof (induction rule: session_step.induct)
  case create
  then show ?case
    by (auto simp: createSession_def Let_def andThen_Inr_iff insert_session_def require_Inr_iff session_kept_def)
next
  case (validate d now t)
  then show ?case
    by (auto simp: validateToken_def touch_def intro!: session_kept_update split: option.splits)
next
  case (rotate d c s0)
  then show ?case by (auto simp: rotateCsrfToken_def intro!: session_kept_update)
next
  case (revoke d now t)
  then show ?case by (auto simp: revokeByToken_def intro!: session_kept_update)
qed (simp add: session_kept_def)

lemma session_run_kept: "session_run sha d d' \<Longrightarrow> session_kept s d \<Longrightarrow> session_kept s d'"
  by (induction rule: session_run.induct) (auto intro: session_step_kept)

lemma session_run_windowed: "session_run sha d d' \<Longrightarrow> sessions_windowed d \<Longrightarrow> sessions_windowed d'"
  by (induction rule: session_run.induct) (auto intro: session_step_windowed)

section \<open>The idle window\<close>

text \<open>
  After a successful validation at \<open>t\<close> the idle window reaches at least 29 minutes past \<open>t\<close>, whether
  or not the row was touched.
\<close>

lemma validate_extends:
  assumes db: "db_ok d" and win: "sessions_windowed d"
    and v: "validateToken sha t tok d = (Some (s, u), d')"
  obtains s' where "s' \<in> set (sessions d')" and "ses_tokenHash s' = sha tok" and "ses_revokedAt s' = None"
    and "ses_absoluteExpiresAt s' = ses_absoluteExpiresAt s"
    and "timestamp_of_date (t + IDLE_TIMEOUT_MS - ACTIVITY_TOUCH_THROTTLE_MS) < ses_idleExpiresAt s'"
proof -
  have f: "find_session sha t tok d = Some (s, u)" and d': "d' = touch s t d"
    using v by (auto simp: validateToken_def split: option.splits)
  then have s: "s \<in> set (sessions d)" "ses_tokenHash s = sha tok" "session_live t s"
    using find_session_iff [OF db] by auto
  show ?thesis
  proof (cases "t - date_of_timestamp (ses_lastActivityAt s) < ACTIVITY_TOUCH_THROTTLE_MS")
    case True
    have "ses_idleExpiresAt s = 1000 * (date_of_timestamp (ses_lastActivityAt s) + IDLE_TIMEOUT_MS)"
      using win s(1) by (auto simp: sessions_windowed_def session_windows_def timestamp_of_date_def)
    with True s d' show ?thesis
      by (intro that [of s]) (auto simp: touch_def session_live_def timestamp_of_date_def)
  next
    case False
    let ?f = "\<lambda>r. r\<lparr>ses_lastActivityAt := timestamp_of_date t,
      ses_idleExpiresAt := timestamp_of_date (t + IDLE_TIMEOUT_MS)\<rparr>"
    have "?f s \<in> set (sessions d')"
      using s(1) False by (auto simp: d' touch_def update_sessions_def set_update_where)
    with s show ?thesis
      by (intro that [of "?f s"]) (auto simp: session_live_def timestamp_of_date_def session_constants)
  qed
qed

end
