(* ===== verification/Auth.thy ===== *)
theory Auth
  imports Sessions
begin

text \<open>
  Accounts (\<open>auth/auth.service.ts\<close>, \<open>auth/password.service.ts\<close>, \<open>common/user.util.ts\<close>): the
  registration that bootstraps an organization, login, logout, and the byte bounds of passwords.
  Argon2 is a parameter: \<open>argon2_hash\<close> with the salt of the call fixed, \<open>argon2_verify\<close> with \<open>None\<close>
  for a hash it cannot parse.
\<close>

record argon2 =
  argon2_hash :: "string \<Rightarrow> string"
  argon2_verify :: "string \<Rightarrow> string \<Rightarrow> bool option"

section \<open>Passwords\<close>

definition MAX_PASSWORD_BYTES :: nat where
  "MAX_PASSWORD_BYTES = 1024"

text \<open>\<open>Buffer.byteLength(s, 'utf8')\<close> of a string of code units below 256.\<close>

definition utf8_length :: "string \<Rightarrow> nat" where
  "utf8_length s = sum_list (map (\<lambda>c. if (of_char c :: nat) < 128 then 1 else 2) s)"

definition password_hash :: "argon2 \<Rightarrow> string \<Rightarrow> exn + string" where
  "password_hash a password =
     (let bytes = utf8_length password in
      if bytes = 0 \<or> bytes > MAX_PASSWORD_BYTES
      then Inl (RangeError ''Password must be between 1 and 1024 bytes.'')
      else Inr (argon2_hash a password))"

definition password_verify :: "argon2 \<Rightarrow> string \<Rightarrow> string \<Rightarrow> bool" where
  "password_verify a hash password =
     (if utf8_length password > MAX_PASSWORD_BYTES then False
      else (case argon2_verify a hash password of None \<Rightarrow> False | Some matches \<Rightarrow> matches))"

section \<open>Requests\<close>

record register_dto =
  rg_email :: string
  rg_password :: string
  rg_displayName :: string
  rg_organizationName :: string

record login_dto =
  lg_email :: string
  lg_password :: string

text \<open>The validation rules of the two requests; \<open>@IsEmail\<close> is the parameter \<open>is_email\<close>.\<close>

definition register_valid :: "(string \<Rightarrow> bool) \<Rightarrow> register_dto \<Rightarrow> bool" where
  "register_valid is_email dto \<longleftrightarrow>
     is_email (rg_email dto) \<and> length (rg_email dto) \<le> 320 \<and>
     8 \<le> length (rg_password dto) \<and> length (rg_password dto) \<le> 256 \<and>
     1 \<le> length (rg_displayName dto) \<and> length (rg_displayName dto) \<le> 200 \<and>
     1 \<le> length (rg_organizationName dto) \<and> length (rg_organizationName dto) \<le> 200"

definition login_valid :: "(string \<Rightarrow> bool) \<Rightarrow> login_dto \<Rightarrow> bool" where
  "login_valid is_email dto \<longleftrightarrow>
     is_email (lg_email dto) \<and> length (lg_email dto) \<le> 320 \<and> length (lg_password dto) \<le> 256"

record public_user =
  pu_id :: uuid
  pu_email :: string
  pu_emailNormalized :: string
  pu_displayName :: string
  pu_createdAt :: js_date
  pu_updatedAt :: js_date

definition omitPasswordHash :: "user \<Rightarrow> public_user" where
  "omitPasswordHash u =
     \<lparr>pu_id = usr_id u, pu_email = usr_email u, pu_emailNormalized = usr_emailNormalized u,
      pu_displayName = usr_displayName u, pu_createdAt = date_of_timestamp (usr_createdAt u),
      pu_updatedAt = date_of_timestamp (usr_updatedAt u)\<rparr>"

section \<open>Registration\<close>

text \<open>The generated column \<open>email_normalized\<close>.\<close>

definition email_normalized :: "string \<Rightarrow> string" where
  "email_normalized email = lower (btrim email)"

definition new_organization :: "env \<Rightarrow> register_dto \<Rightarrow> organization" where
  "new_organization e dto =
     \<lparr>org_id = new_uuid e 0, org_name = rg_organizationName dto, org_createdAt = env_now e, org_updatedAt = env_now e\<rparr>"

definition new_user :: "env \<Rightarrow> register_dto \<Rightarrow> string \<Rightarrow> user" where
  "new_user e dto passwordHash =
     \<lparr>usr_id = new_uuid e 1, usr_email = rg_email dto, usr_emailNormalized = email_normalized (rg_email dto),
      usr_displayName = rg_displayName dto, usr_passwordHash = passwordHash,
      usr_createdAt = env_now e, usr_updatedAt = env_now e\<rparr>"

definition owner_membership :: "env \<Rightarrow> membership" where
  "owner_membership e =
     \<lparr>mem_organizationId = new_uuid e 0, mem_userId = new_uuid e 1, mem_role = Owner, mem_createdAt = env_now e\<rparr>"

definition register_body :: "env \<Rightarrow> register_dto \<Rightarrow> string \<Rightarrow> db \<Rightarrow> exn + ((public_user \<times> uuid) \<times> db)" where
  "register_body e dto passwordHash d =
     (let organization = new_organization e dto; user = new_user e dto passwordHash in
      andThen (insert_organization organization d) (\<lambda>d1.
      andThen (insert_user user d1) (\<lambda>d2.
      andThen (insert_membership (owner_membership e) d2) (\<lambda>d3.
      Inr ((omitPasswordHash user, org_id organization), d3)))))"

definition email_conflict :: exn where
  "email_conflict = HttpException (RejectBody (Message ''An account with this email already exists.'')) 409"

definition register :: "argon2 \<Rightarrow> env \<Rightarrow> register_dto \<Rightarrow> db \<Rightarrow> (exn + (public_user \<times> uuid)) \<times> db" where
  "register a e dto d =
     (case password_hash a (rg_password dto) of
        Inl err \<Rightarrow> (Inl err, d)
      | Inr passwordHash \<Rightarrow>
          (case transaction (register_body e dto passwordHash) d of
             (Inl err, d') \<Rightarrow>
               (Inl (if pgErrorCode err = Some PG_UNIQUE_VIOLATION then email_conflict else err), d')
           | (Inr res, d') \<Rightarrow> (Inr res, d')))"

section \<open>Login and logout\<close>

definition DUMMY_HASH :: string where
  "DUMMY_HASH = ''$argon2id$v=19$m=19456,p=1,t=2$HhS+qQVbkuUI7gjNQjqwwQ$P/NZnHkiAvmheb1z51Ucw8KaySjIhoTX/DoQAbo3/GE''"

definition invalid_credentials :: exn where
  "invalid_credentials = HttpException (RejectBody (Message ''Invalid email or password.'')) 401"

definition login ::
  "argon2 \<Rightarrow> (string \<Rightarrow> string) \<Rightarrow> env \<Rightarrow> string \<Rightarrow> string \<Rightarrow> login_dto \<Rightarrow> db \<Rightarrow>
     (exn + (public_user \<times> created_session)) \<times> db" where
  "login a sha e token csrfToken dto d =
     (let found = find (\<lambda>u. usr_emailNormalized u = js_trim (lower (lg_email dto))) (users d);
          hashToVerify = (case found of None \<Rightarrow> DUMMY_HASH | Some u \<Rightarrow> usr_passwordHash u);
          passwordMatches = password_verify a hashToVerify (lg_password dto)
      in case found of
           None \<Rightarrow> (Inl invalid_credentials, d)
         | Some user \<Rightarrow>
             if \<not> passwordMatches then (Inl invalid_credentials, d)
             else (case createSession sha e token csrfToken (usr_id user) d of
                     Inl err \<Rightarrow> (Inl err, d)
                   | Inr (session, d') \<Rightarrow> (Inr (omitPasswordHash user, session), d')))"

definition logout :: "(string \<Rightarrow> string) \<Rightarrow> js_date \<Rightarrow> string \<Rightarrow> db \<Rightarrow> db" where
  "logout sha now rawToken d = revokeByToken sha now rawToken d"

section \<open>Facts\<close>

lemma register_cases:
  "register a e dto d =
     (case password_hash a (rg_password dto) of
        Inl err \<Rightarrow> (Inl err, d)
      | Inr h \<Rightarrow> (case register_body e dto h d of
          Inl err \<Rightarrow> (Inl (if pgErrorCode err = Some PG_UNIQUE_VIOLATION then email_conflict else err), d)
        | Inr (res, d') \<Rightarrow> (Inr res, d')))"
  by (simp add: register_def transaction_def split: sum.splits)

lemma register_body_Inr:
  assumes "register_body e dto h d = Inr (res, d')"
  shows "d' = d\<lparr>organizations := organizations d @ [new_organization e dto], users := users d @ [new_user e dto h],
      memberships := memberships d @ [owner_membership e]\<rparr>"
    and "res = (omitPasswordHash (new_user e dto h), new_uuid e 0)"
  using assms
  by (auto simp: register_body_def Let_def andThen_Inr_iff insert_organization_def insert_user_def
      insert_membership_def require_Inr_iff new_organization_def)

lemma register_body_ok: "db_ok d \<Longrightarrow> register_body e dto h d = Inr (res, d') \<Longrightarrow> db_ok d'"
  by (auto simp: register_body_def Let_def andThen_Inr_iff)
    (blast intro: insert_organization_ok insert_user_ok insert_membership_ok)

lemma register_effect:
  "snd (register a e dto d) = d \<or>
   (\<exists>h. snd (register a e dto d) = d\<lparr>organizations := organizations d @ [new_organization e dto],
      users := users d @ [new_user e dto h], memberships := memberships d @ [owner_membership e]\<rparr>)"
proof (cases "password_hash a (rg_password dto)")
  case (Inr h)
  show ?thesis
  proof (cases "register_body e dto h d")
    case (Inr p)
    with \<open>password_hash a (rg_password dto) = Inr h\<close> register_body_Inr(1) [of e dto h d] show ?thesis
      by (cases p) (auto simp: register_cases)
  qed (simp add: register_cases Inr)
qed (simp add: register_cases)

lemma register_ok:
  assumes "db_ok d"
  shows "db_ok (snd (register a e dto d))"
  using assms register_body_ok
  by (auto simp: register_cases split: sum.splits)

lemma login_ok:
  assumes "db_ok d"
  shows "db_ok (snd (login a sha e t c dto d))"
  using assms createSession_ok
  by (auto simp: login_def Let_def split: option.splits sum.splits)

text \<open>A string of at most 256 code units is within the byte bound, so a valid password always hashes.\<close>

lemma utf8_length_bounds: "length s \<le> utf8_length s \<and> utf8_length s \<le> 2 * length s"
  unfolding utf8_length_def by (induction s) auto

lemma valid_password_hashes:
  "register_valid is_email dto \<Longrightarrow> password_hash a (rg_password dto) = Inr (argon2_hash a (rg_password dto))"
  using utf8_length_bounds [of "rg_password dto"]
  by (auto simp: register_valid_def password_hash_def Let_def MAX_PASSWORD_BYTES_def)

end
