(* ===== verification/Organizations.thy ===== *)
theory Organizations
  imports Constraints
begin

text \<open>
  Organizations and memberships (\<open>organizations/organizations.service.ts\<close>): which organizations a
  user sees, the membership a request is authorized by, and renaming.
\<close>

definition listForUser :: "db \<Rightarrow> uuid \<Rightarrow> (membership \<times> organization) list" where
  "listForUser d userId =
     concat (map (\<lambda>m. map (Pair m) (filter (\<lambda>g. mem_organizationId m = org_id g) (organizations d)))
       (filter (\<lambda>m. mem_userId m = userId) (memberships d)))"

definition getMembership :: "db \<Rightarrow> uuid \<Rightarrow> string \<Rightarrow> membership option" where
  "getMembership d userId organizationId =
     find (\<lambda>m. mem_userId m = userId \<and> mem_organizationId m = pg_uuid organizationId) (memberships d)"

definition getOrganization :: "db \<Rightarrow> string \<Rightarrow> organization option" where
  "getOrganization d organizationId = find (\<lambda>g. org_id g = pg_uuid organizationId) (organizations d)"

definition update_organization_valid :: "string \<Rightarrow> bool" where
  "update_organization_valid name \<longleftrightarrow> 1 \<le> length name \<and> length name \<le> 200"

text \<open>\<open>const [row] = ...\<close>: \<open>None\<close> is the \<open>undefined\<close> of an update that matched no row.\<close>

definition renameOrganization :: "env \<Rightarrow> string \<Rightarrow> string \<Rightarrow> db \<Rightarrow> organization option \<times> db" where
  "renameOrganization e organizationId name d =
     (let (returned, d') = update_organizations (\<lambda>g. org_id g = pg_uuid organizationId)
            (\<lambda>g. g\<lparr>org_name := name, org_updatedAt := app_time e\<rparr>) d
      in (case returned of [] \<Rightarrow> None | g # _ \<Rightarrow> Some g, d'))"

lemma getMembership_Some:
  "getMembership d u g = Some m \<Longrightarrow> m \<in> set (memberships d) \<and> mem_userId m = u \<and> mem_organizationId m = pg_uuid g"
  by (auto simp: getMembership_def dest: find_Some_in)

lemma getMembership_iff:
  assumes "db_ok d"
  shows "getMembership d u g = Some m \<longleftrightarrow>
    m \<in> set (memberships d) \<and> mem_userId m = u \<and> mem_organizationId m = pg_uuid g" (is "?L \<longleftrightarrow> ?R")
proof
  assume R: ?R
  then have "getMembership d u g \<noteq> None" by (auto simp: getMembership_def find_None_iff)
  then obtain m' where m': "getMembership d u g = Some m'" by auto
  have "distinct (map (\<lambda>m. (mem_organizationId m, mem_userId m)) (memberships d))"
    using db_okD(3) [OF assms] by (simp add: memberships_ok_def)
  then have "m' = m" using getMembership_Some [OF m'] R by (auto dest: distinct_map_inj)
  with m' show ?L by simp
qed (use getMembership_Some in blast)

text \<open>A membership implies its organization, the invariant \<open>OrganizationsController.getOne\<close> relies on.\<close>

lemma membership_organization:
  assumes "db_ok d" and "getMembership d u g = Some m"
  shows "getOrganization d g \<noteq> None"
proof -
  have "pg_uuid g \<in> org_id ` set (organizations d)"
    using db_okD(3) [OF assms(1)] getMembership_Some [OF assms(2)]
    unfolding memberships_ok_def org_exists_def by metis
  then show ?thesis by (auto simp: getOrganization_def find_None_iff)
qed

lemma renameOrganization_ok: "db_ok d \<Longrightarrow> db_ok (snd (renameOrganization e g name d))"
  using update_organizations_ok [of d "\<lambda>g. g\<lparr>org_name := name, org_updatedAt := app_time e\<rparr>"]
  by (simp add: renameOrganization_def split_beta)

lemma listForUser_iff:
  "(m, g) \<in> set (listForUser d u) \<longleftrightarrow>
     m \<in> set (memberships d) \<and> mem_userId m = u \<and> g \<in> set (organizations d) \<and> mem_organizationId m = org_id g"
  by (auto simp: listForUser_def)

end
