(* ===== verification/System.thy ===== *)
theory System
  imports History Dashboard Auth Organizations
begin

text \<open>
  The API as a transition system on the database: one step is one committed or rolled back call of
  a service, with any request that passes its validation, any clock reading and any generated ids.
  Every reachable database satisfies the constraints, the books and the contracts of the
  idempotency and session tables, and no step takes history back.

  A read of the API is a function of the database and no step; \<open>validateToken\<close> is a step for the
  session row it may touch.  \<open>OrdersService.cancelOrder\<close> is \<open>releaseReservation\<close>.
\<close>

section \<open>Steps\<close>

inductive api_step :: "(string \<Rightarrow> string) \<Rightarrow> argon2 \<Rightarrow> db \<Rightarrow> db \<Rightarrow> bool" for sha a where
  register: "api_step sha a d (snd (register a e dto d))"
| login: "api_step sha a d (snd (login a sha e t c ldto d))"
| logout: "api_step sha a d (logout sha now t d)"
| validate: "api_step sha a d (snd (validateToken sha now t d))"
| rotate: "api_step sha a d (snd (rotateCsrfToken sha c s d))"
| rename: "api_step sha a d (snd (renameOrganization e g name d))"
| create_product: "create_product_valid pdto \<Longrightarrow> api_step sha a d (snd (createProduct e g pdto d))"
| adjust: "api_step sha a d (snd (adjustStock sha e g adto key d later))"
| reserve: "reservation_valid rdto \<Longrightarrow> api_step sha a d (snd (createReservation sha e g u rdto key d later))"
| release: "api_step sha a d (snd (releaseReservation sha e g u oid key d later))"
| fulfill: "api_step sha a d (snd (fulfillOrder sha e g u oid key d later))"

inductive api_run :: "(string \<Rightarrow> string) \<Rightarrow> argon2 \<Rightarrow> db \<Rightarrow> db \<Rightarrow> bool" for sha a where
  done_run: "api_run sha a d d"
| step_run: "api_run sha a d d1 \<Longrightarrow> api_step sha a d1 d2 \<Longrightarrow> api_run sha a d d2"

definition reachable :: "(string \<Rightarrow> string) \<Rightarrow> argon2 \<Rightarrow> db \<Rightarrow> bool" where
  "reachable sha a d \<longleftrightarrow> api_run sha a empty_db d"

section \<open>The invariant\<close>

definition key_settled :: "idempotency_key \<Rightarrow> bool" where
  "key_settled k \<longleftrightarrow> idem_state k = Completed \<and> idem_responseStatus k \<noteq> None"

definition api_ok :: "db \<Rightarrow> bool" where
  "api_ok d \<longleftrightarrow> stock_state_ok d \<and> sessions_windowed d \<and> (\<forall>k \<in> set (idempotencyKeys d). key_settled k)"

definition api_history :: "db \<Rightarrow> db \<Rightarrow> bool" where
  "api_history d d' \<longleftrightarrow> history d d' \<and> prefix (idempotencyKeys d) (idempotencyKeys d')"

lemma api_okD:
  assumes "api_ok d"
  shows "db_ok d" "books_ok d" "orders_consistent d" "stock_state_ok d" "sessions_windowed d"
    "\<forall>k \<in> set (idempotencyKeys d). key_settled k"
  using assms by (simp_all add: api_ok_def stock_state_ok_def books_ok_def)

lemma api_ok_empty: "api_ok empty_db"
  by (simp add: api_ok_def stock_state_ok_def orders_consistent_def sessions_windowed_def)
    (simp add: empty_db_def)

lemma api_history_refl [simp]: "api_history d d"
  by (simp add: api_history_def)

lemma api_history_trans: "api_history d d1 \<Longrightarrow> api_history d1 d2 \<Longrightarrow> api_history d d2"
  unfolding api_history_def by (meson history_trans prefix_order.trans)

lemma key_settled_completion [simp]: "key_settled (completion e out k)"
  by (simp add: key_settled_def completion_def)

section \<open>Every step keeps it\<close>

text \<open>Steps that leave the stock tables and the keys alone.\<close>

lemma api_keep:
  assumes "api_ok d" and "db_ok d'" and "sessions_windowed d'"
    and "products d' = products d" and "inventory d' = inventory d"
    and "inventoryMovements d' = inventoryMovements d" and "orders d' = orders d"
    and "orderItems d' = orderItems d" and "auditLog d' = auditLog d" and "idempotencyKeys d' = idempotencyKeys d"
  shows "api_ok d' \<and> api_history d d'"
  using assms stock_state_ok_frame [of d d'] by (simp add: api_ok_def api_history_def history_def)

text \<open>The guarded stock operations, from what their contract gives.\<close>

lemma api_guarded:
  assumes "api_ok d"
    and "stock_state_ok d' \<and> history d d' \<and> sessions d' = sessions d \<and>
      (idempotencyKeys d' = idempotencyKeys d \<or>
       (\<exists>out. idempotencyKeys d' = idempotencyKeys d @ [completion e out (claim_row e rq)]))"
  shows "api_ok d' \<and> api_history d d'"
  using assms by (auto simp: api_ok_def api_history_def sessions_windowed_def)

lemma register_keeps:
  assumes "api_ok d"
  shows "api_ok (snd (register a e dto d)) \<and> api_history d (snd (register a e dto d))"
proof -
  let ?d' = "snd (register a e dto d)"
  have "sessions ?d' = sessions d" "products ?d' = products d" "inventory ?d' = inventory d"
    "inventoryMovements ?d' = inventoryMovements d" "orders ?d' = orders d"
    "orderItems ?d' = orderItems d" "auditLog ?d' = auditLog d" "idempotencyKeys ?d' = idempotencyKeys d"
    using register_effect [of a e dto d] by auto
  with api_okD(1,5) [OF assms] register_ok [of d a e dto] show ?thesis
    by (intro api_keep [OF assms]) (simp_all add: sessions_windowed_def)
qed

text \<open>The session service and what it is called by.\<close>

lemma session_keeps:
  assumes "api_ok d" and "session_step sha d (d\<lparr>sessions := ss\<rparr>)" and "db_ok (d\<lparr>sessions := ss\<rparr>)"
  shows "api_ok (d\<lparr>sessions := ss\<rparr>) \<and> api_history d (d\<lparr>sessions := ss\<rparr>)"
  using session_step_windowed [OF assms(2) api_okD(5) [OF assms(1)]] assms(3)
  by (intro api_keep [OF assms(1)]) simp_all

lemma session_frames:
  "\<exists>ss. snd (login a sha e t c ldto d) = d\<lparr>sessions := ss\<rparr>"
  "\<exists>ss. logout sha now t d = d\<lparr>sessions := ss\<rparr>"
  "\<exists>ss. snd (validateToken sha now t d) = d\<lparr>sessions := ss\<rparr>"
  "\<exists>ss. snd (rotateCsrfToken sha c s d) = d\<lparr>sessions := ss\<rparr>"
proof -
  have same: "\<exists>ss. d = d\<lparr>sessions := ss\<rparr>" by (rule exI [of _ "sessions d"]) simp
  show "\<exists>ss. snd (login a sha e t c ldto d) = d\<lparr>sessions := ss\<rparr>"
    using same
    by (auto simp: login_def Let_def createSession_def insert_session_def require_Inr_iff
        split: option.splits sum.splits dest!: andThen_Inr_iff [THEN iffD1])
  show "\<exists>ss. logout sha now t d = d\<lparr>sessions := ss\<rparr>"
    by (auto simp: logout_def revokeByToken_def update_sessions_def)
  show "\<exists>ss. snd (validateToken sha now t d) = d\<lparr>sessions := ss\<rparr>"
    using same by (auto simp: validateToken_def touch_def update_sessions_def split: option.splits)
  show "\<exists>ss. snd (rotateCsrfToken sha c s d) = d\<lparr>sessions := ss\<rparr>"
    by (auto simp: rotateCsrfToken_def update_sessions_def)
qed

lemma login_session_step: "session_step sha d (snd (login a sha e t c ldto d))"
  by (auto simp: login_def Let_def split: option.splits sum.splits
      intro: session_step.intros)

lemma rename_keeps:
  assumes "api_ok d"
  shows "api_ok (snd (renameOrganization e g name d)) \<and> api_history d (snd (renameOrganization e g name d))"
  using api_okD(1,5) [OF assms] renameOrganization_ok [of d e g name]
  by (intro api_keep [OF assms])
    (simp_all add: renameOrganization_def update_organizations_def sessions_windowed_def)

text \<open>A new product starts its own page of the books.\<close>

lemma with_product_books:
  assumes books: "books_ok d" and db: "db_ok (with_product e g dto d)"
    and valid: "create_product_valid dto" and fresh: "new_uuid e 0 \<notin> prod_id ` set (products d)"
  shows "books_ok (with_product e g dto d)" (is "books_ok ?d'")
proof -
  note old = books_okD [OF books]
  let ?p = "new_uuid e 0"
  have no: "\<not> product_of_org d ?p h" for h using fresh by (force simp: product_of_org_def)
  have pend: "pending_units ?d' = pending_units d"
    by (simp add: fun_eq_iff pending_units_def order_pending_def with_product_def)
  have led: "ledger f ?d' p = ledger f d p + (if p = ?p \<and> initial_stock dto > 0 then f (initial_movement e g dto) else 0)" for f p
    by (auto simp: ledger_def with_product_def initial_movement_def)
  have none: "ledger f d ?p = 0" for f
    unfolding ledger_def using db_okD(6) [OF old(1)] no
    by (intro sum_where_False) (auto simp: movements_ok_def)
  have none': "pending_units d ?p = 0"
    unfolding pending_units_def using db_okD(8) [OF old(1)] no
    by (intro sum_where_False) (auto simp: order_items_ok_def)
  have rows: "inv_productId r \<noteq> ?p" if "r \<in> set (inventory d)" for r
    using db_okD(5) [OF old(1)] no that by (auto simp: inventory_ok_def)
  have inv: "set (inventory ?d') = insert (new_inventory e g dto) (set (inventory d))"
    by (simp add: with_product_def)
  have "stocked ?d'"
    using old(2) by (auto simp: stocked_def with_product_def new_product_def new_inventory_def)
  moreover have "reserved_backed ?d'"
    using old(3) none' by (simp add: reserved_backed_def inv pend) (simp add: new_inventory_def)
  moreover have "ledger_explains ?d'"
    using old(4) none rows initial_stock_bounds [OF valid]
    by (auto simp: ledger_explains_def inv led) (auto simp: new_inventory_def initial_movement_def)
  moreover have "lines_distinct ?d'" using old(5) by (simp add: lines_distinct_def with_product_def)
  ultimately show ?thesis using db by (simp add: books_ok_def)
qed


lemma createProduct_effect:
  "snd (createProduct e g dto d) = d \<or>
   (\<exists>detail. create_product_body e g dto d = Inr (detail, snd (createProduct e g dto d)))"
  by (auto simp: createProduct_cases split: sum.splits)

lemma create_product_fresh:
  assumes "create_product_body e g dto d = Inr (detail, d')"
  shows "new_uuid e 0 \<notin> prod_id ` set (products d)"
  using assms
  by (auto simp: create_product_body_def Let_def andThen_Inr_iff insert_product_def require_Inr_iff new_product_def)

lemma createProduct_keeps:
  assumes "api_ok d" and valid: "create_product_valid dto"
  shows "api_ok (snd (createProduct e g dto d)) \<and> api_history d (snd (createProduct e g dto d))"
  using createProduct_effect [of e g dto d]
proof (elim disjE exE)
  fix detail assume b: "create_product_body e g dto d = Inr (detail, snd (createProduct e g dto d))"
  have d': "snd (createProduct e g dto d) = with_product e g dto d" by (rule create_product_body_Inr(1) [OF b])
  have "books_ok (with_product e g dto d)"
    using with_product_books [OF api_okD(2) [OF assms(1)] _ valid create_product_fresh [OF b]]
      create_product_body_ok [OF b api_okD(1) [OF assms(1)]] d' by simp
  then show ?thesis
    using api_okD [OF assms(1)]
    by (simp add: d' api_ok_def api_history_def stock_state_ok_def)
      (simp add: with_product_def orders_consistent_def sessions_windowed_def history_def)
qed (use assms in simp)

lemma createReservation_cases:
  assumes "reservation_valid dto"
  obtains "snd (createReservation sha e g u dto key d later) = d"
  | "distinct (map productId (cr_items dto))" and "snd (createReservation sha e g u dto key d later) =
      snd (idempotent e (create_request sha g dto key) (reserveStock e g u dto) d later)"
proof -
  have "snd (createReservation sha e g u dto key d later) = d \<or>
      distinct (map productId (cr_items dto)) \<and> snd (createReservation sha e g u dto key d later) =
        snd (idempotent e (create_request sha g dto key) (reserveStock e g u dto) d later)"
    by (simp add: createReservation_def Let_def distinct_set_map_eq)
  with that show ?thesis by blast
qed

theorem api_step_keeps:
  assumes "api_step sha a d d'" and "api_ok d"
  shows "api_ok d' \<and> api_history d d'"
  using assms
proof (induction rule: api_step.induct)
  case (login d e t c ldto)
  obtain ss where ss: "snd (login a sha e t c ldto d) = d\<lparr>sessions := ss\<rparr>" using session_frames(1) by blast
  show ?case
    using session_keeps [OF login, of sha ss] login_session_step [of sha d a e t c ldto]
      login_ok [OF api_okD(1) [OF login], of a sha e t c ldto] by (simp add: ss)
next
  case (logout d now t)
  obtain ss where ss: "logout sha now t d = d\<lparr>sessions := ss\<rparr>" using session_frames(2) by blast
  show ?case
    using session_keeps [OF logout, of sha ss] session_step.revoke [of sha d now t]
      revokeByToken_ok [OF api_okD(1) [OF logout], of sha now t] by (simp add: ss logout_def [symmetric])
next
  case (validate d now t)
  obtain ss where ss: "snd (validateToken sha now t d) = d\<lparr>sessions := ss\<rparr>" using session_frames(3) by blast
  show ?case
    using session_keeps [OF validate, of sha ss] session_step.validate [of sha d now t]
      validateToken_ok [OF api_okD(1) [OF validate], of sha now t] by (simp add: ss)
next
  case (rotate d c s)
  obtain ss where ss: "snd (rotateCsrfToken sha c s d) = d\<lparr>sessions := ss\<rparr>" using session_frames(4) by blast
  show ?case
    using session_keeps [OF rotate, of sha ss] session_step.rotate [of sha d c s]
      rotateCsrfToken_ok [OF api_okD(1) [OF rotate], of sha c s] by (simp add: ss)
next
  case (adjust d e g adto key later)
  from adjust_operation.idempotent_keeps [OF TrueI api_okD(4) [OF adjust]] api_guarded [OF adjust]
  show ?case unfolding adjustStock_def by blast
next
  case (reserve rdto d e g u key later)
  show ?case
  proof (cases rule: createReservation_cases [OF reserve(1), of sha e g u key d later])
    case 1
    with reserve(2) show ?thesis by simp
  next
    case 2
    from reserve_operation.idempotent_keeps [OF conjI [OF reserve(1) 2(1)] api_okD(4) [OF reserve(2)]]
      api_guarded [OF reserve(2)]
    show ?thesis unfolding 2(2) by blast
  qed
next
  case (release d e g u oid key later)
  from release_operation.idempotent_keeps [OF TrueI api_okD(4) [OF release]] api_guarded [OF release]
  show ?case unfolding releaseReservation_def by blast
next
  case (fulfill d e g u oid key later)
  from fulfill_operation.idempotent_keeps [OF TrueI api_okD(4) [OF fulfill]] api_guarded [OF fulfill]
  show ?case unfolding fulfillOrder_def by blast
qed (simp_all add: register_keeps rename_keeps createProduct_keeps)

lemma api_run_keeps:
  assumes "api_run sha a d d'" and "api_ok d"
  shows "api_ok d' \<and> api_history d d'"
  using assms
proof (induction rule: api_run.induct)
  case (step_run d d1 d2)
  with api_step_keeps show ?case by (blast intro: api_history_trans)
qed simp

lemma reachable_ok: "reachable sha a d \<Longrightarrow> api_ok d"
  using api_run_keeps api_ok_empty unfolding reachable_def by blast

lemma api_run_trans: "api_run sha a d1 d2 \<Longrightarrow> api_run sha a d d1 \<Longrightarrow> api_run sha a d d2"
  by (induction rule: api_run.induct) (auto intro: api_run.intros)


text \<open>What a replay needs of the key table.\<close>

lemma keys_kept:
  assumes "api_history d d'" and "api_ok d'"
  shows "k \<in> set (idempotencyKeys d) \<Longrightarrow> k \<in> set (idempotencyKeys d')"
    and "distinct (map idem_key_of (idempotencyKeys d'))"
  using assms set_mono_prefix db_okD(9) [OF api_okD(1) [OF assms(2)]]
  by (auto simp: api_history_def idempotency_keys_ok_def)

lemma run_from_reachable:
  assumes "reachable sha a d" and "api_step sha a d d1" and "api_run sha a d1 d2"
  shows "api_ok d" "api_ok d1" "api_ok d2" "api_history d d1" "api_history d1 d2" "api_history d d2"
proof -
  show ok: "api_ok d" using reachable_ok [OF assms(1)] .
  show ok1: "api_ok d1" "api_history d d1" using api_step_keeps [OF assms(2) ok] by simp_all
  show "api_ok d2" and h: "api_history d1 d2" using api_run_keeps [OF assms(3) ok1(1)] by simp_all
  show "api_history d d2" by (rule api_history_trans [OF ok1(2) h])
qed

end
