(* ===== verification/Stock_Spec.thy ===== *)
theory Stock_Spec
  imports System
begin

text \<open>
  What the stock promises, without rows, orders or keys: a map from products to their on-hand and
  reserved units, and four operations on it.  The lemmas show that the services implement it: the
  stock of the database after a call is the specified stock, and the call is accepted exactly when
  the specification allows it.
\<close>

section \<open>The specification\<close>

type_synonym stock = "uuid \<Rightarrow> (int \<times> int) option"

definition stock_of :: "db \<Rightarrow> stock" where
  "stock_of d = map_of (map (\<lambda>r. (inv_productId r, (inv_onHand r, inv_reserved r))) (inventory d))"

definition move :: "int \<Rightarrow> int \<Rightarrow> (uuid \<times> int) list \<Rightarrow> stock \<Rightarrow> stock" where
  "move dh dr items s = (\<lambda>p. map_option
     (\<lambda>(h, r). (h + dh * units fst snd items p, r + dr * units fst snd items p)) (s p))"

definition spec_reserve :: "(uuid \<times> int) list \<Rightarrow> stock \<Rightarrow> stock option" where
  "spec_reserve items s =
     (if \<forall>(p, q) \<in> set items. (case s p of None \<Rightarrow> False | Some (h, r) \<Rightarrow> q \<le> h - r)
      then Some (move 0 1 items s) else None)"

definition spec_available :: "stock \<Rightarrow> uuid \<Rightarrow> int" where
  "spec_available s p = (case s p of None \<Rightarrow> 0 | Some (h, r) \<Rightarrow> h - r)"

definition spec_shortfalls :: "(uuid \<times> int) list \<Rightarrow> stock \<Rightarrow> shortfall list" where
  "spec_shortfalls items s =
     map (\<lambda>(p, q). \<lparr>sf_productId = p, sf_requested = q, sf_available = spec_available s p\<rparr>)
       (filter (\<lambda>(p, q). spec_available s p < q) items)"

definition spec_release :: "(uuid \<times> int) list \<Rightarrow> stock \<Rightarrow> stock" where
  "spec_release items s = move 0 (-1) items s"

definition spec_fulfill :: "(uuid \<times> int) list \<Rightarrow> stock \<Rightarrow> stock" where
  "spec_fulfill items s = move (-1) (-1) items s"

definition spec_adjust :: "uuid \<Rightarrow> int \<Rightarrow> stock \<Rightarrow> stock option" where
  "spec_adjust p delta s =
     (case s p of None \<Rightarrow> None
      | Some (h, r) \<Rightarrow> if r \<le> h + delta \<and> h + delta \<le> PG_INT4_MAX then Some (move 1 0 [(p, delta)] s) else None)"

definition item_pairs :: "reservation_item list \<Rightarrow> (uuid \<times> int) list" where
  "item_pairs items = map (\<lambda>i. (productId i, quantity i)) items"

definition line_pairs :: "order_item list \<Rightarrow> (uuid \<times> int) list" where
  "line_pairs items = map (\<lambda>i. (oi_productId i, oi_quantity i)) items"

lemma units_pairs [simp]:
  "units fst snd (item_pairs items) p = units productId quantity items p"
  "units fst snd (line_pairs lines) p = units oi_productId oi_quantity lines p"
  by (simp_all add: units_def item_pairs_def line_pairs_def sum_where_map comp_def)

lemma move_move: "move a b items (move a' b' items s) = move (a + a') (b + b') items s"
proof
  fix p show "move a b items (move a' b' items s) p = move (a + a') (b + b') items s p"
    by (cases "s p") (auto simp: move_def algebra_simps)
qed

lemma move_0 [simp]: "move 0 0 items s = s"
proof
  fix p show "move 0 0 items s p = s p" by (cases "s p") (auto simp: move_def)
qed

lemma release_after_reserve: "spec_reserve items s = Some s' \<Longrightarrow> spec_release items s' = s"
  by (auto simp: spec_reserve_def spec_release_def move_move split: if_splits)

lemma fulfill_after_reserve: "spec_reserve items s = Some s' \<Longrightarrow> spec_fulfill items s' = move (-1) 0 items s"
  by (auto simp: spec_reserve_def spec_fulfill_def move_move split: if_splits)

section \<open>The database as a stock\<close>

lemma stock_of_Some:
  assumes "db_ok d"
  shows "stock_of d p = Some (h, r) \<longleftrightarrow>
    (\<exists>row \<in> set (inventory d). inv_productId row = p \<and> inv_onHand row = h \<and> inv_reserved row = r)"
proof -
  have "distinct (map fst (map (\<lambda>r. (inv_productId r, (inv_onHand r, inv_reserved r))) (inventory d)))"
    using db_okD(5) [OF assms] by (simp add: inventory_ok_def comp_def)
  then show ?thesis unfolding stock_of_def by (subst map_of_eq_Some_iff) auto
qed

lemma stock_of_apply:
  assumes "inventory d' = map (apply_items dh dr key q t items) (inventory d)"
  shows "stock_of d' = move dh dr (map (\<lambda>i. (key i, q i)) items) (stock_of d)"
proof
  fix p
  have "units fst snd (map (\<lambda>i. (key i, q i)) items) = units key q items"
    by (simp add: fun_eq_iff units_def sum_where_map comp_def)
  then have "map_of (map (\<lambda>r. (inv_productId r, (inv_onHand r, inv_reserved r))) (map (apply_items dh dr key q t items) rows)) p =
      map_option (\<lambda>(h, r). (h + dh * units fst snd (map (\<lambda>i. (key i, q i)) items) p,
          r + dr * units fst snd (map (\<lambda>i. (key i, q i)) items) p))
        (map_of (map (\<lambda>r. (inv_productId r, (inv_onHand r, inv_reserved r))) rows) p)" for rows
    by (induction rows) (auto simp: apply_items_stock)
  then show "stock_of d' p = move dh dr (map (\<lambda>i. (key i, q i)) items) (stock_of d) p"
    by (simp add: stock_of_def assms move_def)
qed

section \<open>Guarded calls\<close>

text \<open>What a guarded call with a free key does, once its work returns.\<close>

lemma idempotent_returns:
  assumes free: "key_free d rq" and org: "org_exists d (pg_uuid (req_organizationId rq))"
    and w: "work (d\<lparr>idempotencyKeys := idempotencyKeys d @ [claim_row e rq]\<rparr>) =
      Inr (out, d2\<lparr>idempotencyKeys := idempotencyKeys d @ [claim_row e rq]\<rparr>)"
  shows "idempotent e rq work d later =
    (unwrapOutcome out, d2\<lparr>idempotencyKeys := idempotencyKeys d @ [completion e out (claim_row e rq)]\<rparr>)"
proof -
  have "update_where (\<lambda>k. idem_key_of k = request_key rq) (completion e out) (idempotencyKeys d @ [claim_row e rq]) =
      idempotencyKeys d @ [completion e out (claim_row e rq)]"
    using free by (auto simp: update_where_def key_free_def image_iff intro!: map_idI)
  then have "guarded_body e rq work d =
      Inr (out, d2\<lparr>idempotencyKeys := idempotencyKeys d @ [completion e out (claim_row e rq)]\<rparr>)"
    using free org w by (simp add: guarded_body_def claim_cases)
  then show ?thesis by (simp add: idempotent_def transaction_def)
qed

text \<open>The stock operations do not look at the key table.\<close>

lemma keys_frame [simp]:
  "locked_by_product g pids (d\<lparr>idempotencyKeys := ks\<rparr>) = locked_by_product g pids d"
  "stock_of (d\<lparr>idempotencyKeys := ks\<rparr>) = stock_of d"
  "order_items_of x (d\<lparr>idempotencyKeys := ks\<rparr>) = order_items_of x d"
  "order_covered g x (d\<lparr>idempotencyKeys := ks\<rparr>) = order_covered g x d"
  "status_of_order g x (d\<lparr>idempotencyKeys := ks\<rparr>) = status_of_order g x d"
  by (simp_all add: locked_by_product_def locked_rows_def stock_of_def order_items_of_def order_covered_def
      status_of_order_def)

lemma after_keys_frame:
  "after_reserve e g u dto (d\<lparr>idempotencyKeys := ks\<rparr>) = (after_reserve e g u dto d)\<lparr>idempotencyKeys := ks\<rparr>"
  "after_release e g u x (d\<lparr>idempotencyKeys := ks\<rparr>) = (after_release e g u x d)\<lparr>idempotencyKeys := ks\<rparr>"
  "after_fulfill e g u x (d\<lparr>idempotencyKeys := ks\<rparr>) = (after_fulfill e g u x d)\<lparr>idempotencyKeys := ks\<rparr>"
  by (simp_all add: after_reserve_def after_release_def after_fulfill_def Let_def)

lemma claim_ok:
  assumes "db_ok d" and "key_free d rq" and "org_exists d (pg_uuid (req_organizationId rq))"
  shows "db_ok (d\<lparr>idempotencyKeys := idempotencyKeys d @ [claim_row e rq]\<rparr>)"
proof (rule insert_idempotency_key_ok [OF assms(1)])
  show "insert_idempotency_key (claim_row e rq) d = Inr (d\<lparr>idempotencyKeys := idempotencyKeys d @ [claim_row e rq]\<rparr>)"
    using assms(2,3)
    by (auto simp: insert_idempotency_key_def require_Inr_iff key_free_def idem_completed_ok_def claim_row_def
        request_key_def idem_key_of_def)
qed


section \<open>Creating a reservation\<close>

lemma matching_length:
  assumes "db_ok d"
  shows "length (filter (\<lambda>p. prod_organizationId p = g \<and> prod_id p \<in> S) (products d)) =
    card (S \<inter> {p. product_of_org d p g})"
proof -
  let ?ps = "filter (\<lambda>p. prod_organizationId p = g \<and> prod_id p \<in> S) (products d)"
  have "distinct (map prod_id ?ps)"
    using db_okD(4) [OF assms] by (simp add: products_ok_def distinct_map_filter)
  from distinct_card [OF this] have "length ?ps = card (prod_id ` set ?ps)" by simp
  moreover have "prod_id ` set ?ps = S \<inter> {p. product_of_org d p g}"
    by (auto simp: product_of_org_def)
  ultimately show ?thesis by simp
qed

text \<open>A request that names each product once, by its printed id, and products of the organization only.\<close>

definition reservation_admissible :: "db \<Rightarrow> string \<Rightarrow> create_reservation_dto \<Rightarrow> bool" where
  "reservation_admissible d g dto \<longleftrightarrow> reservation_valid dto \<and> distinct (map productId (cr_items dto)) \<and>
     (\<forall>i \<in> set (cr_items dto). pg_uuid (productId i) = productId i \<and> product_of_org d (productId i) (pg_uuid g))"

lemma createReservation_admitted:
  assumes db: "db_ok d" and adm: "reservation_admissible d g dto"
  shows "createReservation sha e g u dto key d later =
    idempotent e (create_request sha g dto key) (reserveStock e g u dto) d later"
proof -
  let ?pids = "map productId (cr_items dto)"
  have dist: "distinct ?pids" using adm by (simp add: reservation_admissible_def)
  have "pg_uuid (productId i) = productId i" if "i \<in> set (cr_items dto)" for i
    using adm that unfolding reservation_admissible_def by blast
  then have "map pg_uuid ?pids = ?pids" by (intro map_idI) (auto simp del: map_map)
  then have same: "set (map pg_uuid ?pids) = set ?pids" by (rule arg_cong)
  have "set ?pids \<inter> {p. product_of_org d p (pg_uuid g)} = set ?pids"
    using adm by (auto simp: reservation_admissible_def)
  then have "length (filter (\<lambda>p. prod_organizationId p = pg_uuid g \<and> prod_id p \<in> set (map pg_uuid ?pids)) (products d)) =
      card (set ?pids)"
    unfolding same matching_length [OF db] by simp
  moreover have "card (set ?pids) = length ?pids" using dist by (rule distinct_card)
  ultimately show ?thesis
    unfolding createReservation_def Let_def by (simp only: if_False simp_thms)
qed

text \<open>Under the books, a row is locked for every product the organization has.\<close>

lemma locked_of_product:
  assumes books: "books_ok d" and p: "product_of_org d k (pg_uuid g)" and k: "k \<in> set (map pg_uuid pids)"
  obtains row price where "locked_by_product g pids d k = Some (row, price)" and "row \<in> set (inventory d)"
    and "inv_productId row = k"
proof -
  note db = books_okD(1) [OF books]
  obtain row where row: "row \<in> set (inventory d)" "inv_productId row = k" "inv_organizationId row = pg_uuid g"
    using stocked_row [OF books p] .
  obtain pr where pr: "pr \<in> set (products d)" "prod_id pr = k"
    using p by (auto simp: product_of_org_def)
  have "locked_by_product g pids d k = Some (row, prod_unitPriceCents pr)"
    unfolding locked_by_product_iff [OF db] locked_rows_iff using row pr k
    by (intro conjI bexI [of _ pr]) simp_all
  with row that show ?thesis by blast
qed

lemma locked_available:
  assumes books: "books_ok d" and adm: "reservation_admissible d g dto" and i: "i \<in> set (cr_items dto)"
  defines "locked \<equiv> locked_by_product g (map productId (cr_items dto)) d"
  shows "available_for locked (productId i) = spec_available (stock_of d) (productId i)"
    and "stock_of d (productId i) \<noteq> None"
proof -
  have c: "pg_uuid (productId i) = productId i" "product_of_org d (productId i) (pg_uuid g)"
    using adm i by (auto simp: reservation_admissible_def)
  have "productId i \<in> set (map pg_uuid (map productId (cr_items dto)))"
    using i c(1) by (metis (no_types, lifting) image_eqI list.set_map)
  then obtain row price where l: "locked (productId i) = Some (row, price)"
      "row \<in> set (inventory d)" "inv_productId row = productId i"
    using locked_of_product [OF books c(2)] unfolding locked_def by metis
  then have "stock_of d (productId i) = Some (inv_onHand row, inv_reserved row)"
    using stock_of_Some [OF books_okD(1) [OF books]] by blast
  with l show "available_for locked (productId i) = spec_available (stock_of d) (productId i)"
    and "stock_of d (productId i) \<noteq> None"
    by (simp_all add: available_for_def spec_available_def)
qed

lemma shortfalls_listed:
  assumes "books_ok d" and "reservation_admissible d g dto"
  shows "shortfalls_of (locked_by_product g (map productId (cr_items dto)) d) (cr_items dto) =
    spec_shortfalls (item_pairs (cr_items dto)) (stock_of d)"
  using locked_available(1) [OF assms]
  by (auto simp: shortfalls_of_def spec_shortfalls_def item_pairs_def filter_map o_def intro!: map_cong filter_cong)

lemma shortfalls_spec:
  assumes "books_ok d" and "reservation_admissible d g dto"
  shows "shortfalls_of (locked_by_product g (map productId (cr_items dto)) d) (cr_items dto) = [] \<longleftrightarrow>
    spec_reserve (item_pairs (cr_items dto)) (stock_of d) \<noteq> None"
proof -
  have "\<not> spec_available (stock_of d) (productId i) < quantity i \<longleftrightarrow>
      (case stock_of d (productId i) of None \<Rightarrow> False | Some (h, r) \<Rightarrow> quantity i \<le> h - r)"
    if "i \<in> set (cr_items dto)" for i
    using locked_available(2) [OF assms that] by (auto simp: spec_available_def)
  moreover have "spec_shortfalls (item_pairs items) s = [] \<longleftrightarrow> (\<forall>i \<in> set items. \<not> spec_available s (productId i) < quantity i)"
    for items s by (simp add: spec_shortfalls_def item_pairs_def filter_empty_conv)
  moreover have "spec_reserve (item_pairs items) s \<noteq> None \<longleftrightarrow>
      (\<forall>i \<in> set items. case s (productId i) of None \<Rightarrow> False | Some (h, r) \<Rightarrow> quantity i \<le> h - r)" for items s
    by (simp add: spec_reserve_def item_pairs_def)
  ultimately show ?thesis unfolding shortfalls_listed [OF assms] by blast
qed

lemma createReservation_outcome:
  assumes books: "books_ok d" and adm: "reservation_admissible d g dto"
    and free: "key_free d (create_request sha g dto key)"
    and usr: "user_exists d (pg_uuid u)" and fresh: "new_uuid e 0 \<notin> ord_id ` set (orders d)"
  defines "locked \<equiv> locked_by_product g (map productId (cr_items dto)) d"
  defines "rq \<equiv> create_request sha g dto key"
  defines "out \<equiv> (if shortfalls_of locked (cr_items dto) = []
      then accept 201 (ReservationBody (reservation_result_of locked (new_order e g dto) (cr_items dto)))
      else reject 409 (MessageShortfalls ''Insufficient stock for one or more requested products.''
        (shortfalls_of locked (cr_items dto))))"
  shows "createReservation sha e g u dto key d later =
    (unwrapOutcome out,
     (if shortfalls_of locked (cr_items dto) = [] then after_reserve e g u dto d else d)
       \<lparr>idempotencyKeys := idempotencyKeys d @ [completion e out (claim_row e rq)]\<rparr>)"
proof -
  note db = books_okD(1) [OF books]
  have ne: "cr_items dto \<noteq> []" and prods: "\<forall>i \<in> set (cr_items dto). product_of_org d (productId i) (pg_uuid g)"
    using adm by (auto simp: reservation_admissible_def reservation_valid_def)
  then have "product_of_org d (productId (hd (cr_items dto))) (pg_uuid g)" by simp
  then have org: "org_exists d (pg_uuid (req_organizationId rq))"
    using db_okD(4) [OF db]
    by (auto simp: product_of_org_def products_ok_def rq_def create_request_def)
  have free': "key_free d rq" using free by (simp add: rq_def)
  let ?d1 = "d\<lparr>idempotencyKeys := idempotencyKeys d @ [claim_row e rq]\<rparr>"
  have db1: "db_ok ?d1" by (rule claim_ok [OF db free' org])
  have "reserveStock e g u dto ?d1 = Inr (out,
      (if shortfalls_of locked (cr_items dto) = [] then after_reserve e g u dto d else d)
        \<lparr>idempotencyKeys := idempotencyKeys d @ [claim_row e rq]\<rparr>)"
  proof (cases "shortfalls_of locked (cr_items dto) = []")
    case True
    have "reserveStock e g u dto ?d1 = Inr (accept 201 (ReservationBody (reservation_result_of
       (locked_by_product g (map productId (cr_items dto)) ?d1) (new_order e g dto) (cr_items dto))),
      after_reserve e g u dto ?d1)"
      using adm usr fresh org True
      by (intro reserveStock_accepts [OF db1])
        (simp_all add: reservation_admissible_def locked_def rq_def create_request_def)
    with True show ?thesis by (simp add: out_def after_keys_frame locked_def)
  next
    case False
    then show ?thesis by (simp add: reserveStock_def Let_def out_def locked_def)
  qed
  then show ?thesis
    unfolding createReservation_admitted [OF db adm] rq_def [symmetric]
    by (rule idempotent_returns [OF free' org])
qed


section \<open>Releasing and fulfilling\<close>

text \<open>The rows that record a transition are within the constraints.\<close>

lemma transition_rows:
  assumes db: "db_ok d" and o': "o' \<in> set (orders d)" "pending_order g x o'" and cov: "order_covered g x d"
  shows "org_exists d (pg_uuid g)"
    and "i \<in> set (order_items_of x d) \<Longrightarrow> product_of_org d (oi_productId i) (pg_uuid g)"
    and "i \<in> set (order_items_of x d) \<Longrightarrow> int4 (- oi_quantity i)"
proof -
  show "org_exists d (pg_uuid g)"
    using db_okD(7) [OF db] o' by (auto simp: orders_ok_def pending_order_def)
  assume i: "i \<in> set (order_items_of x d)"
  show "product_of_org d (oi_productId i) (pg_uuid g)"
  proof -
    obtain r where "r \<in> set (inventory d)" "inv_productId r = oi_productId i" "inv_organizationId r = pg_uuid g"
      using cov i unfolding order_covered_def by blast
    with db_okD(5) [OF db] show ?thesis unfolding inventory_ok_def by metis
  qed
  show "int4 (- oi_quantity i)"
    using order_items_of_ok [OF db i] by (simp add: order_item_ok_def int4_def PG_INT4_MIN_def PG_INT4_MAX_def)
qed

lemma releaseStock_accepts:
  assumes db: "db_ok d" and o': "o' \<in> set (orders d)" "pending_order g x o'" and cov: "order_covered g x d"
    and usr: "user_exists d (pg_uuid u)"
  shows "releaseStock e g u x d = Inr (accept 200 (ReleaseBody \<lparr>rel_orderId = ord_id o', rel_status = Cancelled,
        rel_cancelledAt = Some (toISOString (env_date e))\<rparr>), after_release e g u x d)"
proof -
  note rows = transition_rows [OF db o' cov]
  let ?items = "order_items_of x d" and ?d' = "after_release e g u x d"
  let ?d2 = "d\<lparr>orders := orders ?d', inventory := inventory ?d'\<rparr>"
  let ?d3 = "?d2\<lparr>inventoryMovements := inventoryMovements d @ map (release_movement e g x) ?items\<rparr>"
  have "insert_movements (map (release_movement e g x) ?items) ?d2 = Inr ?d3" if "?items \<noteq> []"
    using that rows
    by (intro trans [OF insert_movements_Inr]) (auto simp: release_movement_def int4_def PG_INT4_MIN_def PG_INT4_MAX_def)
  then have m: "(if ?items \<noteq> [] then insert_movements (map (release_movement e g x) ?items) ?d2 else Inr ?d2) = Inr ?d3"
    by simp
  have "insert_audit (audit_of e g u ''reservation.release'' x NoMetadata) ?d3 = Inr ?d'"
    using rows(1) usr
    by (intro trans [OF insert_audit_Inr [where u = "pg_uuid u"]])
      (simp_all add: audit_of_def after_release_def Let_def)
  with m show ?thesis unfolding releaseStock_pending [OF db o' cov] by simp
qed

lemma fulfillStock_accepts:
  assumes db: "db_ok d" and o': "o' \<in> set (orders d)" "pending_order g x o'" and cov: "order_covered g x d"
    and usr: "user_exists d (pg_uuid u)"
  shows "fulfillStock e g u x d = Inr (accept 200 (FulfillBody \<lparr>ful_orderId = ord_id o', ful_status = Fulfilled,
        ful_fulfilledAt = Some (toISOString (env_date e))\<rparr>), after_fulfill e g u x d)"
proof -
  note rows = transition_rows [OF db o' cov]
  let ?items = "order_items_of x d" and ?d' = "after_fulfill e g u x d"
  let ?d2 = "d\<lparr>orders := orders ?d', inventory := inventory ?d'\<rparr>"
  let ?d3 = "?d2\<lparr>inventoryMovements := inventoryMovements d @ map (fulfillment_movement e g x) ?items\<rparr>"
  have "insert_movements (map (fulfillment_movement e g x) ?items) ?d2 = Inr ?d3" if "?items \<noteq> []"
    using that rows
    by (intro trans [OF insert_movements_Inr]) (auto simp: fulfillment_movement_def int4_def PG_INT4_MIN_def PG_INT4_MAX_def)
  then have m: "(if ?items \<noteq> [] then insert_movements (map (fulfillment_movement e g x) ?items) ?d2 else Inr ?d2) = Inr ?d3"
    by simp
  have "insert_audit (audit_of e g u ''order.fulfill'' x NoMetadata) ?d3 = Inr ?d'"
    using rows(1) usr
    by (intro trans [OF insert_audit_Inr [where u = "pg_uuid u"]])
      (simp_all add: audit_of_def after_fulfill_def Let_def)
  with m show ?thesis unfolding fulfillStock_pending [OF db o' cov] by simp
qed

lemma releaseReservation_outcome:
  fixes e :: env
  assumes books: "books_ok d" and o': "o' \<in> set (orders d)" "pending_order g x o'"
    and free: "key_free d (transition_request sha RELEASE_OPERATION g x key)" and usr: "user_exists d (pg_uuid u)"
  defines "out \<equiv> accept 200 (ReleaseBody \<lparr>rel_orderId = ord_id o', rel_status = Cancelled,
      rel_cancelledAt = Some (toISOString (env_date e))\<rparr>)"
  shows "releaseReservation sha e g u x key d later =
    (Inr (body out), (after_release e g u x d)\<lparr>idempotencyKeys :=
       idempotencyKeys d @ [completion e out (claim_row e (transition_request sha RELEASE_OPERATION g x key))]\<rparr>)"
proof -
  note db = books_okD(1) [OF books]
  let ?rq = "transition_request sha RELEASE_OPERATION g x key"
  let ?d1 = "d\<lparr>idempotencyKeys := idempotencyKeys d @ [claim_row e ?rq]\<rparr>"
  have cov: "order_covered g x d" by (rule books_cover [OF books o'])
  have org: "org_exists d (pg_uuid (req_organizationId ?rq))"
    using transition_rows(1) [OF db o' cov] by (simp add: transition_request_def)
  have "releaseStock e g u x ?d1 = Inr (out, (after_release e g u x d)\<lparr>idempotencyKeys := idempotencyKeys d @ [claim_row e ?rq]\<rparr>)"
    unfolding out_def after_keys_frame [symmetric]
    using o' cov usr by (intro releaseStock_accepts [OF claim_ok [OF db free org]]) simp_all
  from idempotent_returns [where work = "releaseStock e g u x", OF free org this, of later] show ?thesis
    by (simp add: releaseReservation_def unwrapOutcome_def out_def)
qed

lemma fulfillOrder_outcome:
  fixes e :: env
  assumes books: "books_ok d" and o': "o' \<in> set (orders d)" "pending_order g x o'"
    and free: "key_free d (transition_request sha FULFILL_OPERATION g x key)" and usr: "user_exists d (pg_uuid u)"
  defines "out \<equiv> accept 200 (FulfillBody \<lparr>ful_orderId = ord_id o', ful_status = Fulfilled,
      ful_fulfilledAt = Some (toISOString (env_date e))\<rparr>)"
  shows "fulfillOrder sha e g u x key d later =
    (Inr (body out), (after_fulfill e g u x d)\<lparr>idempotencyKeys :=
       idempotencyKeys d @ [completion e out (claim_row e (transition_request sha FULFILL_OPERATION g x key))]\<rparr>)"
proof -
  note db = books_okD(1) [OF books]
  let ?rq = "transition_request sha FULFILL_OPERATION g x key"
  let ?d1 = "d\<lparr>idempotencyKeys := idempotencyKeys d @ [claim_row e ?rq]\<rparr>"
  have cov: "order_covered g x d" by (rule books_cover [OF books o'])
  have org: "org_exists d (pg_uuid (req_organizationId ?rq))"
    using transition_rows(1) [OF db o' cov] by (simp add: transition_request_def)
  have "fulfillStock e g u x ?d1 = Inr (out, (after_fulfill e g u x d)\<lparr>idempotencyKeys := idempotencyKeys d @ [claim_row e ?rq]\<rparr>)"
    unfolding out_def after_keys_frame [symmetric]
    using o' cov usr by (intro fulfillStock_accepts [OF claim_ok [OF db free org]]) simp_all
  from idempotent_returns [where work = "fulfillStock e g u x", OF free org this, of later] show ?thesis
    by (simp add: fulfillOrder_def unwrapOutcome_def out_def)
qed


section \<open>Adjusting\<close>

definition adjustment_rejection :: "inventory_row \<Rightarrow> int \<Rightarrow> outcome" where
  "adjustment_rejection row delta =
     (if inv_onHand row + delta < 0 then
        reject 409 (MessageOnHand ''Adjustment would drive on-hand stock negative.'' (inv_onHand row) delta)
      else if inv_onHand row + delta < inv_reserved row then
        reject 409 (MessageReserved ''Adjustment would reduce on-hand stock below already-reserved stock.''
          (inv_onHand row) (inv_reserved row) delta)
      else reject 422 (Message ''Adjustment would overflow the maximum representable stock quantity.''))"

lemma applyAdjustment_outcome:
  assumes books: "books_ok d" and valid: "adjust_inventory_valid dto"
    and row: "row \<in> set (inventory d)" "inv_productId row = pg_uuid (ad_productId dto)"
      "inv_organizationId row = pg_uuid g"
  shows "if inv_reserved row \<le> inv_onHand row + ad_delta dto \<and> inv_onHand row + ad_delta dto \<le> PG_INT4_MAX
    then \<exists>line. applyAdjustment e g dto d = Inr (accept 200 (InventoryBody line), after_adjust e g dto d) \<and>
      il_onHand line = inv_onHand row + ad_delta dto \<and> il_reserved line = inv_reserved row \<and>
      il_available line = inv_onHand row + ad_delta dto - inv_reserved row
    else applyAdjustment e g dto d = Inr (adjustment_rejection row (ad_delta dto), d)"
proof -
  note db = books_okD(1) [OF books]
  let ?p = "pg_uuid (ad_productId dto)"
  have inv: "inventory_ok d" by (rule db_okD(5) [OF db])
  have row_ok: "inventory_row_ok row" and prod: "product_of_org d ?p (pg_uuid g)"
    using inv row unfolding inventory_ok_def by metis+
  have org: "org_exists d (pg_uuid g)"
    using inv row unfolding inventory_ok_def by metis
  obtain pr where pr: "find (\<lambda>p. prod_id p = ?p \<and> prod_organizationId p = pg_uuid g) (products d) = Some pr"
    using prod by (cases "find (\<lambda>p. prod_id p = ?p \<and> prod_organizationId p = pg_uuid g) (products d)")
      (auto simp: product_of_org_def find_None_iff)
  have "find (\<lambda>r. inv_productId r = ?p \<and> inv_organizationId r = pg_uuid g) (inventory d) \<noteq> None"
    using row by (auto simp: find_None_iff)
  then obtain r where r: "find (\<lambda>r. inv_productId r = ?p \<and> inv_organizationId r = pg_uuid g) (inventory d) = Some r"
    by auto
  then have "r \<in> set (inventory d)" "inv_productId r = ?p" by (auto dest: find_Some_in)
  with row(1,2) inv have "r = row" unfolding inventory_ok_def by (metis distinct_map_inj)
  with r have found: "find (\<lambda>r. inv_productId r = ?p \<and> inv_organizationId r = pg_uuid g) (inventory d) = Some row"
    by simp
  show ?thesis
  proof (cases "inv_reserved row \<le> inv_onHand row + ad_delta dto \<and> inv_onHand row + ad_delta dto \<le> PG_INT4_MAX")
    case True
    note c = change_on_hand_row [OF db found True [THEN conjunct1] True [THEN conjunct2], of e]
    let ?d1 = "d\<lparr>inventory := map (\<lambda>r. if inv_id r = inv_id row
        then shift (ad_delta dto) 0 (app_time e) r else r) (inventory d)\<rparr>"
    have "insert_movements [adjustment_movement e g dto] ?d1 =
        Inr (?d1\<lparr>inventoryMovements := inventoryMovements d @ [adjustment_movement e g dto]\<rparr>)"
      using valid prod org
      by (intro trans [OF insert_movements_Inr])
        (auto simp: adjustment_movement_def adjust_inventory_valid_def int4_def PG_INT4_MIN_def PG_INT4_MAX_def)
    then obtain line d' where w: "applyAdjustment e g dto d = Inr (accept 200 (InventoryBody line), d')"
      and line: "il_onHand line = inv_onHand row + ad_delta dto" "il_reserved line = inv_reserved row"
        "il_available line = inv_onHand row + ad_delta dto - inv_reserved row"
      by (simp add: applyAdjustment_def pr c)
    have "d' = after_adjust e g dto d"
      using applyAdjustment_effect [OF db books_okD(2) [OF books] w] by simp
    with w line True show ?thesis by auto
  next
    case False
    have "0 \<le> inv_reserved row" using row_ok by (simp add: inventory_row_ok_def)
    with False have "change_on_hand e g dto d = Inr (Inl (adjustment_rejection row (ad_delta dto)))"
      by (auto simp: change_on_hand_def found Let_def adjustment_rejection_def)
    then have "applyAdjustment e g dto d = Inr (adjustment_rejection row (ad_delta dto), d)"
      by (simp add: applyAdjustment_def pr)
    with False show ?thesis by auto
  qed
qed

lemma after_adjust_keys_frame:
  "after_adjust e g dto (d\<lparr>idempotencyKeys := ks\<rparr>) = (after_adjust e g dto d)\<lparr>idempotencyKeys := ks\<rparr>"
  by (simp add: after_adjust_def)


lemma adjustStock_outcome:
  assumes books: "books_ok d" and valid: "adjust_inventory_valid dto"
    and prod: "product_of_org d (pg_uuid (ad_productId dto)) (pg_uuid g)"
    and free: "key_free d (adjust_request h g dto key)"
  shows "case spec_adjust (pg_uuid (ad_productId dto)) (ad_delta dto) (stock_of d) of
      Some s \<Rightarrow> (\<exists>line. fst (adjustStock h e g dto key d later) = Inr (InventoryBody line) \<and>
          s (pg_uuid (ad_productId dto)) = Some (il_onHand line, il_reserved line) \<and>
          il_available line = il_onHand line - il_reserved line) \<and>
        stock_of (snd (adjustStock h e g dto key d later)) = s
    | None \<Rightarrow> (\<exists>b code. fst (adjustStock h e g dto key d later) = Inl (HttpException (RejectBody b) code) \<and>
          code \<in> {409, 422}) \<and>
        stock_of (snd (adjustStock h e g dto key d later)) = stock_of d"
proof -
  note db = books_okD(1) [OF books]
  let ?p = "pg_uuid (ad_productId dto)" and ?rq = "adjust_request h g dto key"
  let ?ks = "idempotencyKeys d @ [claim_row e ?rq]"
  let ?d1 = "d\<lparr>idempotencyKeys := ?ks\<rparr>"
  obtain row where row: "row \<in> set (inventory d)" "inv_productId row = ?p" "inv_organizationId row = pg_uuid g"
    using stocked_row [OF books prod] .
  have org: "org_exists d (pg_uuid (req_organizationId ?rq))"
    using db_okD(5) [OF db] row by (auto simp: inventory_ok_def adjust_request_def)
  have books1: "books_ok ?d1"
    using claim_ok [OF db free org] by (intro books_ok_frame [OF books]) simp_all
  have st: "stock_of d ?p = Some (inv_onHand row, inv_reserved row)"
    using stock_of_Some [OF db] row by blast
  have "stock_of (after_adjust e g dto d) = move 1 0 [(?p, ad_delta dto)] (stock_of d)"
    using stock_of_apply [of "after_adjust e g dto d" 1 0 "\<lambda>a. pg_uuid (ad_productId a)" ad_delta "app_time e" "[dto]" d]
    by (simp add: after_adjust_def)
  moreover note applyAdjustment_outcome [OF books1 valid, of row g e]
  ultimately show ?thesis
    using row st idempotent_returns [where work = "applyAdjustment e g dto", OF free org]
    by (auto simp: spec_adjust_def adjustStock_def after_adjust_keys_frame unwrapOutcome_def move_def
        adjustment_rejection_def split: if_splits)
qed

section \<open>Rejections\<close>

lemma status_after_update:
  assumes "books_ok d" and o': "o' \<in> set (orders d)" "pending_order g x o'"
    and upd: "orders d' = update_where (pending_order g x) f (orders d)"
    and f: "\<And>r. ord_id (f r) = ord_id r" "\<And>r. ord_organizationId (f r) = ord_organizationId r"
      "\<And>r. ord_status (f r) = st"
  shows "status_of_order g x d' = Some st"
proof -
  let ?Q = "\<lambda>r. ord_id r = pg_uuid x \<and> ord_organizationId r = pg_uuid g"
  have dist: "distinct (map ord_id (orders d))"
    using db_okD(7) [OF books_okD(1) [OF assms(1)]] by (simp add: orders_ok_def)
  have only: "r = o'" if "r \<in> set (orders d)" "?Q r" for r
    using distinct_map_inj [OF dist that(1) o'(1)] that(2) o'(2) by (simp add: pending_order_def)
  have "f o' \<in> set (update_where (pending_order g x) f (orders d))" "?Q (f o')"
    using o' f(1,2) by (auto simp: set_update_where pending_order_def)
  then have "find ?Q (update_where (pending_order g x) f (orders d)) \<noteq> None"
    unfolding find_None_iff by blast
  then obtain r where r: "find ?Q (update_where (pending_order g x) f (orders d)) = Some r" by auto
  then have "r \<in> set (update_where (pending_order g x) f (orders d))" "?Q r" by (auto dest: find_Some_in)
  then have "ord_status r = st"
    using only o'(2) f by (auto simp: set_update_where)
  with r show ?thesis by (simp add: status_of_order_def upd)
qed

lemma settled_not_pending:
  assumes db: "db_ok d" and st: "status_of_order g x d \<noteq> Some Pending"
  shows "filter (pending_order g x) (orders d) = []"
proof (rule ccontr)
  assume "filter (pending_order g x) (orders d) \<noteq> []"
  then obtain o' where o': "o' \<in> set (orders d)" "pending_order g x o'"
    by (auto simp: filter_empty_conv)
  have "distinct (map ord_id (orders d))" using db_okD(7) [OF db] by (simp add: orders_ok_def)
  then have "find (\<lambda>r. ord_id r = pg_uuid x \<and> ord_organizationId r = pg_uuid g) (orders d) = Some o'"
    using o' by (intro find_unique [where f = ord_id]) (auto simp: pending_order_def)
  with o' st show False by (simp add: status_of_order_def pending_order_def)
qed

lemma releaseReservation_rejects:
  assumes db: "db_ok d" and st: "status_of_order g x d \<noteq> Some Pending" and org: "org_exists d (pg_uuid g)"
    and free: "key_free d (transition_request h RELEASE_OPERATION g x key)"
  shows "(\<exists>m. fst (releaseReservation h e g u x key d later) = Inl (HttpException (RejectBody (Message m))
      (case status_of_order g x d of None \<Rightarrow> 404 | Some s \<Rightarrow> 409))) \<and>
    (\<exists>k. snd (releaseReservation h e g u x key d later) = d\<lparr>idempotencyKeys := idempotencyKeys d @ [k]\<rparr>)"
proof -
  let ?rq = "transition_request h RELEASE_OPERATION g x key"
  let ?d1 = "d\<lparr>idempotencyKeys := idempotencyKeys d @ [claim_row e ?rq]\<rparr>"
  have "filter (pending_order g x) (orders d) = []" by (rule settled_not_pending [OF db st])
  then have "releaseStock e g u x ?d1 = Inr ((case status_of_order g x d of
      None \<Rightarrow> reject 404 (Message ''Reservation not found in this organization.'')
    | Some s \<Rightarrow> reject 409 (Message (''Reservation cannot be released: it is already \"'' @ status_string s @ ''\".''))), ?d1)"
    using releaseStock_settled [of g x ?d1 e u] by (simp add: status_of_order_def cong: option.case_cong)
  from idempotent_returns [where work = "releaseStock e g u x", OF free _ this] org show ?thesis
    by (simp add: releaseReservation_def transition_request_def unwrapOutcome_def split: option.splits) blast
qed

lemma single_item_missed:
  assumes db: "db_ok d" and p: "product_of_org d (pg_uuid k) (pg_uuid g)" and k: "pg_uuid k \<noteq> k" and q: "0 < q"
    and free: "key_free d (create_request h g \<lparr>cr_items = [\<lparr>productId = k, quantity = q\<rparr>], cr_currency = c\<rparr> key)"
  shows "fst (createReservation h e g u \<lparr>cr_items = [\<lparr>productId = k, quantity = q\<rparr>], cr_currency = c\<rparr> key d later) =
    Inl (HttpException (RejectBody (MessageShortfalls
      ''Insufficient stock for one or more requested products.''
      [\<lparr>sf_productId = k, sf_requested = q, sf_available = 0\<rparr>])) 409)"
proof -
  let ?dto = "\<lparr>cr_items = [\<lparr>productId = k, quantity = q\<rparr>], cr_currency = c\<rparr>"
  let ?rq = "create_request h g ?dto key"
  let ?d1 = "d\<lparr>idempotencyKeys := idempotencyKeys d @ [claim_row e ?rq]\<rparr>"
  let ?sf = "[\<lparr>sf_productId = k, sf_requested = q, sf_available = 0\<rparr>]"
  have org: "org_exists d (pg_uuid (req_organizationId ?rq))"
    using db_okD(4) [OF db] p by (auto simp: product_of_org_def products_ok_def create_request_def)
  have "locked_by_product g [k] d k = None"
    using locked_by_product_canonical(1) [of g "[k]" d k] k by (cases "locked_by_product g [k] d k") auto
  then have "shortfalls_of (locked_by_product g [k] d) [\<lparr>productId = k, quantity = q\<rparr>] = ?sf"
    using q by (simp add: shortfalls_of_def available_for_def)
  then have w: "reserveStock e g u ?dto ?d1 =
      Inr (reject 409 (MessageShortfalls ''Insufficient stock for one or more requested products.'' ?sf), ?d1)"
    by (simp add: reserveStock_def Let_def)
  have "length (filter (\<lambda>r. prod_organizationId r = pg_uuid g \<and> prod_id r = pg_uuid k) (products d)) = 1"
    using matching_length [OF db, of "pg_uuid g" "{pg_uuid k}"] p by simp
  then have "createReservation h e g u ?dto key d later = idempotent e ?rq (reserveStock e g u ?dto) d later"
    by (simp add: createReservation_def)
  with idempotent_returns [where work = "reserveStock e g u ?dto", OF free org w] show ?thesis
    by (simp add: unwrapOutcome_def)
qed


section \<open>The same request later\<close>

text \<open>The checks before the transaction decide the same in every later state.\<close>

lemma createReservation_checks:
  assumes "db_ok d"
  shows "createReservation sha e g u dto key d later =
    (let S = set (map productId (cr_items dto)) in
     if card S \<noteq> length (cr_items dto) then
       (Inl (bad_request ''Duplicate product lines are not allowed in a single reservation request.''), d)
     else if card (set (map pg_uuid (map productId (cr_items dto))) \<inter> {p. product_of_org d p (pg_uuid g)}) \<noteq> card S then
       (Inl (bad_request ''One or more products do not exist in this organization.''), d)
     else idempotent e (create_request sha g dto key) (reserveStock e g u dto) d later)"
  unfolding createReservation_def Let_def matching_length [OF assms] by (simp only: length_map)

lemma createReservation_admitted_later:
  assumes ok: "db_ok d" "db_ok d2" and grow: "prefix (products d) (products d2)"
    and first: "createReservation sha e g u dto key d later = (r, d1)"
    and ran: "d1 \<noteq> d"
  shows "createReservation sha e' g u' dto key d2 later' =
    idempotent e' (create_request sha g dto key) (reserveStock e' g u' dto) d2 later'"
proof -
  let ?S = "set (map productId (cr_items dto))" and ?T = "set (map pg_uuid (map productId (cr_items dto)))"
  let ?I = "\<lambda>d. {p. product_of_org d p (pg_uuid g)}"
  have dist: "card ?S = length (cr_items dto)" and all: "card (?T \<inter> ?I d) = card ?S"
    using first ran unfolding createReservation_checks [OF ok(1)] Let_def by (auto split: if_splits)
  have "card ?T \<le> card ?S" unfolding set_map by (rule card_image_le) simp
  then have "?T \<inter> ?I d = ?T"
    using all by (intro card_seteq) auto
  moreover have "?I d \<subseteq> ?I d2" using grow by (auto simp: prefix_def product_of_org_def)
  ultimately have "?T \<inter> ?I d2 = ?T \<inter> ?I d" by blast
  then have "card (?T \<inter> ?I d2) = card ?S" using all by (rule ssubst)
  with dist show ?thesis
    unfolding createReservation_checks [OF ok(2)] Let_def by (simp only: simp_thms if_False)
qed

end
