(* ===== verification/Samples.thy ===== *)
theory Samples
  imports System
begin

text \<open>
  A small concrete run of the API, on which the witnesses evaluate: one organization with two
  products in stock, a pending reservation of both, and its release and fulfillment.
\<close>

definition sample_env :: "nat \<Rightarrow> env" where
  "sample_env n = \<lparr>env_now = int n * 1000000, env_date = int n * 1000,
     env_uuid = (\<lambda>i. [char_of (97 + n), char_of (97 + i)])\<rparr>"

definition sample_argon2 :: argon2 where
  "sample_argon2 = \<lparr>argon2_hash = (\<lambda>p. p), argon2_verify = (\<lambda>h p. Some (h = p))\<rparr>"

definition sample_sha :: "string \<Rightarrow> string" where
  "sample_sha s = s"

definition sample_register :: register_dto where
  "sample_register = \<lparr>rg_email = ''o@x'', rg_password = ''pppppppp'', rg_displayName = ''O'', rg_organizationName = ''Acme''\<rparr>"

definition sample_product :: "string \<Rightarrow> int \<Rightarrow> create_product_dto" where
  "sample_product sku n = \<lparr>cp_sku = sku, cp_name = sku, cp_description = None, cp_unitPriceCents = 250,
     cp_initialOnHand = Some n\<rparr>"

definition sample_org :: uuid where "sample_org = ''aa''"

definition sample_user :: uuid where "sample_user = ''ab''"

definition sample_reservation :: create_reservation_dto where
  "sample_reservation = \<lparr>cr_items = [\<lparr>productId = ''ba'', quantity = 3\<rparr>, \<lparr>productId = ''ca'', quantity = 2\<rparr>],
     cr_currency = None\<rparr>"

definition db_stocked :: db where
  "db_stocked =
   \<lparr>organizations =
    [\<lparr>org_id = ''aa'', org_name = ''Acme'', org_createdAt = 0,
    org_updatedAt = 0\<rparr>],
    users =
    [\<lparr>usr_id = ''ab'', usr_email = ''o@x'', usr_emailNormalized = ''o@x'',
    usr_displayName = ''O'', usr_passwordHash = ''pppppppp'',
    usr_createdAt = 0, usr_updatedAt = 0\<rparr>],
    memberships =
    [\<lparr>mem_organizationId = ''aa'', mem_userId = ''ab'', mem_role = Owner,
    mem_createdAt = 0\<rparr>],
    products =
    [\<lparr>prod_id = ''ba'', prod_organizationId = ''aa'', prod_sku = ''A'',
    prod_skuNormalized = ''a'', prod_name = ''A'',
    prod_description = None, prod_unitPriceCents = 250,
    prod_status = Active, prod_createdAt = 1000000,
    prod_updatedAt = 1000000\<rparr>,
    \<lparr>prod_id = ''ca'', prod_organizationId = ''aa'', prod_sku = ''B'',
    prod_skuNormalized = ''b'', prod_name = ''B'',
    prod_description = None, prod_unitPriceCents = 250,
    prod_status = Active, prod_createdAt = 2000000,
    prod_updatedAt = 2000000\<rparr>],
    inventory =
    [\<lparr>inv_id = ''bb'', inv_organizationId = ''aa'',
    inv_productId = ''ba'', inv_onHand = 10, inv_reserved = 0,
    inv_createdAt = 1000000, inv_updatedAt = 1000000\<rparr>,
    \<lparr>inv_id = ''cb'', inv_organizationId = ''aa'',
    inv_productId = ''ca'', inv_onHand = 4, inv_reserved = 0,
    inv_createdAt = 2000000, inv_updatedAt = 2000000\<rparr>],
    inventoryMovements =
    [\<lparr>mov_organizationId = ''aa'', mov_productId = ''ba'',
    mov_movementType = OnHandAdjustment, mov_onHandDelta = 10,
    mov_reservedDelta = 0,
    mov_reason = ''Initial stock at product creation'',
    mov_reference = None, mov_createdAt = 1000000\<rparr>,
    \<lparr>mov_organizationId = ''aa'', mov_productId = ''ca'',
    mov_movementType = OnHandAdjustment, mov_onHandDelta = 4,
    mov_reservedDelta = 0,
    mov_reason = ''Initial stock at product creation'',
    mov_reference = None, mov_createdAt = 2000000\<rparr>],
    orders = [], orderItems = [], idempotencyKeys = [], auditLog = [],
    sessions = []\<rparr>"

definition db_reserved :: db where
  "db_reserved =
   \<lparr>organizations =
    [\<lparr>org_id = ''aa'', org_name = ''Acme'', org_createdAt = 0,
    org_updatedAt = 0\<rparr>],
    users =
    [\<lparr>usr_id = ''ab'', usr_email = ''o@x'', usr_emailNormalized = ''o@x'',
    usr_displayName = ''O'', usr_passwordHash = ''pppppppp'',
    usr_createdAt = 0, usr_updatedAt = 0\<rparr>],
    memberships =
    [\<lparr>mem_organizationId = ''aa'', mem_userId = ''ab'', mem_role = Owner,
    mem_createdAt = 0\<rparr>],
    products =
    [\<lparr>prod_id = ''ba'', prod_organizationId = ''aa'', prod_sku = ''A'',
    prod_skuNormalized = ''a'', prod_name = ''A'',
    prod_description = None, prod_unitPriceCents = 250,
    prod_status = Active, prod_createdAt = 1000000,
    prod_updatedAt = 1000000\<rparr>,
    \<lparr>prod_id = ''ca'', prod_organizationId = ''aa'', prod_sku = ''B'',
    prod_skuNormalized = ''b'', prod_name = ''B'',
    prod_description = None, prod_unitPriceCents = 250,
    prod_status = Active, prod_createdAt = 2000000,
    prod_updatedAt = 2000000\<rparr>],
    inventory =
    [\<lparr>inv_id = ''bb'', inv_organizationId = ''aa'',
    inv_productId = ''ba'', inv_onHand = 10, inv_reserved = 3,
    inv_createdAt = 1000000, inv_updatedAt = 3000000\<rparr>,
    \<lparr>inv_id = ''cb'', inv_organizationId = ''aa'',
    inv_productId = ''ca'', inv_onHand = 4, inv_reserved = 2,
    inv_createdAt = 2000000, inv_updatedAt = 3000000\<rparr>],
    inventoryMovements =
    [\<lparr>mov_organizationId = ''aa'', mov_productId = ''ba'',
    mov_movementType = OnHandAdjustment, mov_onHandDelta = 10,
    mov_reservedDelta = 0,
    mov_reason = ''Initial stock at product creation'',
    mov_reference = None, mov_createdAt = 1000000\<rparr>,
    \<lparr>mov_organizationId = ''aa'', mov_productId = ''ca'',
    mov_movementType = OnHandAdjustment, mov_onHandDelta = 4,
    mov_reservedDelta = 0,
    mov_reason = ''Initial stock at product creation'',
    mov_reference = None, mov_createdAt = 2000000\<rparr>,
    \<lparr>mov_organizationId = ''aa'', mov_productId = ''ba'',
    mov_movementType = Reservation, mov_onHandDelta = 0,
    mov_reservedDelta = 3, mov_reason = ''Reservation created'',
    mov_reference = Some ''da'', mov_createdAt = 3000000\<rparr>,
    \<lparr>mov_organizationId = ''aa'', mov_productId = ''ca'',
    mov_movementType = Reservation, mov_onHandDelta = 0,
    mov_reservedDelta = 2, mov_reason = ''Reservation created'',
    mov_reference = Some ''da'', mov_createdAt = 3000000\<rparr>],
    orders =
    [\<lparr>ord_id = ''da'', ord_organizationId = ''aa'', ord_status = Pending,
    ord_currency = ''USD'', ord_createdAt = 3000000,
    ord_updatedAt = 3000000, ord_cancelledAt = None,
    ord_fulfilledAt = None\<rparr>],
    orderItems =
    [\<lparr>oi_organizationId = ''aa'', oi_orderId = ''da'',
    oi_productId = ''ba'', oi_quantity = 3, oi_unitPriceCents = 250,
    oi_createdAt = 3000000\<rparr>,
    \<lparr>oi_organizationId = ''aa'', oi_orderId = ''da'',
    oi_productId = ''ca'', oi_quantity = 2, oi_unitPriceCents = 250,
    oi_createdAt = 3000000\<rparr>],
    idempotencyKeys =
    [\<lparr>idem_organizationId = ''aa'',
    idem_operation = ''reservation.create'',
    idem_idempotencyKey = ''k1'',
    idem_requestFingerprint =
    ''{\"currency\":undefined,\"items\":[{\"productId\":\"ba\",\"quantity\":3},{\"productId\":\"ca\",\"quantity\":2}]}'',
    idem_state = Completed, idem_responseStatus = Some 201,
    idem_responseBody =
    ReservationBody
    \<lparr>rr_orderId = ''da'', rr_status = Pending,
    rr_currency = ''USD'',
    rr_items =
    [\<lparr>rir_productId = ''ba'', rir_quantity = 3,
    rir_unitPriceCents = 250\<rparr>,
    \<lparr>rir_productId = ''ca'', rir_quantity = 2,
    rir_unitPriceCents = 250\<rparr>],
    rr_createdAt = ''1970-01-01T00:00:03.000Z''\<rparr>,
    idem_createdAt = 3000000, idem_updatedAt = 3000000,
    idem_expiresAt = 86403000000\<rparr>],
    auditLog =
    [\<lparr>aud_organizationId = ''aa'', aud_actorUserId = Some ''ab'',
    aud_action = ''reservation.create'', aud_resourceType = ''order'',
    aud_resourceId = ''da'',
    aud_metadata =
    MetadataItems
    [\<lparr>productId = ''ba'', quantity = 3\<rparr>,
    \<lparr>productId = ''ca'', quantity = 2\<rparr>],
    aud_createdAt = 3000000\<rparr>],
    sessions = []\<rparr>"

section \<open>The run reaches them\<close>

lemma db_stocked_run:
  "snd (createProduct (sample_env 2) sample_org (sample_product ''B'' 4)
     (snd (createProduct (sample_env 1) sample_org (sample_product ''A'' 10)
       (snd (register sample_argon2 (sample_env 0) sample_register empty_db))))) = db_stocked"
  by code_simp

lemma db_reserved_run:
  "createReservation sample_sha (sample_env 3) sample_org sample_user sample_reservation ''k1'' db_stocked db_stocked =
     (Inr (ReservationBody \<lparr>rr_orderId = ''da'', rr_status = Pending, rr_currency = ''USD'',
        rr_items = [\<lparr>rir_productId = ''ba'', rir_quantity = 3, rir_unitPriceCents = 250\<rparr>,
                    \<lparr>rir_productId = ''ca'', rir_quantity = 2, rir_unitPriceCents = 250\<rparr>],
        rr_createdAt = ''1970-01-01T00:00:03.000Z''\<rparr>), db_reserved)"
  by code_simp

lemma sample_valid:
  "create_product_valid (sample_product ''A'' 10)" "create_product_valid (sample_product ''B'' 4)"
  "reservation_valid sample_reservation"
  by code_simp+

lemma reachable_stocked: "reachable sample_sha sample_argon2 db_stocked"
  unfolding reachable_def db_stocked_run [symmetric]
  by (rule step_run [OF step_run [OF step_run [OF done_run api_step.register]
        api_step.create_product [OF sample_valid(1)]] api_step.create_product [OF sample_valid(2)]])

lemma reachable_reserved: "reachable sample_sha sample_argon2 db_reserved"
proof -
  have "api_step sample_sha sample_argon2 db_stocked
      (snd (createReservation sample_sha (sample_env 3) sample_org sample_user sample_reservation ''k1'' db_stocked db_stocked))"
    by (intro api_step.reserve sample_valid)
  with reachable_stocked show ?thesis
    unfolding reachable_def db_reserved_run snd_conv by (rule step_run)
qed

lemma db_ok_samples: "db_ok db_stocked" "db_ok db_reserved"
  using reachable_ok [OF reachable_stocked] reachable_ok [OF reachable_reserved] api_okD(1) by blast+

end
