(* ===== verification/Stock_Properties.thy ===== *)
theory Stock_Properties
  imports Stock_Spec Samples
begin

text \<open>
  The properties of the stock operations: the refinement of the stock specification, the branches
  that reject, the rows an accepted call leaves behind, and the reservation of a product named by an
  upper-case id.
\<close>

section \<open>Refinement\<close>

text \<open>C2. Creating a reservation implements the stock specification: for a valid request, with a fresh key,
  that names products of the organization once each and by their ids as the database prints them (in
  lower case), it is accepted with the specified new stock exactly when every requested quantity is
  available; otherwise it is rejected with status 409 and lists, in the order of the request, exactly the
  lines that are short with the requested and the available quantity, leaving stock and orders as they were.\<close>

theorem createReservation_refines:
  assumes "reachable h a d" and adm: "reservation_admissible d g dto"
    and "key_free d (create_request h g dto key)"
    and "user_exists d (pg_uuid u)" and "new_uuid e 0 \<notin> ord_id ` set (orders d)"
  shows "case spec_reserve (item_pairs (cr_items dto)) (stock_of d) of
      Some s \<Rightarrow> (\<exists>b. fst (createReservation h e g u dto key d later) = Inr (ReservationBody b)) \<and>
        stock_of (snd (createReservation h e g u dto key d later)) = s
    | None \<Rightarrow> spec_shortfalls (item_pairs (cr_items dto)) (stock_of d) \<noteq> [] \<and>
        fst (createReservation h e g u dto key d later) = Inl (HttpException (RejectBody (MessageShortfalls
          ''Insufficient stock for one or more requested products.''
          (spec_shortfalls (item_pairs (cr_items dto)) (stock_of d)))) 409) \<and>
        stock_of (snd (createReservation h e g u dto key d later)) = stock_of d \<and>
        orders (snd (createReservation h e g u dto key d later)) = orders d"
proof -
  have books: "books_ok d" using reachable_ok [OF assms(1)] api_okD(2) by blast
  note out = createReservation_outcome [OF books adm assms(3-5), of later]
  note spec = shortfalls_spec [OF books adm]
  have "stock_of (after_reserve e g u dto d) = move 0 1 (item_pairs (cr_items dto)) (stock_of d)"
    using stock_of_apply [of "after_reserve e g u dto d" 0 1 productId quantity "app_time e" "cr_items dto" d]
    by (simp add: after_reserve_def Let_def item_pairs_def)
  then show ?thesis
    using spec by (auto simp: out unwrapOutcome_def spec_reserve_def shortfalls_listed [OF books adm] split: if_splits)
qed

theorem createReservation_refines_witness:
  "stock_of (snd (createReservation sample_sha (sample_env 3) sample_org sample_user sample_reservation ''k1''
      db_stocked db_stocked)) = move 0 1 (item_pairs (cr_items sample_reservation)) (stock_of db_stocked)"
proof -
  have adm: "reservation_admissible db_stocked sample_org sample_reservation" by code_simp
  have free: "key_free db_stocked (create_request sample_sha sample_org sample_reservation ''k1'')" by code_simp
  have usr: "user_exists db_stocked (pg_uuid sample_user)" by code_simp
  have fresh: "new_uuid (sample_env 3) 0 \<notin> ord_id ` set (orders db_stocked)" by code_simp
  have "\<forall>(p, q) \<in> set (item_pairs (cr_items sample_reservation)).
      case stock_of db_stocked p of None \<Rightarrow> False | Some (h, r) \<Rightarrow> q \<le> h - r" by code_simp
  then have "spec_reserve (item_pairs (cr_items sample_reservation)) (stock_of db_stocked) =
      Some (move 0 1 (item_pairs (cr_items sample_reservation)) (stock_of db_stocked))"
    unfolding spec_reserve_def by (rule if_P)
  with createReservation_refines [OF reachable_stocked adm free usr fresh, of db_stocked] show ?thesis by simp
qed


text \<open>C6. In a reachable state a pending order can always be released: the call is accepted, the
  stock gets the order's units back as specified, the order is cancelled at the time of the call, and
  the \<open>Invariant violated\<close> exceptions of the loop are not reached.\<close>

theorem releaseReservation_refines:
  assumes "reachable h a d" and "o' \<in> set (orders d)" and "pending_order g x o'"
    and "key_free d (transition_request h RELEASE_OPERATION g x key)" and "user_exists d (pg_uuid u)"
  shows "fst (releaseReservation h e g u x key d later) = Inr (ReleaseBody \<lparr>rel_orderId = ord_id o',
        rel_status = Cancelled, rel_cancelledAt = Some (toISOString (env_date e))\<rparr>) \<and>
    stock_of (snd (releaseReservation h e g u x key d later)) =
      spec_release (line_pairs (order_items_of x d)) (stock_of d) \<and>
    status_of_order g x (snd (releaseReservation h e g u x key d later)) = Some Cancelled"
proof -
  have books: "books_ok d" using reachable_ok [OF assms(1)] api_okD(2) by blast
  have "stock_of (after_release e g u x d) = spec_release (line_pairs (order_items_of x d)) (stock_of d)"
    using stock_of_apply [of "after_release e g u x d" 0 "-1" oi_productId oi_quantity "app_time e" "order_items_of x d" d]
    by (simp add: after_release_def Let_def line_pairs_def spec_release_def)
  moreover have "status_of_order g x (after_release e g u x d) = Some Cancelled"
    by (rule status_after_update [OF books assms(2,3), where f = "cancel_row e"]) (simp_all add: after_release_def Let_def)
  ultimately show ?thesis
    by (simp add: releaseReservation_outcome [OF books assms(2-5)])
qed

text \<open>C7. In a reachable state a pending order can always be fulfilled: the call is accepted, the
  order's units leave both the on-hand and the reserved stock as specified, the order is fulfilled at
  the time of the call, and the \<open>Invariant violated\<close> exceptions of the loop are not reached.\<close>

theorem fulfillOrder_refines:
  assumes "reachable h a d" and "o' \<in> set (orders d)" and "pending_order g x o'"
    and "key_free d (transition_request h FULFILL_OPERATION g x key)" and "user_exists d (pg_uuid u)"
  shows "fst (fulfillOrder h e g u x key d later) = Inr (FulfillBody \<lparr>ful_orderId = ord_id o',
        ful_status = Fulfilled, ful_fulfilledAt = Some (toISOString (env_date e))\<rparr>) \<and>
    stock_of (snd (fulfillOrder h e g u x key d later)) =
      spec_fulfill (line_pairs (order_items_of x d)) (stock_of d) \<and>
    status_of_order g x (snd (fulfillOrder h e g u x key d later)) = Some Fulfilled"
proof -
  have books: "books_ok d" using reachable_ok [OF assms(1)] api_okD(2) by blast
  have "stock_of (after_fulfill e g u x d) = spec_fulfill (line_pairs (order_items_of x d)) (stock_of d)"
    using stock_of_apply [of "after_fulfill e g u x d" "-1" "-1" oi_productId oi_quantity "app_time e" "order_items_of x d" d]
    by (simp add: after_fulfill_def Let_def line_pairs_def spec_fulfill_def)
  moreover have "status_of_order g x (after_fulfill e g u x d) = Some Fulfilled"
    by (rule status_after_update [OF books assms(2,3), where f = "fulfill_row e"]) (simp_all add: after_fulfill_def Let_def)
  ultimately show ?thesis
    by (simp add: fulfillOrder_outcome [OF books assms(2-5)])
qed

lemma sample_order:
  "hd (orders db_reserved) \<in> set (orders db_reserved)"
  "pending_order sample_org ''da'' (hd (orders db_reserved))"
  "key_free db_reserved (transition_request sample_sha RELEASE_OPERATION sample_org ''da'' ''k2'')"
  "key_free db_reserved (transition_request sample_sha FULFILL_OPERATION sample_org ''da'' ''k2'')"
  "user_exists db_reserved (pg_uuid sample_user)"
  by code_simp+

theorem releaseReservation_refines_witness:
  "status_of_order sample_org ''da'' (snd (releaseReservation sample_sha (sample_env 4) sample_org sample_user ''da'' ''k2''
     db_reserved db_reserved)) = Some Cancelled"
  using releaseReservation_refines [OF reachable_reserved sample_order(1-3,5), of "sample_env 4" db_reserved] by blast

theorem fulfillOrder_refines_witness:
  "status_of_order sample_org ''da'' (snd (fulfillOrder sample_sha (sample_env 4) sample_org sample_user ''da'' ''k2''
     db_reserved db_reserved)) = Some Fulfilled"
  using fulfillOrder_refines [OF reachable_reserved sample_order(1,2,4,5), of "sample_env 4" db_reserved] by blast

text \<open>C8. An adjustment implements the stock specification: within the bounds (no less than what is
  reserved, no more than a 32-bit integer) it is accepted with the new figures, and outside them it is
  rejected with status 409 or 422 and the stock unchanged.\<close>

theorem adjustStock_refines:
  assumes "reachable h a d" and "adjust_inventory_valid dto"
    and "product_of_org d (pg_uuid (ad_productId dto)) (pg_uuid g)"
    and "key_free d (adjust_request h g dto key)"
  shows "case spec_adjust (pg_uuid (ad_productId dto)) (ad_delta dto) (stock_of d) of
      Some s \<Rightarrow> (\<exists>line. fst (adjustStock h e g dto key d later) = Inr (InventoryBody line) \<and>
          s (pg_uuid (ad_productId dto)) = Some (il_onHand line, il_reserved line) \<and>
          il_available line = il_onHand line - il_reserved line) \<and>
        stock_of (snd (adjustStock h e g dto key d later)) = s
    | None \<Rightarrow> (\<exists>b code. fst (adjustStock h e g dto key d later) = Inl (HttpException (RejectBody b) code) \<and>
          code \<in> {409, 422}) \<and>
        stock_of (snd (adjustStock h e g dto key d later)) = stock_of d"
proof -
  have books: "books_ok d" using reachable_ok [OF assms(1)] api_okD(2) by blast
  show ?thesis using adjustStock_outcome [OF books assms(2-4), of e later] .
qed

definition sample_adjust :: "int \<Rightarrow> adjust_inventory_dto" where
  "sample_adjust n = \<lparr>ad_productId = ''ba'', ad_delta = n, ad_reason = ''count''\<rparr>"

theorem adjustStock_refines_witness:
  "(\<exists>line. fst (adjustStock sample_sha (sample_env 4) sample_org (sample_adjust 5) ''k2'' db_reserved db_reserved) =
      Inr (InventoryBody line)) \<and>
   (\<exists>b code. fst (adjustStock sample_sha (sample_env 4) sample_org (sample_adjust (-8)) ''k2'' db_reserved db_reserved) =
      Inl (HttpException (RejectBody b) code))"
proof -
  have v: "adjust_inventory_valid (sample_adjust 5)" "adjust_inventory_valid (sample_adjust (-8))" by code_simp+
  have p: "product_of_org db_reserved (pg_uuid (ad_productId (sample_adjust 5))) (pg_uuid sample_org)"
    "product_of_org db_reserved (pg_uuid (ad_productId (sample_adjust (-8)))) (pg_uuid sample_org)" by code_simp+
  have k: "key_free db_reserved (adjust_request sample_sha sample_org (sample_adjust 5) ''k2'')"
    "key_free db_reserved (adjust_request sample_sha sample_org (sample_adjust (-8)) ''k2'')" by code_simp+
  have "spec_adjust (pg_uuid (ad_productId (sample_adjust 5))) (ad_delta (sample_adjust 5)) (stock_of db_reserved) \<noteq> None"
    and "spec_adjust (pg_uuid (ad_productId (sample_adjust (-8)))) (ad_delta (sample_adjust (-8))) (stock_of db_reserved) = None"
    unfolding not_None_eq Option.is_none_def [symmetric] not_None_eq [symmetric] by code_simp+
  with adjustStock_refines [OF reachable_reserved v(1) p(1) k(1), of "sample_env 4" db_reserved]
    adjustStock_refines [OF reachable_reserved v(2) p(2) k(2), of "sample_env 4" db_reserved]
  show ?thesis by auto
qed

text \<open>C15. A product named by an upper-case id is reported out of stock: the request passes the
  validation and the check that the product exists, the row is locked, and the lookup by the id as
  written still misses it, so the call is rejected with 409 and an available quantity of zero,
  whatever the stock is.\<close>

theorem upper_case_id_rejected:
  assumes "reachable h a d" and "product_of_org d (pg_uuid k) (pg_uuid g)" and "pg_uuid k \<noteq> k" and "0 < q"
    and "key_free d (create_request h g \<lparr>cr_items = [\<lparr>productId = k, quantity = q\<rparr>], cr_currency = c\<rparr> key)"
  shows "fst (createReservation h e g u \<lparr>cr_items = [\<lparr>productId = k, quantity = q\<rparr>], cr_currency = c\<rparr> key d later) =
    Inl (HttpException (RejectBody (MessageShortfalls
      ''Insufficient stock for one or more requested products.''
      [\<lparr>sf_productId = k, sf_requested = q, sf_available = 0\<rparr>])) 409)"
proof -
  have db: "db_ok d" using reachable_ok [OF assms(1)] api_okD(1) by blast
  show ?thesis by (rule single_item_missed [OF db assms(2-5)])
qed

theorem upper_case_id_rejected_witness:
  "fst (createReservation sample_sha (sample_env 3) sample_org sample_user
      \<lparr>cr_items = [\<lparr>productId = ''BA'', quantity = 1\<rparr>], cr_currency = None\<rparr> ''k1'' db_stocked db_stocked) =
    Inl (HttpException (RejectBody (MessageShortfalls
      ''Insufficient stock for one or more requested products.''
      [\<lparr>sf_productId = ''BA'', sf_requested = 1, sf_available = 0\<rparr>])) 409)"
proof -
  have "product_of_org db_stocked (pg_uuid ''BA'') (pg_uuid sample_org)" by code_simp
  moreover have "pg_uuid ''BA'' \<noteq> ''BA''" by code_simp
  moreover have "key_free db_stocked (create_request sample_sha sample_org
      \<lparr>cr_items = [\<lparr>productId = ''BA'', quantity = 1\<rparr>], cr_currency = None\<rparr> ''k1'')" by code_simp
  ultimately show ?thesis by (intro upper_case_id_rejected [OF reachable_stocked]) simp_all
qed

section \<open>Settled and unknown orders\<close>

text \<open>Releasing an order that is not pending is rejected with its status, releasing an unknown
  order of the organization with 404; in both cases nothing but the key is recorded.\<close>

theorem releaseReservation_settled:
  assumes "reachable h a d" and "status_of_order g x d \<noteq> Some Pending" and "org_exists d (pg_uuid g)"
    and "key_free d (transition_request h RELEASE_OPERATION g x key)"
  shows "(\<exists>m. fst (releaseReservation h e g u x key d later) = Inl (HttpException (RejectBody (Message m))
      (case status_of_order g x d of None \<Rightarrow> 404 | Some s \<Rightarrow> 409))) \<and>
    (\<exists>k. snd (releaseReservation h e g u x key d later) = d\<lparr>idempotencyKeys := idempotencyKeys d @ [k]\<rparr>)"
proof -
  have db: "db_ok d" using reachable_ok [OF assms(1)] api_okD(1) by blast
  show ?thesis using releaseReservation_rejects [OF db assms(2-4), of e u later] .
qed

theorem releaseReservation_settled_witness:
  "\<exists>m. fst (releaseReservation sample_sha (sample_env 4) sample_org sample_user ''zz'' ''k2'' db_reserved db_reserved) =
    Inl (HttpException (RejectBody (Message m)) 404)"
proof -
  have "status_of_order sample_org ''zz'' db_reserved = None" by code_simp
  moreover have "org_exists db_reserved (pg_uuid sample_org)" by code_simp
  moreover have "key_free db_reserved (transition_request sample_sha RELEASE_OPERATION sample_org ''zz'' ''k2'')"
    by code_simp
  ultimately show ?thesis
    using releaseReservation_settled [OF reachable_reserved, of sample_org "''zz''" "''k2''" "sample_env 4" sample_user db_reserved]
    by simp
qed

end
