(* ===== verification/Row_Locks.thy ===== *)
theory Row_Locks
  imports Prelude "HOL-Library.Multiset"
begin

text \<open>
  Transactions that run side by side, as the services rely on them: PostgreSQL's default isolation
  (READ COMMITTED) with row locks.  A statement that locks a row (\<open>SELECT ... FOR UPDATE\<close>, a
  conditional \<open>UPDATE\<close>, the INSERT of a unique key) waits while another transaction holds the row and
  then sees the row's last committed value; a transaction's writes are seen by nobody until it commits;
  its locks are released when it ends.  This is documented behaviour of the database, no code under
  \<open>src/\<close>; the transactions themselves are in \<open>Concurrent_Stock\<close>.

  The locale \<open>ordered_scripts\<close> states the lock discipline of the services (rows are locked in ascending
  order, only locked rows are written).  Its lemmas: no state is a deadlock, every execution ends, and
  what the interleaved transactions leave is what they leave one after another, in commit order.
\<close>

section \<open>A transaction\<close>

text \<open>
  A transaction locks rows one at a time, each choice depending on what the locked rows hold, and ends
  with its writes and its reply.
\<close>

datatype ('r, 'v, 'a) script =
    Lock 'r "'v \<Rightarrow> ('r, 'v, 'a) script"
  | Finish "('r \<times> 'v) list" 'a

definition write_rows :: "('r \<times> 'v) list \<Rightarrow> ('r \<Rightarrow> 'v) \<Rightarrow> 'r \<Rightarrow> 'v" where
  "write_rows ws s = fold (\<lambda>(r, v) t. t(r := v)) ws s"

primrec run_alone :: "('r, 'v, 'a) script \<Rightarrow> ('r \<Rightarrow> 'v) \<Rightarrow> 'a \<times> ('r \<Rightarrow> 'v)" where
  "run_alone (Lock r k) = (\<lambda>s. run_alone (k (s r)) s)"
| "run_alone (Finish ws a) = (\<lambda>s. (a, write_rows ws s))"

text \<open>
  \<open>frozen r v\<close>: a row \<open>r\<close> that holds \<open>v\<close> never changes again, and the locking statement does not match
  it, so it is read and not kept locked.
\<close>

primrec upward :: "('r::linorder \<Rightarrow> 'v \<Rightarrow> bool) \<Rightarrow> ('r, 'v, 'a) script \<Rightarrow> 'r set \<Rightarrow> bool" where
  "upward frozen (Lock r k) = (\<lambda>H. (\<forall>x \<in> H. x < r) \<and>
     (\<forall>v. upward frozen (k v) (if frozen r v then H else insert r H)))"
| "upward frozen (Finish ws a) = (\<lambda>H. fst ` set ws \<subseteq> H)"

lemma write_rows_simps [simp]:
  "write_rows [] s = s" "write_rows ((r, v) # ws) s = write_rows ws (s(r := v))"
  "write_rows (vs @ ws) s = write_rows ws (write_rows vs s)"
  by (simp_all add: write_rows_def)

lemma write_rows_other: "r \<notin> fst ` set ws \<Longrightarrow> write_rows ws s r = s r"
  by (induction ws arbitrary: s) auto

lemma write_rows_agree:
  assumes "r \<in> fst ` set ws \<or> s r = t r"
  shows "write_rows ws s r = write_rows ws t r"
  using assms
proof (induction ws arbitrary: s t)
  case (Cons w ws)
  obtain x v where w: "w = (x, v)" by force
  show ?case unfolding w write_rows_simps by (rule Cons.IH) (use Cons.prems w in auto)
qed simp

text \<open>What a transaction decides on a store, before it writes.\<close>

primrec decide :: "('r, 'v, 'a) script \<Rightarrow> ('r \<Rightarrow> 'v) \<Rightarrow> ('r \<times> 'v) list \<times> 'a" where
  "decide (Lock r k) = (\<lambda>s. decide (k (s r)) s)"
| "decide (Finish ws a) = (\<lambda>s. (ws, a))"

lemma run_alone_decide: "run_alone p s = (snd (decide p s), write_rows (fst (decide p s)) s)"
  by (induction p) simp_all

section \<open>Many transactions\<close>

datatype ('r, 'v, 'a) task = Running "('r, 'v, 'a) script" | Committed 'a | RolledBack

record ('r, 'v, 'a) schedule =
  rows :: "'r \<Rightarrow> 'v"
  owner :: "'r \<Rightarrow> nat option"
  tasks :: "('r, 'v, 'a) task list"
  commits :: "(nat \<times> 'a) list"

definition begin_all :: "('r \<Rightarrow> 'v) \<Rightarrow> ('r, 'v, 'a) script list \<Rightarrow> ('r, 'v, 'a) schedule" where
  "begin_all s ps = \<lparr>rows = s, owner = (\<lambda>_. None), tasks = map Running ps, commits = []\<rparr>"

definition unlock :: "nat \<Rightarrow> ('r \<Rightarrow> nat option) \<Rightarrow> 'r \<Rightarrow> nat option" where
  "unlock i own = (\<lambda>r. if own r = Some i then None else own r)"

text \<open>
  A step is one transaction's: it gets its next row, it commits, or it is rolled back (a crash, a lost
  connection).
\<close>

inductive sched_step ::
  "('r \<Rightarrow> 'v \<Rightarrow> bool) \<Rightarrow> ('r, 'v, 'a) schedule \<Rightarrow> ('r, 'v, 'a) schedule \<Rightarrow> bool" for frozen where
  lock: "i < length (tasks S) \<Longrightarrow> tasks S ! i = Running (Lock r k) \<Longrightarrow> owner S r = None \<Longrightarrow>
    sched_step frozen S (S\<lparr>owner := (if frozen r (rows S r) then owner S else (owner S)(r := Some i)),
      tasks := (tasks S)[i := Running (k (rows S r))]\<rparr>)"
| commit: "i < length (tasks S) \<Longrightarrow> tasks S ! i = Running (Finish ws a) \<Longrightarrow>
    sched_step frozen S \<lparr>rows = write_rows ws (rows S), owner = unlock i (owner S),
      tasks = (tasks S)[i := Committed a], commits = commits S @ [(i, a)]\<rparr>"
| rollback: "i < length (tasks S) \<Longrightarrow> tasks S ! i = Running p \<Longrightarrow>
    sched_step frozen S (S\<lparr>owner := unlock i (owner S), tasks := (tasks S)[i := RolledBack]\<rparr>)"

inductive sched_run ::
  "('r \<Rightarrow> 'v \<Rightarrow> bool) \<Rightarrow> ('r, 'v, 'a) schedule \<Rightarrow> ('r, 'v, 'a) schedule \<Rightarrow> bool" for frozen where
  no_steps: "sched_run frozen S S"
| one_more: "sched_run frozen S T \<Longrightarrow> sched_step frozen T U \<Longrightarrow> sched_run frozen S U"

definition running :: "('r, 'v, 'a) schedule \<Rightarrow> nat \<Rightarrow> bool" where
  "running S i \<longleftrightarrow> i < length (tasks S) \<and> (case tasks S ! i of Running p \<Rightarrow> True | _ \<Rightarrow> False)"

definition held :: "('r, 'v, 'a) schedule \<Rightarrow> nat \<Rightarrow> 'r set" where
  "held S i = {r. owner S r = Some i}"

definition blocked :: "('r, 'v, 'a) schedule \<Rightarrow> nat \<Rightarrow> bool" where
  \<comment> \<open>its next row is somebody's\<close>
  "blocked S i \<longleftrightarrow> (case tasks S ! i of Running (Lock r k) \<Rightarrow> owner S r \<noteq> None | _ \<Rightarrow> False)"

text \<open>The scripts one after another, in a given order.\<close>

primrec run_serial ::
  "('r, 'v, 'a) script list \<Rightarrow> nat list \<Rightarrow> ('r \<Rightarrow> 'v) \<Rightarrow> (nat \<times> 'a) list \<times> ('r \<Rightarrow> 'v)" where
  "run_serial ps [] s = ([], s)"
| "run_serial ps (i # is) s =
     (let (a, s1) = run_alone (ps ! i) s; (as, s2) = run_serial ps is s1 in ((i, a) # as, s2))"

lemma run_serial_snoc:
  "run_serial ps (is @ [i]) s =
     (let (as, s1) = run_serial ps is s; (a, s2) = run_alone (ps ! i) s1 in (as @ [(i, a)], s2))"
  by (induction "is" arbitrary: s) (auto simp: Let_def split: prod.splits)

section \<open>The invariant\<close>

text \<open>
  A running transaction holds its rows in ascending order below the next one, and on every store that
  agrees with the committed rows where it holds a row or has read a frozen one, the whole transaction
  does what its rest does.
\<close>

definition task_ok :: "('r::linorder \<Rightarrow> 'v \<Rightarrow> bool) \<Rightarrow> ('r, 'v, 'a) script \<Rightarrow> ('r, 'v, 'a) schedule \<Rightarrow> nat \<Rightarrow> bool" where
  "task_ok frozen p0 S i \<longleftrightarrow> (\<forall>p. tasks S ! i = Running p \<longrightarrow> upward frozen p (held S i) \<and>
     (\<forall>s. (\<forall>r. r \<in> held S i \<or> frozen r (rows S r) \<longrightarrow> s r = rows S r) \<longrightarrow> run_alone p0 s = run_alone p s))"

definition owners_ok :: "('r \<Rightarrow> 'v \<Rightarrow> bool) \<Rightarrow> ('r, 'v, 'a) schedule \<Rightarrow> bool" where
  "owners_ok frozen S \<longleftrightarrow> (\<forall>r i. owner S r = Some i \<longrightarrow> running S i \<and> \<not> frozen r (rows S r))"

definition sched_ok ::
  "('r::linorder \<Rightarrow> 'v \<Rightarrow> bool) \<Rightarrow> ('r \<Rightarrow> 'v) \<Rightarrow> ('r, 'v, 'a) script list \<Rightarrow> ('r, 'v, 'a) schedule \<Rightarrow> bool" where
  "sched_ok frozen s0 ps S \<longleftrightarrow> length (tasks S) = length ps \<and> owners_ok frozen S \<and>
     (\<forall>i < length ps. task_ok frozen (ps ! i) S i) \<and>
     run_serial ps (map fst (commits S)) s0 = (commits S, rows S) \<and>
     distinct (map fst (commits S)) \<and>
     (\<forall>i a. (i, a) \<in> set (commits S) \<longleftrightarrow> i < length ps \<and> tasks S ! i = Committed a)"

inductive_cases sched_stepE: "sched_step frozen S T"

lemma task_okD:
  assumes "task_ok frozen p0 S i" and "tasks S ! i = Running p"
  shows "upward frozen p (held S i)"
    and "(\<And>r. r \<in> held S i \<or> frozen r (rows S r) \<Longrightarrow> s r = rows S r) \<Longrightarrow> run_alone p0 s = run_alone p s"
  using assms by (simp_all add: task_ok_def)

text \<open>A transaction notices nothing of steps that leave its rows and the frozen rows alone.\<close>

lemma task_ok_frame:
  assumes "task_ok frozen p0 S i" and "tasks T ! i = tasks S ! i" and "held T i = held S i"
    and same: "\<And>r. r \<in> held S i \<or> frozen r (rows S r) \<Longrightarrow> rows T r = rows S r"
  shows "task_ok frozen p0 T i"
  unfolding task_ok_def
proof (intro allI impI conjI)
  fix p assume p: "tasks T ! i = Running p"
  note mine = task_okD [OF assms(1) p [unfolded assms(2)]]
  show "upward frozen p (held T i)" using mine(1) by (simp add: assms(3))
  fix s assume s: "\<forall>r. r \<in> held T i \<or> frozen r (rows T r) \<longrightarrow> s r = rows T r"
  show "run_alone p0 s = run_alone p s"
  proof (rule mine(2))
    fix r assume "r \<in> held S i \<or> frozen r (rows S r)"
    then show "s r = rows S r" using s same [of r] assms(3) by auto
  qed
qed

lemma sched_okD:
  assumes "sched_ok frozen s0 ps S"
  shows "length (tasks S) = length ps" "owners_ok frozen S"
    "i < length ps \<Longrightarrow> task_ok frozen (ps ! i) S i"
    "run_serial ps (map fst (commits S)) s0 = (commits S, rows S)"
    "distinct (map fst (commits S))"
    "(i, a) \<in> set (commits S) \<longleftrightarrow> i < length ps \<and> tasks S ! i = Committed a"
  using assms by (simp_all add: sched_ok_def)

lemma begin_all_ok:
  assumes "\<And>p. p \<in> set ps \<Longrightarrow> upward frozen p {}"
  shows "sched_ok frozen s ps (begin_all s ps)"
  using assms by (auto simp: sched_ok_def begin_all_def owners_ok_def task_ok_def held_def)

lemma lock_ok:
  assumes ok: "sched_ok frozen s0 ps S"
    and i: "i < length (tasks S)" "tasks S ! i = Running (Lock r k)" "owner S r = None"
    and T: "T = S\<lparr>owner := (if frozen r (rows S r) then owner S else (owner S)(r := Some i)),
      tasks := (tasks S)[i := Running (k (rows S r))]\<rparr>"
  shows "sched_ok frozen s0 ps T"
proof -
  note parts = sched_okD [OF ok]
  have il: "i < length ps" using i(1) parts(1) by simp
  have held: "held T j = (if j = i \<and> \<not> frozen r (rows S r) then insert r (held S i) else held S j)" for j
    using i(3) by (auto simp: held_def T)
  have kept: "rows T = rows S" "commits T = commits S" "length (tasks T) = length (tasks S)" by (simp_all add: T)
  have task: "tasks T ! j = (if j = i then Running (k (rows S r)) else tasks S ! j)" for j
    using i(1) by (simp add: T)
  note mine = task_okD [OF parts(3) [OF il] i(2)]
  have "task_ok frozen (ps ! i) T i"
    unfolding task_ok_def task kept
  proof (intro allI impI conjI)
    fix p assume "(if i = i then Running (k (rows S r)) else tasks S ! i) = Running p"
    then have p: "p = k (rows S r)" by simp
    have "upward frozen (k (rows S r)) (if frozen r (rows S r) then held S i else insert r (held S i))"
      using mine(1) by simp
    then show "upward frozen p (held T i)" unfolding p held by (simp split: if_splits)
    fix s assume s: "\<forall>x. x \<in> held T i \<or> frozen x (rows S x) \<longrightarrow> s x = rows S x"
    then have "s r = rows S r" by (cases "frozen r (rows S r)") (simp_all add: held)
    moreover have "run_alone (ps ! i) s = run_alone (Lock r k) s"
      by (rule mine(2)) (use s in \<open>auto simp: held split: if_splits\<close>)
    ultimately show "run_alone (ps ! i) s = run_alone p s" by (simp add: p)
  qed
  moreover have "task_ok frozen (ps ! j) T j" if "j < length ps" "j \<noteq> i" for j
    using that by (intro task_ok_frame [OF parts(3) [OF that(1)]]) (simp_all add: held task kept)
  ultimately have "\<forall>j < length ps. task_ok frozen (ps ! j) T j" by blast
  moreover have "owners_ok frozen T"
    using parts(2) i(1) unfolding owners_ok_def running_def T by (auto simp: nth_list_update split: if_splits)
  moreover have "(tasks T ! j = Committed a) = (tasks S ! j = Committed a)" for j a
    using i by (simp add: task)
  ultimately show ?thesis using parts unfolding sched_ok_def by (simp add: kept)
qed

lemma held_unlock: "held (S\<lparr>owner := unlock i (owner S), tasks := ts\<rparr>) j = (if j = i then {} else held S j)"
  by (auto simp: held_def unlock_def)

lemma commit_ok:
  assumes ok: "sched_ok frozen s0 ps S"
    and i: "i < length (tasks S)" "tasks S ! i = Running (Finish ws a)"
  shows "sched_ok frozen s0 ps \<lparr>rows = write_rows ws (rows S), owner = unlock i (owner S),
      tasks = (tasks S)[i := Committed a], commits = commits S @ [(i, a)]\<rparr>" (is "sched_ok frozen s0 ps ?T")
proof -
  note parts = sched_okD [OF ok]
  have il: "i < length ps" using i(1) parts(1) by simp
  note mine = task_okD [OF parts(3) [OF il] i(2)]
  have mine_rows: "fst ` set ws \<subseteq> held S i" using mine(1) by simp
  have other: "rows ?T r = rows S r" if "r \<notin> held S i" for r
    using that mine_rows by (auto intro!: write_rows_other)
  have thawed: "\<not> frozen r (rows S r)" "r \<notin> held S j" if "r \<in> held S i" "j \<noteq> i" for r j
    using that parts(2) by (auto simp: owners_ok_def held_def)
  have held: "held ?T j = (if j = i then {} else held S j)" for j
    by (auto simp: held_def unlock_def)
  have "task_ok frozen (ps ! j) ?T j" if "j < length ps" for j
  proof (cases "j = i")
    case True
    with i(1) show ?thesis by (simp add: task_ok_def)
  next
    case False
    with that thawed [OF _ False] other show ?thesis
      by (intro task_ok_frame [OF parts(3) [OF that]]) (auto simp: held)
  qed
  moreover have "owners_ok frozen ?T"
    unfolding owners_ok_def
  proof (intro allI impI)
    fix r j assume "owner ?T r = Some j"
    then have j: "owner S r = Some j" "j \<noteq> i" by (simp_all add: unlock_def split: if_splits)
    then have "r \<notin> held S i" by (simp add: held_def)
    then have "rows ?T r = rows S r" by (rule other)
    with parts(2) j show "running ?T j \<and> \<not> frozen r (rows ?T r)" by (auto simp: owners_ok_def running_def)
  qed
  moreover have "run_alone (ps ! i) (rows S) = (a, write_rows ws (rows S))" using mine(2) [of "rows S"] by simp
  then have "run_serial ps (map fst (commits S @ [(i, a)])) s0 = (commits S @ [(i, a)], write_rows ws (rows S))"
    using parts(4) by (simp add: run_serial_snoc)
  moreover have "i \<notin> set (map fst (commits S))"
    using i(2) parts(6) [of i] by auto
  moreover have "(j, b) \<in> set (commits ?T) \<longleftrightarrow> j < length ps \<and> tasks ?T ! j = Committed b" for j b
    using parts(6) [of j b] i il by (cases "j = i") auto
  ultimately show ?thesis using parts(1,5) unfolding sched_ok_def by simp
qed

lemma rollback_ok:
  assumes ok: "sched_ok frozen s0 ps S"
    and i: "i < length (tasks S)" "tasks S ! i = Running p"
  shows "sched_ok frozen s0 ps (S\<lparr>owner := unlock i (owner S), tasks := (tasks S)[i := RolledBack]\<rparr>)"
    (is "sched_ok frozen s0 ps ?T")
proof -
  note parts = sched_okD [OF ok]
  have "task_ok frozen (ps ! j) ?T j" if "j < length ps" for j
  proof (cases "j = i")
    case True
    with i(1) show ?thesis by (simp add: task_ok_def)
  next
    case False
    with that show ?thesis by (intro task_ok_frame [OF parts(3) [OF that]]) (simp_all add: held_unlock)
  qed
  moreover have "owners_ok frozen ?T"
    using parts(2) by (auto simp: owners_ok_def unlock_def running_def nth_list_update split: if_splits)
  moreover have "(j, b) \<in> set (commits S) \<longleftrightarrow> j < length ps \<and> tasks ?T ! j = Committed b" for j b
    using parts(6) [of j b] i by (cases "j = i") auto
  ultimately show ?thesis using parts(1,4,5) unfolding sched_ok_def by simp
qed

lemma sched_step_ok: "sched_step frozen S T \<Longrightarrow> sched_ok frozen s0 ps S \<Longrightarrow> sched_ok frozen s0 ps T"
  by (elim sched_stepE) (simp_all only: lock_ok [OF _ _ _ _ refl] commit_ok rollback_ok)

lemma sched_run_ok: "sched_run frozen S T \<Longrightarrow> sched_ok frozen s0 ps S \<Longrightarrow> sched_ok frozen s0 ps T"
  by (induction rule: sched_run.induct) (auto intro: sched_step_ok)

section \<open>No deadlock\<close>

text \<open>
  Of the transactions that wait, the one that waits for the greatest row waits for nobody who waits.
\<close>

lemma not_all_blocked:
  assumes ok: "sched_ok frozen s0 ps S" and i: "running S i"
  shows "\<exists>j. running S j \<and> \<not> blocked S j"
proof (rule ccontr)
  assume "\<not> ?thesis"
  then have all: "blocked S j" if "running S j" for j using that by blast
  define want where "want j = (case tasks S ! j of Running (Lock r k) \<Rightarrow> r)" for j
  let ?W = "want ` {j. running S j}"
  have "finite {j. running S j}" by (rule finite_subset [of _ "{..< length (tasks S)}"]) (auto simp: running_def)
  then have fin: "finite ?W" "?W \<noteq> {}" using i by auto
  from Max_in [OF this] obtain j where j: "running S j" "want j = Max ?W" by auto
  obtain m where m: "owner S (want j) = Some m"
    using all [OF j(1)] by (auto simp: blocked_def want_def split: task.splits script.splits)
  then have run_m: "running S m" using sched_okD(2) [OF ok] by (auto simp: owners_ok_def)
  then obtain r k where rk: "tasks S ! m = Running (Lock r k)" "want m = r"
    using all [OF run_m] by (auto simp: blocked_def want_def split: task.splits script.splits)
  have "m < length ps" using run_m sched_okD(1) [OF ok] by (simp add: running_def)
  from task_okD(1) [OF sched_okD(3) [OF ok this] rk(1)] have "want j < r"
    using m by (simp add: held_def)
  moreover have "want m \<le> Max ?W" using run_m by (intro Max_ge [OF fin(1)]) simp
  ultimately show False using j(2) rk(2) by simp
qed

lemma unblocked_moves:
  assumes "running S j" and "\<not> blocked S j"
  shows "\<exists>T. sched_step frozen S T \<and> (\<forall>i < length (tasks S). tasks S ! i \<noteq> RolledBack \<longrightarrow> tasks T ! i \<noteq> RolledBack)"
proof -
  obtain p where j: "j < length (tasks S)" "tasks S ! j = Running p"
    using assms(1) by (auto simp: running_def split: task.splits)
  show ?thesis
  proof (cases p)
    case (Lock r k)
    with j assms(2) have free: "owner S r = None" by (auto simp: blocked_def)
    show ?thesis
    proof (intro exI conjI)
      show "sched_step frozen S (S\<lparr>owner := (if frozen r (rows S r) then owner S else (owner S)(r := Some j)),
          tasks := (tasks S)[j := Running (k (rows S r))]\<rparr>)"
        using j free Lock by (intro sched_step.lock) simp_all
    qed (use j in \<open>simp add: nth_list_update\<close>)
  next
    case (Finish ws a)
    show ?thesis
    proof (intro exI conjI)
      show "sched_step frozen S \<lparr>rows = write_rows ws (rows S), owner = unlock j (owner S),
          tasks = (tasks S)[j := Committed a], commits = commits S @ [(j, a)]\<rparr>"
        using j Finish by (intro sched_step.commit) simp_all
    qed (use j in \<open>simp add: nth_list_update\<close>)
  qed
qed

section \<open>Every execution ends\<close>

text \<open>
  A step replaces one task by a smaller one: a script by what follows its first lock, or by the end of
  the transaction.  So the multiset of the tasks decreases in a well-founded order.
\<close>

inductive task_less :: "('r, 'v, 'a) task \<Rightarrow> ('r, 'v, 'a) task \<Rightarrow> bool" where
  next_lock: "task_less (Running (k v)) (Running (Lock r k))"
| committed: "task_less (Committed a) (Running p)"
| rolled_back: "task_less RolledBack (Running p)"

inductive_cases task_lessE: "task_less t u"

lemma wfP_task_less: "wfP (task_less :: ('r, 'v, 'a) task \<Rightarrow> _)"
proof (rule accp_wfpI, rule allI)
  fix t :: "('r, 'v, 'a) task"
  have ended: "Wellfounded.accp task_less (Committed a)" "Wellfounded.accp task_less RolledBack" for a :: 'a
    by (rule accpI, erule task_lessE, simp_all)+
  have "Wellfounded.accp task_less (Running p)" for p :: "('r, 'v, 'a) script"
  proof (induction p)
    case (Lock r k)
    show ?case by (rule accpI, erule task_lessE) (use Lock.IH ended in auto)
  next
    case (Finish ws a)
    show ?case by (rule accpI, erule task_lessE) (use ended in auto)
  qed
  with ended show "Wellfounded.accp task_less t" by (cases t) auto
qed

lemma sched_step_task:
  assumes "sched_step frozen S T"
  shows "\<exists>i t. i < length (tasks S) \<and> tasks T = (tasks S)[i := t] \<and> task_less t (tasks S ! i)"
  using assms
proof cases
  case (lock i r k)
  then show ?thesis by (intro exI [of _ i] exI [of _ "Running (k (rows S r))"]) (simp add: next_lock)
next
  case (commit i ws a)
  then show ?thesis by (intro exI [of _ i] exI [of _ "Committed a"]) (simp add: committed)
next
  case (rollback i p)
  then show ?thesis by (intro exI [of _ i] exI [of _ RolledBack]) (simp add: rolled_back)
qed

lemma sched_step_less:
  assumes "sched_step frozen S T"
  shows "(mset (tasks T), mset (tasks S)) \<in> mult1 {(t, u). task_less t u}"
proof -
  from sched_step_task [OF assms] obtain i t
    where i: "i < length (tasks S)" "tasks T = (tasks S)[i := t]" "task_less t (tasks S ! i)" by blast
  then have "mset (tasks S) = add_mset (tasks S ! i) (mset (tasks S) - {#tasks S ! i#})" by simp
  moreover have "mset (tasks T) = mset (tasks S) - {#tasks S ! i#} + {#t#}"
    using i(1,2) by (simp add: mset_update)
  ultimately show ?thesis using i(3) by (intro mult1I) auto
qed

lemma sched_step_ends: "wfP (\<lambda>T S. sched_step frozen S T)"
proof -
  have "wf (inv_image (mult1 {(t, u). task_less t u}) (\<lambda>S. mset (tasks S)))"
    using wfP_task_less by (intro wf_inv_image wf_mult1) (simp add: wfp_def)
  then show ?thesis
    unfolding wfp_def by (rule wf_subset) (auto dest: sched_step_less)
qed

lemma sched_run_append: "sched_run frozen T U \<Longrightarrow> sched_run frozen S T \<Longrightarrow> sched_run frozen S U"
  by (induction rule: sched_run.induct) (auto intro: sched_run.intros)

lemma runs_to_the_end:
  assumes "sched_ok frozen s0 ps S"
  shows "\<exists>T. sched_run frozen S T \<and> (\<forall>i. \<not> running T i) \<and>
    (\<forall>i < length ps. tasks S ! i \<noteq> RolledBack \<longrightarrow> tasks T ! i \<noteq> RolledBack)"
  using sched_step_ends [of frozen] assms
proof (induction S rule: wfp_induct_rule)
  case (less S)
  show ?case
  proof (cases "\<exists>i. running S i")
    case False
    then show ?thesis by (intro exI [of _ S]) (auto intro: no_steps)
  next
    case True
    then obtain j where "running S j" "\<not> blocked S j" using not_all_blocked [OF less.prems] by blast
    from unblocked_moves [OF this] obtain T where T: "sched_step frozen S T"
      "\<forall>i < length (tasks S). tasks S ! i \<noteq> RolledBack \<longrightarrow> tasks T ! i \<noteq> RolledBack" by blast
    from less.IH [OF T(1) sched_step_ok [OF T(1) less.prems]] obtain U where U: "sched_run frozen T U"
      "\<forall>i. \<not> running U i" "\<forall>i < length ps. tasks T ! i \<noteq> RolledBack \<longrightarrow> tasks U ! i \<noteq> RolledBack" by blast
    have "sched_run frozen S U" by (rule sched_run_append [OF U(1) one_more [OF no_steps T(1)]])
    with T(2) U(2,3) sched_okD(1) [OF less.prems] show ?thesis by (intro exI [of _ U]) simp
  qed
qed

section \<open>Serial executions\<close>

text \<open>One transaction after another, in any order, is one of the executions.\<close>

lemma alone_scheduled:
  assumes "i < length (tasks S)" "tasks S ! i = Running p" and "upward frozen p (held S i)"
    and "\<And>r. owner S r = None \<or> owner S r = Some i"
  shows "sched_run frozen S \<lparr>rows = snd (run_alone p (rows S)), owner = (\<lambda>_. None),
    tasks = (tasks S)[i := Committed (fst (run_alone p (rows S)))],
    commits = commits S @ [(i, fst (run_alone p (rows S)))]\<rparr>"
  using assms
proof (induction p arbitrary: S)
  case (Lock r k)
  have up: "\<forall>x \<in> held S i. x < r" "upward frozen (k v) (if frozen r v then held S i else insert r (held S i))" for v
    using Lock.prems(3) by simp_all
  then have "r \<notin> held S i" by blast
  then have free: "owner S r = None" using Lock.prems(4) [of r] by (auto simp: held_def)
  let ?T = "S\<lparr>owner := (if frozen r (rows S r) then owner S else (owner S)(r := Some i)),
    tasks := (tasks S)[i := Running (k (rows S r))]\<rparr>"
  have step: "sched_step frozen S ?T" by (rule sched_step.lock [OF Lock.prems(1,2) free])
  have "held ?T i = (if frozen r (rows S r) then held S i else insert r (held S i))" by (auto simp: held_def)
  with up(2) have "upward frozen (k (rows S r)) (held ?T i)" by simp
  moreover have "owner ?T x = None \<or> owner ?T x = Some i" for x using Lock.prems(4) by simp
  ultimately have "sched_run frozen ?T \<lparr>rows = snd (run_alone (k (rows S r)) (rows ?T)), owner = (\<lambda>_. None),
      tasks = (tasks ?T)[i := Committed (fst (run_alone (k (rows S r)) (rows ?T)))],
      commits = commits ?T @ [(i, fst (run_alone (k (rows S r)) (rows ?T)))]\<rparr>"
    using Lock.prems(1) by (intro Lock.IH) simp_all
  from sched_run_append [OF this one_more [OF no_steps step]] show ?case by simp
next
  case (Finish ws a)
  have "unlock i (owner S) = (\<lambda>_. None)" using Finish.prems(4) by (auto simp: unlock_def fun_eq_iff)
  with one_more [OF no_steps sched_step.commit [OF Finish.prems(1,2)]] show ?case by simp
qed

lemma serial_scheduled:
  assumes "distinct order" and "\<And>i. i \<in> set order \<Longrightarrow> i < length (tasks S) \<and> tasks S ! i = Running (ps ! i)"
    and "\<And>i. i \<in> set order \<Longrightarrow> upward frozen (ps ! i) {}" and "owner S = (\<lambda>_. None)"
  shows "\<exists>T. sched_run frozen S T \<and> rows T = snd (run_serial ps order (rows S)) \<and>
    commits T = commits S @ fst (run_serial ps order (rows S))"
  using assms
proof (induction order arbitrary: S)
  case Nil
  then show ?case by (auto intro: no_steps)
next
  case (Cons i order)
  let ?a = "fst (run_alone (ps ! i) (rows S))" and ?s = "snd (run_alone (ps ! i) (rows S))"
  let ?T = "\<lparr>rows = ?s, owner = (\<lambda>_. None), tasks = (tasks S)[i := Committed ?a], commits = commits S @ [(i, ?a)]\<rparr>"
  have "held S i = {}" using Cons.prems(4) by (simp add: held_def)
  then have run: "sched_run frozen S ?T"
    using Cons.prems(2-4) by (intro alone_scheduled) simp_all
  have "\<exists>U. sched_run frozen ?T U \<and> rows U = snd (run_serial ps order (rows ?T)) \<and>
      commits U = commits ?T @ fst (run_serial ps order (rows ?T))"
    using Cons.prems by (intro Cons.IH) (auto simp: nth_list_update)
  then obtain U where "sched_run frozen ?T U" "rows U = snd (run_serial ps order ?s)"
    "commits U = commits S @ [(i, ?a)] @ fst (run_serial ps order ?s)" by auto
  with sched_run_append [OF _ run] show ?case
    by (intro exI [of _ U]) (simp add: Let_def split: prod.splits)
qed

text \<open>A frozen row stays as it is.\<close>

lemma frozen_stays:
  assumes "upward frozen p H" and "\<And>x. x \<in> H \<Longrightarrow> \<not> frozen x (s x)" and "frozen r (s r)"
  shows "snd (run_alone p s) r = s r"
  using assms
proof (induction p arbitrary: H)
  case (Lock x k)
  have "upward frozen (k (s x)) (if frozen x (s x) then H else insert x H)" using Lock.prems(1) by simp
  then have "snd (run_alone (k (s x)) s) r = s r"
    using Lock.prems(2,3) by (intro Lock.IH [of "k (s x)"]) (auto split: if_splits)
  then show ?case by simp
next
  case (Finish ws a)
  then have "r \<notin> fst ` set ws" by auto
  then show ?case by (simp add: write_rows_other)
qed

section \<open>The discipline and what follows from it\<close>

locale ordered_scripts =
  fixes frozen :: "'r::linorder \<Rightarrow> 'v \<Rightarrow> bool" and script_of :: "'q \<Rightarrow> ('r, 'v, 'a) script"
  assumes scripts_upward: "upward frozen (script_of q) {}"
begin

lemma run_ok: "sched_run frozen (begin_all s (map script_of qs)) S \<Longrightarrow> sched_ok frozen s (map script_of qs) S"
  using sched_run_ok begin_all_ok scripts_upward by (metis (no_types, lifting) ex_map_conv)

lemma never_stuck:
  assumes "sched_run frozen (begin_all s (map script_of qs)) S" and "running S i"
  shows "\<exists>j. running S j \<and> \<not> blocked S j"
  by (rule not_all_blocked [OF run_ok [OF assms(1)] assms(2)])

lemma can_complete:
  assumes "sched_run frozen (begin_all s (map script_of qs)) S"
  shows "\<exists>T. sched_run frozen S T \<and> (\<forall>i. \<not> running T i) \<and>
    (\<forall>i < length qs. tasks S ! i \<noteq> RolledBack \<longrightarrow> tasks T ! i \<noteq> RolledBack)"
  using runs_to_the_end [OF run_ok [OF assms]] by simp

lemma serializable:
  assumes "sched_run frozen (begin_all s (map script_of qs)) S"
  shows "run_serial (map script_of qs) (map fst (commits S)) s = (commits S, rows S)"
    and "distinct (map fst (commits S))"
    and "set (commits S) = {(i, a). i < length qs \<and> tasks S ! i = Committed a}"
  using sched_okD [OF run_ok [OF assms]] by auto

lemma serial_possible:
  assumes "distinct order" and "set order \<subseteq> {..< length qs}"
  shows "\<exists>T. sched_run frozen (begin_all s (map script_of qs)) T \<and>
    rows T = snd (run_serial (map script_of qs) order s) \<and> commits T = fst (run_serial (map script_of qs) order s)"
  using serial_scheduled [OF assms(1), of "begin_all s (map script_of qs)" "map script_of qs" frozen] assms(2) scripts_upward
  by (auto simp: begin_all_def subset_iff)

lemma frozen_kept: "frozen r (s r) \<Longrightarrow> snd (run_alone (script_of q) s) r = s r"
  by (rule frozen_stays [OF scripts_upward]) simp

end

end
