(* ===== verification/Concurrent_Stock.thy ===== *)
theory Concurrent_Stock
  imports Row_Locks Stock_Spec Samples
begin

text \<open>
  The four stock operations side by side: which rows each locks, in which order, and what it writes
  (\<open>reservations/reservations.service.ts\<close>, \<open>inventory/inventory.service.ts\<close>,
  \<open>idempotency/idempotency.util.ts\<close>).  A row is the idempotency key a call claims, an order, or the
  inventory of a product; of their columns the model keeps what decides a call: a key's fingerprint and
  recorded status, an order's organization, status and lines, an inventory row's two figures.  The
  ledger and the audit log get new rows only, which conflict with nothing.

  A call here has passed the checks the services make before they lock anything, on tables no stock
  operation writes.  The id of a new order is claimed with the key; the code draws it at the INSERT,
  from \<open>gen_random_uuid()\<close>, and nobody can name it before the commit.  A lock on a row that is missing, or an
  order of another organization, is kept to the end here and not taken by the code.
\<close>

section \<open>Rows\<close>

datatype resource = KeyRow "uuid \<times> string \<times> string" | OrderRow uuid | InventoryRow uuid

text \<open>Keys are locked first, then orders, then inventory rows by ascending product id.\<close>

fun lock_rank :: "resource \<Rightarrow> nat \<times> string list" where
  "lock_rank (KeyRow (g, op, k)) = (0, [g, op, k])"
| "lock_rank (OrderRow x) = (1, [x])"
| "lock_rank (InventoryRow p) = (2, [p])"

lemma lock_rank_inj: "lock_rank a = lock_rank b \<Longrightarrow> a = b"
  by (cases a rule: lock_rank.cases; cases b rule: lock_rank.cases) auto

instantiation resource :: linorder
begin

definition less_eq_resource :: "resource \<Rightarrow> resource \<Rightarrow> bool" where
  "a \<le> b \<longleftrightarrow> fst (lock_rank a) < fst (lock_rank b) \<or>
     fst (lock_rank a) = fst (lock_rank b) \<and> snd (lock_rank a) \<le> snd (lock_rank b)"

definition less_resource :: "resource \<Rightarrow> resource \<Rightarrow> bool" where
  "a < b \<longleftrightarrow> fst (lock_rank a) < fst (lock_rank b) \<or>
     fst (lock_rank a) = fst (lock_rank b) \<and> snd (lock_rank a) < snd (lock_rank b)"

instance
proof
  fix a b c :: resource
  show "a < b \<longleftrightarrow> a \<le> b \<and> \<not> b \<le> a" by (auto simp: less_eq_resource_def less_resource_def)
  show "a \<le> a" by (simp add: less_eq_resource_def)
  show "a \<le> c" if "a \<le> b" "b \<le> c" using that by (auto simp: less_eq_resource_def)
  show "a = b" if "a \<le> b" "b \<le> a"
    using that by (intro lock_rank_inj) (auto simp: less_eq_resource_def intro: prod_eqI)
  show "a \<le> b \<or> b \<le> a" by (auto simp: less_eq_resource_def)
qed

end

lemma lock_order [simp]:
  "KeyRow k < OrderRow x" "KeyRow k < InventoryRow p" "OrderRow x < InventoryRow p"
  "InventoryRow p < InventoryRow q \<longleftrightarrow> p < q"
  by (cases k; simp add: less_resource_def)+

datatype row_value =
    NoRow
  | KeyOf string nat                                  \<comment> \<open>fingerprint, recorded status\<close>
  | OrderOf uuid order_status "(uuid \<times> int) list"     \<comment> \<open>organization, status, lines\<close>
  | StockOf int int                                   \<comment> \<open>on hand, reserved\<close>

text \<open>A recorded key and a settled order never change again, and no statement locks them.\<close>

fun frozen :: "resource \<Rightarrow> row_value \<Rightarrow> bool" where
  "frozen (KeyRow k) v \<longleftrightarrow> v \<noteq> NoRow"
| "frozen (OrderRow x) (OrderOf g st lines) \<longleftrightarrow> st \<noteq> Pending"
| "frozen _ _ \<longleftrightarrow> False"

section \<open>The transactions\<close>

type_synonym stock_script = "(resource, row_value, nat) script"

text \<open>
  Claiming the key waits for another claim of it.  A recorded key ends the transaction, and the reply is
  what \<open>resolveIdempotencyConflict\<close> reads; an exception rolls everything back, with status 500.
\<close>

definition claiming :: "idempotency_request \<Rightarrow> stock_script \<Rightarrow> stock_script" where
  "claiming rq work = Lock (KeyRow (request_key rq)) (\<lambda>v. case v of
       NoRow \<Rightarrow> work
     | KeyOf fp code \<Rightarrow> Finish [] (if fp \<noteq> req_requestFingerprint rq then 409 else code)
     | _ \<Rightarrow> Finish [] 500)"

definition completing :: "idempotency_request \<Rightarrow> nat \<Rightarrow> (resource \<times> row_value) list \<Rightarrow> stock_script" where
  "completing rq code ws = Finish ((KeyRow (request_key rq), KeyOf (req_requestFingerprint rq) code) # ws) code"

text \<open>\<open>SELECT ... WHERE product_id IN (...) ORDER BY product_id FOR UPDATE\<close>, as a map by product id.\<close>

definition locking_order :: "uuid list \<Rightarrow> uuid list" where
  "locking_order ids = sort (remdups ids)"

primrec lock_rows :: "uuid list \<Rightarrow> ((uuid \<Rightarrow> row_value) \<Rightarrow> stock_script) \<Rightarrow> stock_script" where
  "lock_rows [] work = work (\<lambda>_. NoRow)"
| "lock_rows (p # ps) work = Lock (InventoryRow p) (\<lambda>v. lock_rows ps (\<lambda>row. work (row(p := v))))"

definition available :: "row_value \<Rightarrow> int" where
  "available v = (case v of StockOf h r \<Rightarrow> h - r | _ \<Rightarrow> 0)"

definition reserve_units :: "int \<Rightarrow> row_value \<Rightarrow> row_value" where
  "reserve_units q v = (case v of StockOf h r \<Rightarrow> StockOf h (r + q) | _ \<Rightarrow> v)"

definition reserve_body :: "idempotency_request \<Rightarrow> uuid \<Rightarrow> string \<Rightarrow> (uuid \<times> int) list \<Rightarrow> stock_script" where
  "reserve_body rq oid g items = Lock (OrderRow oid) (\<lambda>o'.
     lock_rows (locking_order (map (\<lambda>(p, q). pg_uuid p) items)) (\<lambda>row.
       if list_ex (\<lambda>(p, q). available (row p) < q) items then completing rq 409 []
       else if o' \<noteq> NoRow then Finish [] 500
       else completing rq 201
         ((OrderRow oid, OrderOf (pg_uuid g) Pending (map (\<lambda>(p, q). (pg_uuid p, q)) items)) #
          map (\<lambda>(p, q). (InventoryRow (pg_uuid p), reserve_units q (row p))) items)))"

definition reserve_script ::
  "(string \<Rightarrow> string) \<Rightarrow> env \<Rightarrow> string \<Rightarrow> create_reservation_dto \<Rightarrow> string \<Rightarrow> stock_script" where
  "reserve_script sha e g dto key =
     (let rq = create_request sha g dto key
      in claiming rq (reserve_body rq (new_uuid e 0) g (item_pairs (cr_items dto))))"

text \<open>The loops of \<open>releaseStock\<close> and \<open>fulfillStock\<close>: \<open>None\<close> is the exception.\<close>

definition release_units :: "int \<Rightarrow> row_value \<Rightarrow> row_value option" where
  "release_units q v = (case v of StockOf h r \<Rightarrow> if r < q then None else Some (StockOf h (r - q)) | _ \<Rightarrow> None)"

definition fulfill_units :: "int \<Rightarrow> row_value \<Rightarrow> row_value option" where
  "fulfill_units q v =
     (case v of StockOf h r \<Rightarrow> if r < q \<or> h < q then None else Some (StockOf (h - q) (r - q)) | _ \<Rightarrow> None)"

definition transition_body ::
  "(int \<Rightarrow> row_value \<Rightarrow> row_value option) \<Rightarrow> order_status \<Rightarrow> idempotency_request \<Rightarrow> string \<Rightarrow> string \<Rightarrow> stock_script" where
  "transition_body change new rq g x = Lock (OrderRow (pg_uuid x)) (\<lambda>o'. case o' of
       OrderOf g' st lines \<Rightarrow>
         if g' \<noteq> pg_uuid g then completing rq 404 []
         else if st \<noteq> Pending then completing rq 409 []
         else lock_rows (locking_order (map fst lines)) (\<lambda>row.
           if list_all (\<lambda>(p, q). change q (row p) \<noteq> None) lines
           then completing rq 200 ((OrderRow (pg_uuid x), OrderOf g' new lines) #
             map (\<lambda>(p, q). (InventoryRow p, the (change q (row p)))) lines)
           else Finish [] 500)
     | _ \<Rightarrow> completing rq 404 [])"

definition release_script :: "(string \<Rightarrow> string) \<Rightarrow> string \<Rightarrow> string \<Rightarrow> string \<Rightarrow> stock_script" where
  "release_script sha g x key =
     (let rq = transition_request sha RELEASE_OPERATION g x key
      in claiming rq (transition_body release_units Cancelled rq g x))"

definition fulfill_script :: "(string \<Rightarrow> string) \<Rightarrow> string \<Rightarrow> string \<Rightarrow> string \<Rightarrow> stock_script" where
  "fulfill_script sha g x key =
     (let rq = transition_request sha FULFILL_OPERATION g x key
      in claiming rq (transition_body fulfill_units Fulfilled rq g x))"

definition adjust_script :: "(string \<Rightarrow> string) \<Rightarrow> string \<Rightarrow> adjust_inventory_dto \<Rightarrow> string \<Rightarrow> stock_script" where
  "adjust_script sha g dto key =
     (let rq = adjust_request sha g dto key; p = pg_uuid (ad_productId dto) in
      claiming rq (Lock (InventoryRow p) (\<lambda>v. case v of
          StockOf h r \<Rightarrow>
            if h + ad_delta dto < 0 then completing rq 409 []
            else if h + ad_delta dto < r then completing rq 409 []
            else if h + ad_delta dto > PG_INT4_MAX then completing rq 422 []
            else completing rq 200 [(InventoryRow p, StockOf (h + ad_delta dto) r)]
        | _ \<Rightarrow>
            if ad_delta dto < 0 then completing rq 409 []
            else completing rq 200 [(InventoryRow p, StockOf (ad_delta dto) 0)])))"

datatype stock_call =
    Reserve env string uuid create_reservation_dto string
  | Release env string uuid string string
  | Fulfill env string uuid string string
  | Adjust env string adjust_inventory_dto string

primrec script_of :: "(string \<Rightarrow> string) \<Rightarrow> stock_call \<Rightarrow> stock_script" where
  "script_of sha (Reserve e g u dto key) = reserve_script sha e g dto key"
| "script_of sha (Release e g u x key) = release_script sha g x key"
| "script_of sha (Fulfill e g u x key) = fulfill_script sha g x key"
| "script_of sha (Adjust e g dto key) = adjust_script sha g dto key"

section \<open>Every call locks upward\<close>

lemma upward_claiming:
  assumes "upward frozen work {KeyRow (request_key rq)}"
  shows "upward frozen (claiming rq work) {}"
  using assms by (auto simp: claiming_def split: row_value.split)

lemma upward_completing [simp]:
  "upward frozen (completing rq code ws) H \<longleftrightarrow> KeyRow (request_key rq) \<in> H \<and> fst ` set ws \<subseteq> H"
  by (simp add: completing_def)

lemma upward_lock_rows:
  assumes "sorted_wrt (<) ps" and "\<And>p x. p \<in> set ps \<Longrightarrow> x \<in> H \<Longrightarrow> x < InventoryRow p"
    and "\<And>row. upward frozen (work row) (H \<union> InventoryRow ` set ps)"
  shows "upward frozen (lock_rows ps work) H"
  using assms
proof (induction ps arbitrary: work H)
  case (Cons p ps)
  have "upward frozen (lock_rows ps (\<lambda>row. work (row(p := v)))) (insert (InventoryRow p) H)" for v
    using Cons.prems by (intro Cons.IH) auto
  with Cons.prems(2) show ?case by simp
qed simp

lemma locking_order_sorted [simp]:
  "set (locking_order ids) = set ids" "sorted_wrt (<) (locking_order ids)"
  by (simp_all add: locking_order_def strict_sorted_iff)

lemma inventory_rows [simp]: "InventoryRow p \<in> InventoryRow ` S \<longleftrightarrow> p \<in> S"
  by auto

lemma upward_reserve: "upward frozen (reserve_body rq oid g items) {KeyRow (request_key rq)}"
  by (auto simp: reserve_body_def image_iff intro!: upward_lock_rows, force)

lemma upward_transition: "upward frozen (transition_body change new rq g x) {KeyRow (request_key rq)}"
  by (auto simp: transition_body_def image_iff split: row_value.split intro!: upward_lock_rows, force+)

lemma upward_script: "upward frozen (script_of sha c) {}"
proof (cases c)
  case (Adjust e g dto key)
  then show ?thesis
    by (auto simp: adjust_script_def Let_def intro!: upward_claiming split: row_value.split)
qed (simp_all add: reserve_script_def release_script_def fulfill_script_def Let_def upward_claiming
      upward_reserve upward_transition)

interpretation stock_calls: ordered_scripts frozen "script_of sha"
  by unfold_locales (rule upward_script)

end
