(* ===== verification/Concurrent_Services.thy ===== *)
theory Concurrent_Services
  imports Concurrent_Stock
begin

text \<open>
  The transactions of \<open>Concurrent_Stock\<close> are the services: on the rows of a reachable database, each
  one, run alone, leaves the rows of the database the service leaves, and replies with the service's
  status.  So what interleaved calls leave is what the services leave when called one after another.
\<close>

section \<open>The rows of a database\<close>

definition key_value :: "db \<Rightarrow> uuid \<times> string \<times> string \<Rightarrow> row_value" where
  "key_value d k = (case find (\<lambda>r. idem_key_of r = k) (idempotencyKeys d) of
       None \<Rightarrow> NoRow
     | Some r \<Rightarrow> KeyOf (idem_requestFingerprint r) (case idem_responseStatus r of None \<Rightarrow> 500 | Some n \<Rightarrow> n))"

definition lines_of :: "db \<Rightarrow> uuid \<Rightarrow> (uuid \<times> int) list" where
  "lines_of d x = line_pairs (filter (\<lambda>i. oi_orderId i = x) (orderItems d))"

definition order_value :: "db \<Rightarrow> uuid \<Rightarrow> row_value" where
  "order_value d x = (case find (\<lambda>o'. ord_id o' = x) (orders d) of
       None \<Rightarrow> NoRow
     | Some o' \<Rightarrow> OrderOf (ord_organizationId o') (ord_status o') (lines_of d x))"

definition stock_value :: "db \<Rightarrow> uuid \<Rightarrow> row_value" where
  "stock_value d p = (case stock_of d p of None \<Rightarrow> NoRow | Some (h, r) \<Rightarrow> StockOf h r)"

fun rows_of :: "db \<Rightarrow> resource \<Rightarrow> row_value" where
  "rows_of d (KeyRow k) = key_value d k"
| "rows_of d (OrderRow x) = order_value d x"
| "rows_of d (InventoryRow p) = stock_value d p"

section \<open>Running a transaction alone\<close>

lemma write_rows_upd:
  "r \<notin> fst ` set ws \<Longrightarrow> write_rows ws (s(r := v)) = (write_rows ws s)(r := v)"
proof (induction ws arbitrary: s)
  case (Cons w ws)
  obtain x u where w: "w = (x, u)" by force
  with Cons.prems have "r \<noteq> x" "r \<notin> fst ` set ws" by auto
  then show ?case using Cons.IH [of "s(x := u)"] fun_upd_twist [OF \<open>r \<noteq> x\<close>, of s v u]
    by (simp del: fun_upd_apply add: w)
qed simp

lemma write_rows_items:
  assumes "distinct (map fst items)"
  shows "write_rows (map (\<lambda>(p, q). (InventoryRow p, f p q)) items) s (InventoryRow p) =
    (case map_of items p of None \<Rightarrow> s (InventoryRow p) | Some q \<Rightarrow> f p q)"
  using assms
proof (induction items arbitrary: s)
  case (Cons i items)
  obtain x q where i: "i = (x, q)" by force
  show ?case
  proof (cases "x = p")
    case True
    with Cons.prems i have "InventoryRow p \<notin> fst ` set (map (\<lambda>(p, q). (InventoryRow p, f p q)) items)" by force
    from write_rows_other [OF this] show ?thesis using True by (simp add: i)
  next
    case False
    with Cons show ?thesis by (auto simp: i split: option.split)
  qed
qed simp

lemma write_rows_items_other:
  "(\<forall>p. r \<noteq> InventoryRow p) \<Longrightarrow> write_rows (map (\<lambda>(p, q). (InventoryRow p, f p q)) items) s r = s r"
  by (rule write_rows_other) auto

lemma run_completing [simp]:
  "run_alone (completing rq code ws) s =
     (code, write_rows ws (s(KeyRow (request_key rq) := KeyOf (req_requestFingerprint rq) code)))"
  by (simp add: completing_def)

lemma run_lock_rows [simp]:
  "run_alone (lock_rows ps work) s =
     run_alone (work (\<lambda>p. if p \<in> set ps then s (InventoryRow p) else NoRow)) s"
proof (induction ps arbitrary: work)
  case (Cons p ps)
  have "(\<lambda>x. if x \<in> set ps then s (InventoryRow x) else NoRow)(p := s (InventoryRow p)) =
      (\<lambda>x. if x \<in> set (p # ps) then s (InventoryRow x) else NoRow)" by auto
  with Cons.IH [of "\<lambda>row. work (row(p := s (InventoryRow p)))"] show ?case by simp
qed simp

section \<open>The key\<close>

lemma key_value_NoRow: "key_value d (request_key rq) = NoRow \<longleftrightarrow> key_free d rq"
proof (cases "find (\<lambda>r. idem_key_of r = request_key rq) (idempotencyKeys d)")
  case (Some r)
  from find_Some_in [OF this] have "request_key rq \<in> idem_key_of ` set (idempotencyKeys d)" by force
  with Some show ?thesis by (simp add: key_value_def key_free_def)
next
  case None
  then have "key_free d rq" by (auto simp: key_free_def find_None_iff image_iff)
  with None show ?thesis by (simp add: key_value_def)
qed

lemma run_claiming_free:
  assumes "key_free d rq"
  shows "run_alone (claiming rq work) (rows_of d) = run_alone work (rows_of d)"
  using assms by (simp add: claiming_def key_value_NoRow [symmetric])

lemma key_value_completed:
  assumes "key_free d rq"
  shows "key_value (d2\<lparr>idempotencyKeys := idempotencyKeys d @ [completion e out (claim_row e rq)]\<rparr>) k =
    (if k = request_key rq then KeyOf (req_requestFingerprint rq) (status out) else key_value d k)"
proof -
  have "find P (xs @ [x]) = (case find P xs of None \<Rightarrow> if P x then Some x else None | Some y \<Rightarrow> Some y)"
    for P and xs :: "idempotency_key list" and x by (induction xs) auto
  moreover have "find (\<lambda>r. idem_key_of r = request_key rq) (idempotencyKeys d) = None"
    using assms by (auto simp: key_free_def find_None_iff image_iff)
  ultimately show ?thesis
    by (auto simp: key_value_def split: option.split) (auto simp: completion_def claim_row_def)
qed

lemma rows_of_keys:
  "rows_of (d\<lparr>idempotencyKeys := ks\<rparr>) (OrderRow x) = rows_of d (OrderRow x)"
  "rows_of (d\<lparr>idempotencyKeys := ks\<rparr>) (InventoryRow p) = rows_of d (InventoryRow p)"
  by (simp_all add: order_value_def stock_value_def lines_of_def cong: option.case_cong)

text \<open>What is left to show of a call with a free key: its writes to orders and inventory rows.\<close>

lemma completed_rows:
  assumes free: "key_free d rq" and keys: "idempotencyKeys d2 = idempotencyKeys d"
    and ws: "\<And>k. KeyRow k \<notin> fst ` set ws"
    and orders: "\<And>x. order_value d2 x = write_rows ws (rows_of d) (OrderRow x)"
    and stock: "\<And>p. stock_value d2 p = write_rows ws (rows_of d) (InventoryRow p)"
  shows "run_alone (completing rq (status out) ws) (rows_of d) = (status out,
    rows_of (d2\<lparr>idempotencyKeys := idempotencyKeys d @ [completion e out (claim_row e rq)]\<rparr>))"
proof -
  have "((write_rows ws (rows_of d))(KeyRow (request_key rq) := KeyOf (req_requestFingerprint rq) (status out))) r =
      rows_of (d2\<lparr>idempotencyKeys := idempotencyKeys d @ [completion e out (claim_row e rq)]\<rparr>) r" for r
  proof (cases r)
    case (KeyRow k)
    then show ?thesis using write_rows_other [OF ws, of "rows_of d" k]
      by (simp add: key_value_completed [OF free])
  next
    case (OrderRow x)
    then show ?thesis using orders [of x] rows_of_keys(1) [where d = d2] by simp
  next
    case (InventoryRow p)
    then show ?thesis using stock [of p] rows_of_keys(2) [where d = d2] by simp
  qed
  then show ?thesis by (simp add: write_rows_upd [OF ws] fun_eq_iff)
qed

section \<open>The reply\<close>

text \<open>A reply and the status of a transaction.\<close>

fun has_status :: "nat \<Rightarrow> exn + response_body \<Rightarrow> bool" where
  "has_status code (Inr b) \<longleftrightarrow> code < 400"
| "has_status code (Inl (HttpException b c)) \<longleftrightarrow> code = c \<and> 400 \<le> c"
| "has_status code (Inl _) \<longleftrightarrow> code = 500"

definition accounts_kept :: "db \<Rightarrow> db \<Rightarrow> bool" where
  "accounts_kept d d' \<longleftrightarrow> organizations d' = organizations d \<and> users d' = users d \<and> products d' = products d"

definition serves :: "stock_script \<Rightarrow> db \<Rightarrow> (exn + response_body) \<times> db \<Rightarrow> bool" where
  "serves p d result \<longleftrightarrow> accounts_kept d (snd result) \<and>
     (\<exists>code. run_alone p (rows_of d) = (code, rows_of (snd result)) \<and> has_status code (fst result))"

lemma taken_serves:
  assumes "api_ok d" and "\<not> key_free d rq"
  shows "serves (claiming rq p) d (idempotent e rq work d d)"
proof -
  obtain k where k: "find (\<lambda>r. idem_key_of r = request_key rq) (idempotencyKeys d) = Some k" "k \<in> set (idempotencyKeys d)"
    using assms(2) by (cases "find (\<lambda>r. idem_key_of r = request_key rq) (idempotencyKeys d)")
      (auto simp: key_free_def find_None_iff image_iff dest: find_Some_in)
  then have "key_settled k" using api_okD(6) [OF assms(1)] by blast
  then obtain n where n: "idem_state k = Completed" "idem_responseStatus k = Some n" by (auto simp: key_settled_def)
  have "idempotent e rq work d d = (unwrapOutcome (resolveIdempotencyConflict d rq), d)"
    using assms(2) by (simp add: idempotent_def transaction_def guarded_body_def claim_cases)
  with k n show ?thesis
    by (auto simp: serves_def claiming_def key_value_def resolveIdempotencyConflict_def unwrapOutcome_def
        reject_def Let_def not_less accounts_kept_def)
qed


section \<open>Each service\<close>

lemma free_serves:
  assumes free: "key_free d rq" and keys: "idempotencyKeys d2 = idempotencyKeys d"
    and work: "run_alone work (rows_of d) = run_alone (completing rq (status out) ws) (rows_of d)"
    and ws: "\<And>k. KeyRow k \<notin> fst ` set ws"
    and orders: "\<And>x. order_value d2 x = write_rows ws (rows_of d) (OrderRow x)"
    and stock: "\<And>p. stock_value d2 p = write_rows ws (rows_of d) (InventoryRow p)"
    and wf: "has_status (status out) reply" and kept: "accounts_kept d d2"
  shows "serves (claiming rq work) d
    (reply, d2\<lparr>idempotencyKeys := idempotencyKeys d @ [completion e out (claim_row e rq)]\<rparr>)"
  unfolding serves_def run_claiming_free [OF free] work completed_rows [OF free keys ws orders stock, where e = e]
  using wf kept by (simp add: accounts_kept_def)

lemma stock_value_moved:
  assumes "stock_of d2 = move dh dr items (stock_of d)" and "distinct (map fst items)"
  shows "stock_value d2 p = (case map_of items p of None \<Rightarrow> stock_value d p
    | Some q \<Rightarrow> (case stock_value d p of StockOf h r \<Rightarrow> StockOf (h + dh * q) (r + dr * q) | v \<Rightarrow> v))"
proof -
  have "units fst snd items p = (case map_of items p of None \<Rightarrow> 0 | Some q \<Rightarrow> q)"
  proof (cases "map_of items p")
    case None
    then have "units fst snd items p = 0" by (intro units_absent) (simp add: map_of_eq_None_iff)
    with None show ?thesis by simp
  next
    case (Some q)
    then have "(p, q) \<in> set items" by (rule map_of_SomeD)
    from units_unique [OF assms(2) this, of snd] Some show ?thesis by simp
  qed
  then show ?thesis by (auto simp: stock_value_def assms(1) move_def split: option.split)
qed

lemma order_value_NoRow: "order_value d x = NoRow \<longleftrightarrow> x \<notin> ord_id ` set (orders d)"
proof (cases "find (\<lambda>o'. ord_id o' = x) (orders d)")
  case None
  then have "x \<notin> ord_id ` set (orders d)" by (auto simp: find_None_iff)
  with None show ?thesis by (simp add: order_value_def)
next
  case (Some o')
  from find_Some_in [OF this] have "x \<in> ord_id ` set (orders d)" by force
  with Some show ?thesis by (simp add: order_value_def)
qed

lemma reserved_order_row:
  assumes db: "db_ok d" and adm: "reservation_admissible d g dto"
    and fresh: "new_uuid e 0 \<notin> ord_id ` set (orders d)"
  shows "order_value (after_reserve e g u dto d) x =
    (if x = new_uuid e 0 then OrderOf (pg_uuid g) Pending (item_pairs (cr_items dto)) else order_value d x)"
proof -
  let ?oid = "new_uuid e 0" and ?d2 = "after_reserve e g u dto d"
  have orders: "orders ?d2 = orders d @ [new_order e g dto]" by (simp add: after_reserve_def Let_def)
  let ?f = "new_order_item e g (locked_by_product g (map productId (cr_items dto)) d) ?oid"
  have items: "orderItems ?d2 = orderItems d @ map ?f (cr_items dto)" by (simp add: after_reserve_def Let_def)
  have f: "oi_orderId (?f i) = ?oid" "oi_productId (?f i) = pg_uuid (productId i)" "oi_quantity (?f i) = quantity i" for i
    by (simp_all add: new_order_item_def)
  have find: "find P (xs @ [y]) = (case find P xs of None \<Rightarrow> if P y then Some y else None | Some z \<Rightarrow> Some z)"
    for P and xs :: "order list" and y by (induction xs) auto
  have none: "find (\<lambda>o'. ord_id o' = ?oid) (orders d) = None" using fresh by (force simp: find_None_iff)
  have old: "filter (\<lambda>i. oi_orderId i = ?oid) (orderItems d) = []"
    using db_okD(8) [OF db] fresh by (force simp: filter_empty_conv order_items_ok_def order_of_org_def)
  have canon: "pg_uuid (productId i) = productId i" if "i \<in> set (cr_items dto)" for i
    using adm that by (simp add: reservation_admissible_def)
  show ?thesis
  proof (cases "x = ?oid")
    case True
    have "lines_of ?d2 x = item_pairs (cr_items dto)"
      using canon by (simp add: lines_of_def items old f True filter_map comp_def line_pairs_def item_pairs_def)
    with True none show ?thesis by (simp add: order_value_def orders find) (simp add: new_order_def)
  next
    case False
    then have "lines_of ?d2 x = lines_of d x" by (simp add: lines_of_def items f filter_map comp_def)
    with False show ?thesis
      by (simp add: order_value_def orders find new_order_def split: option.split)
  qed
qed

lemma run_reserve_body:
  assumes "s (OrderRow oid) = NoRow" and "\<forall>(p, q) \<in> set items. pg_uuid p = p"
  shows "run_alone (reserve_body rq oid g items) s =
    run_alone (if list_ex (\<lambda>(p, q). available (s (InventoryRow p)) < q) items then completing rq 409 []
      else completing rq 201 ((OrderRow oid, OrderOf (pg_uuid g) Pending items) #
        map (\<lambda>(p, q). (InventoryRow p, reserve_units q (s (InventoryRow p)))) items)) s"
proof -
  let ?row = "\<lambda>p. if p \<in> set (locking_order (map (\<lambda>(p, q). pg_uuid p) items)) then s (InventoryRow p) else NoRow"
  have row: "?row p = s (InventoryRow p)" if "(p, q) \<in> set items" for p q
    using assms(2) that by (force simp: image_iff)
  have "list_ex (\<lambda>(p, q). available (?row p) < q) items = list_ex (\<lambda>(p, q). available (s (InventoryRow p)) < q) items"
    by (rule list_ex_cong) (use row in \<open>auto simp del: locking_order_sorted\<close>)
  moreover have "map (\<lambda>(p, q). (InventoryRow (pg_uuid p), reserve_units q (?row p))) items =
      map (\<lambda>(p, q). (InventoryRow p, reserve_units q (s (InventoryRow p)))) items"
    by (rule map_cong [OF refl]) (use row assms(2) in \<open>auto simp del: locking_order_sorted\<close>)
  moreover have "map (\<lambda>(p, q). (pg_uuid p, q)) items = items" by (rule map_idI) (use assms(2) in auto)
  ultimately show ?thesis
    unfolding reserve_body_def run_alone.simps run_lock_rows assms(1) by (simp only: simp_thms if_False)
qed

lemma reserve_shortfalls:
  assumes books: "books_ok d" and adm: "reservation_admissible d g dto"
  shows "list_ex (\<lambda>(p, q). available (stock_value d p) < q) (item_pairs (cr_items dto)) \<longleftrightarrow>
    shortfalls_of (locked_by_product g (map productId (cr_items dto)) d) (cr_items dto) \<noteq> []"
proof -
  have "1 \<le> q" if "(p, q) \<in> set (item_pairs (cr_items dto))" for p q
    using adm that by (auto simp: reservation_admissible_def reservation_valid_def item_pairs_def)
  then have "list_ex (\<lambda>(p, q). available (stock_value d p) < q) (item_pairs (cr_items dto)) \<longleftrightarrow>
      list_ex (\<lambda>(p, q). \<not> (case stock_of d p of None \<Rightarrow> False | Some (h, r) \<Rightarrow> q \<le> h - r)) (item_pairs (cr_items dto))"
    by (intro list_ex_cong) (force simp: stock_value_def available_def split: option.split)+
  then show ?thesis
    unfolding shortfalls_spec [OF books adm] spec_reserve_def by (auto simp: list_ex_iff)
qed

lemma reserve_serves:
  assumes ok: "api_ok d" and adm: "reservation_admissible d g dto"
    and usr: "user_exists d (pg_uuid u)" and fresh: "new_uuid e 0 \<notin> ord_id ` set (orders d)"
  shows "serves (reserve_script sha e g dto key) d (createReservation sha e g u dto key d d)"
proof (cases "key_free d (create_request sha g dto key)")
  case False
  show ?thesis
    unfolding createReservation_admitted [OF api_okD(1) [OF ok] adm] reserve_script_def Let_def
    by (rule taken_serves [OF ok False])
next
  case True
  note books = api_okD(2) [OF ok]
  let ?items = "item_pairs (cr_items dto)" and ?oid = "new_uuid e 0" and ?d2 = "after_reserve e g u dto d"
  let ?ws = "(OrderRow ?oid, OrderOf (pg_uuid g) Pending ?items) #
      map (\<lambda>(p, q). (InventoryRow p, reserve_units q (rows_of d (InventoryRow p)))) ?items"
  have canon: "\<forall>(p, q) \<in> set ?items. pg_uuid p = p" and dist: "distinct (map fst ?items)"
    using adm by (auto simp: reservation_admissible_def item_pairs_def comp_def)
  have absent: "rows_of d (OrderRow ?oid) = NoRow" using fresh by (simp add: order_value_NoRow)
  note run = run_reserve_body [where s = "rows_of d", OF absent canon, unfolded rows_of.simps(3) reserve_shortfalls [OF books adm]]
  show ?thesis
  proof (cases "shortfalls_of (locked_by_product g (map productId (cr_items dto)) d) (cr_items dto) = []")
    case False
    show ?thesis
      unfolding createReservation_outcome [OF books adm True usr fresh, of d] reserve_script_def Let_def if_not_P [OF False]
      by (rule free_serves [OF True, where ws = "[]"]) (use False in \<open>simp_all add: run unwrapOutcome_def accounts_kept_def\<close>)
  next
    case enough: True
    have moved: "stock_of ?d2 = move 0 1 ?items (stock_of d)"
      using stock_of_apply [of ?d2 0 1 productId quantity "app_time e" "cr_items dto" d]
      by (simp add: after_reserve_def Let_def item_pairs_def)
    show ?thesis
      unfolding createReservation_outcome [OF books adm True usr fresh, of d] reserve_script_def Let_def if_P [OF enough]
    proof (rule free_serves [OF True, where ws = ?ws])
      show "order_value ?d2 x = write_rows ?ws (rows_of d) (OrderRow x)" for x
        by (simp add: reserved_order_row [OF api_okD(1) [OF ok] adm fresh] write_rows_items_other)
      show "stock_value ?d2 p = write_rows ?ws (rows_of d) (InventoryRow p)" for p
        unfolding stock_value_moved [OF moved dist] write_rows_simps write_rows_items [OF dist]
        by (simp add: reserve_units_def split: option.split row_value.split)
      show "KeyRow k \<notin> fst ` set ?ws" for k by auto
    qed (use enough in \<open>simp_all add: run unwrapOutcome_def after_reserve_def Let_def accounts_kept_def\<close>)
  qed
qed

section \<open>Transitions\<close>

lemma status_of_order_row:
  assumes "db_ok d"
  shows "status_of_order g x d =
    (case order_value d (pg_uuid x) of OrderOf g' st lines \<Rightarrow> if g' = pg_uuid g then Some st else None | _ \<Rightarrow> None)"
proof (cases "find (\<lambda>o'. ord_id o' = pg_uuid x) (orders d)")
  case None
  then have "find (\<lambda>o'. ord_id o' = pg_uuid x \<and> ord_organizationId o' = pg_uuid g) (orders d) = None"
    by (auto simp: find_None_iff)
  with None show ?thesis by (simp add: status_of_order_def order_value_def)
next
  case (Some o')
  then have o': "o' \<in> set (orders d)" "ord_id o' = pg_uuid x" by (auto dest: find_Some_in)
  have dist: "distinct (map ord_id (orders d))" using db_okD(7) [OF assms] by (simp add: orders_ok_def)
  show ?thesis
  proof (cases "ord_organizationId o' = pg_uuid g")
    case True
    with o' have "find (\<lambda>o'. ord_id o' = pg_uuid x \<and> ord_organizationId o' = pg_uuid g) (orders d) = Some o'"
      by (intro find_unique [where f = ord_id] dist) auto
    with Some True show ?thesis by (simp add: status_of_order_def order_value_def)
  next
    case False
    have "\<not> (ord_id r = pg_uuid x \<and> ord_organizationId r = pg_uuid g)" if "r \<in> set (orders d)" for r
      using distinct_map_inj [OF dist o'(1) that] o'(2) False by auto
    then have "find (\<lambda>o'. ord_id o' = pg_uuid x \<and> ord_organizationId o' = pg_uuid g) (orders d) = None"
      by (simp add: find_None_iff)
    with Some False show ?thesis by (simp add: status_of_order_def order_value_def)
  qed
qed

lemma settled_serves:
  assumes ok: "api_ok d" and free: "key_free d rq" and org: "org_exists d (pg_uuid (req_organizationId rq))"
    and st: "status_of_order g x d \<noteq> Some Pending"
    and work: "\<And>d1. d1 = d\<lparr>idempotencyKeys := idempotencyKeys d @ [claim_row e rq]\<rparr> \<Longrightarrow>
      work d1 = Inr (reject (case status_of_order g x d of None \<Rightarrow> 404 | Some s \<Rightarrow> 409) m, d1)"
  shows "serves (claiming rq (transition_body change new rq g x)) d (idempotent e rq work d d)"
  unfolding idempotent_returns [where work = work, OF free org work [OF refl]]
proof (rule free_serves [OF free refl, where ws = "[]"])
  show "run_alone (transition_body change new rq g x) (rows_of d) =
    run_alone (completing rq (status (reject (case status_of_order g x d of None \<Rightarrow> 404 | Some s \<Rightarrow> 409) m)) []) (rows_of d)"
    using st unfolding status_of_order_row [OF api_okD(1) [OF ok]] transition_body_def
    by (cases "order_value d (pg_uuid x)") auto
qed (simp_all add: unwrapOutcome_def accounts_kept_def split: option.split)

lemma order_value_update:
  assumes db: "db_ok d" and o': "o' \<in> set (orders d)" "pending_order g x o'"
    and upd: "orders d2 = update_where (pending_order g x) f (orders d)" "orderItems d2 = orderItems d"
    and f: "\<And>r. ord_id (f r) = ord_id r" "\<And>r. ord_organizationId (f r) = ord_organizationId r"
      "\<And>r. ord_status (f r) = new"
  shows "order_value d (pg_uuid x) = OrderOf (pg_uuid g) Pending (lines_of d (pg_uuid x))"
    and "order_value d2 y = (if y = pg_uuid x then OrderOf (pg_uuid g) new (lines_of d (pg_uuid x)) else order_value d y)"
proof -
  have dist: "distinct (map ord_id (orders d))" using db_okD(7) [OF db] by (simp add: orders_ok_def)
  have lines: "lines_of d2 = lines_of d" by (simp add: fun_eq_iff lines_of_def upd)
  have this_one: "find (\<lambda>r. ord_id r = pg_uuid x) (orders d) = Some o'"
    using o' by (intro find_unique [where f = ord_id] dist) (auto simp: pending_order_def)
  then show "order_value d (pg_uuid x) = OrderOf (pg_uuid g) Pending (lines_of d (pg_uuid x))"
    using o'(2) by (simp add: order_value_def pending_order_def)
  have "find (\<lambda>r. ord_id r = y) (update_where (pending_order g x) f rs) =
      map_option (\<lambda>r. if pending_order g x r then f r else r) (find (\<lambda>r. ord_id r = y) rs)" for rs
    by (induction rs) (auto simp: update_where_def f)
  note found = this [of "orders d", folded upd(1)]
  show "order_value d2 y = (if y = pg_uuid x then OrderOf (pg_uuid g) new (lines_of d (pg_uuid x)) else order_value d y)"
  proof (cases "y = pg_uuid x")
    case True
    with found this_one o'(2) show ?thesis by (simp add: order_value_def lines f) (simp add: pending_order_def)
  next
    case False
    then have "map_option (\<lambda>r. if pending_order g x r then f r else r) (find (\<lambda>r. ord_id r = y) (orders d)) =
        find (\<lambda>r. ord_id r = y) (orders d)"
      by (cases "find (\<lambda>r. ord_id r = y) (orders d)") (auto simp: pending_order_def dest!: find_Some_in)
    with found False show ?thesis by (simp add: order_value_def lines cong: option.case_cong)
  qed
qed

text \<open>The lines of a pending order as the loops read them: one per product, and covered.\<close>

lemma pending_lines:
  assumes books: "books_ok d" and o': "o' \<in> set (orders d)" "pending_order g x o'"
  shows "distinct (map fst (lines_of d (pg_uuid x)))"
    and "(p, q) \<in> set (lines_of d (pg_uuid x)) \<Longrightarrow> \<exists>h r. stock_value d p = StockOf h r \<and> q \<le> r \<and> r \<le> h"
    and "map_of (lines_of d (pg_uuid x)) = map_of (line_pairs (order_items_of x d))"
    and "distinct (map fst (line_pairs (order_items_of x d)))"
proof -
  note db = books_okD(1) [OF books]
  have cov: "order_covered g x d" by (rule books_cover [OF books o'])
  have dist: "distinct (map oi_productId (order_items_of x d))" using cov by (simp add: order_covered_def)
  then show sorted_dist: "distinct (map fst (line_pairs (order_items_of x d)))" by (simp add: line_pairs_def comp_def)
  have "mset (map oi_productId (filter (\<lambda>i. oi_orderId i = pg_uuid x) (orderItems d))) =
      mset (map oi_productId (order_items_of x d))" by (simp add: order_items_of_def)
  then have "distinct (map oi_productId (filter (\<lambda>i. oi_orderId i = pg_uuid x) (orderItems d)))"
    using dist mset_eq_imp_distinct_iff by blast
  then show lines_dist: "distinct (map fst (lines_of d (pg_uuid x)))" by (simp add: lines_of_def line_pairs_def comp_def)
  have same: "set (lines_of d (pg_uuid x)) = set (line_pairs (order_items_of x d))"
    by (simp add: lines_of_def line_pairs_def order_items_of_def)
  then show "map_of (lines_of d (pg_uuid x)) = map_of (line_pairs (order_items_of x d))"
    using map_of_inject_set [OF lines_dist sorted_dist] by simp
  assume "(p, q) \<in> set (lines_of d (pg_uuid x))"
  then obtain i where i: "i \<in> set (order_items_of x d)" "oi_productId i = p" "oi_quantity i = q"
    unfolding same by (auto simp: line_pairs_def)
  then obtain row where row: "row \<in> set (inventory d)" "inv_productId row = p" "q \<le> inv_reserved row"
    using cov by (auto simp: order_covered_def)
  then have "inventory_row_ok row" using db_okD(5) [OF db] by (auto simp: inventory_ok_def)
  moreover have "stock_of d p = Some (inv_onHand row, inv_reserved row)"
    using stock_of_Some [OF db] row by blast
  ultimately show "\<exists>h r. stock_value d p = StockOf h r \<and> q \<le> r \<and> r \<le> h"
    using row(3) by (simp add: stock_value_def inventory_row_ok_def)
qed

lemma run_transition_body:
  assumes "s (OrderRow (pg_uuid x)) = OrderOf (pg_uuid g) Pending lines"
    and "\<forall>(p, q) \<in> set lines. change q (s (InventoryRow p)) \<noteq> None"
  shows "run_alone (transition_body change new rq g x) s =
    run_alone (completing rq 200 ((OrderRow (pg_uuid x), OrderOf (pg_uuid g) new lines) #
      map (\<lambda>(p, q). (InventoryRow p, the (change q (s (InventoryRow p))))) lines)) s"
proof -
  let ?row = "\<lambda>p. if p \<in> set (locking_order (map fst lines)) then s (InventoryRow p) else NoRow"
  have row: "?row p = s (InventoryRow p)" if "(p, q) \<in> set lines" for p q using that by force
  have "list_all (\<lambda>(p, q). change q (?row p) \<noteq> None) lines"
    unfolding list_all_iff using assms(2) row by (auto simp del: locking_order_sorted)
  moreover have "map (\<lambda>(p, q). (InventoryRow p, the (change q (?row p)))) lines =
      map (\<lambda>(p, q). (InventoryRow p, the (change q (s (InventoryRow p))))) lines"
    by (rule map_cong [OF refl]) (use row in \<open>auto simp del: locking_order_sorted\<close>)
  ultimately show ?thesis
    unfolding transition_body_def run_alone.simps assms(1) row_value.case
    by (simp only: simp_thms if_False if_True run_lock_rows)
qed

lemma pending_serves:
  assumes books: "books_ok d" and o': "o' \<in> set (orders d)" "pending_order g x o'"
    and free: "key_free d rq"
    and result: "result = (Inr b, d2\<lparr>idempotencyKeys := idempotencyKeys d @ [completion e (accept 200 b) (claim_row e rq)]\<rparr>)"
    and d2: "idempotencyKeys d2 = idempotencyKeys d" "orders d2 = update_where (pending_order g x) f (orders d)"
      "orderItems d2 = orderItems d" "accounts_kept d d2"
      "stock_of d2 = move dh (-1) (line_pairs (order_items_of x d)) (stock_of d)"
    and f: "\<And>r. ord_id (f r) = ord_id r" "\<And>r. ord_organizationId (f r) = ord_organizationId r"
      "\<And>r. ord_status (f r) = new"
    and change: "\<And>q h r. q \<le> r \<Longrightarrow> r \<le> h \<Longrightarrow> change q (StockOf h r) = Some (StockOf (h + dh * q) (r - q))"
  shows "serves (claiming rq (transition_body change new rq g x)) d result"
proof -
  let ?lines = "lines_of d (pg_uuid x)"
  let ?ws = "(OrderRow (pg_uuid x), OrderOf (pg_uuid g) new ?lines) #
      map (\<lambda>(p, q). (InventoryRow p, the (change q (rows_of d (InventoryRow p))))) ?lines"
  note order = order_value_update [OF books_okD(1) [OF books] o' d2(2,3) f]
  note lines = pending_lines [OF books o']
  have row: "\<exists>h r. stock_value d p = StockOf h r \<and> change q (StockOf h r) = Some (StockOf (h + dh * q) (r - q))"
    if "(p, q) \<in> set ?lines" for p q using lines(2) [OF that] change by blast
  have pending: "rows_of d (OrderRow (pg_uuid x)) = OrderOf (pg_uuid g) Pending ?lines" by (simp add: order(1))
  have all: "\<forall>(p, q) \<in> set ?lines. change q (rows_of d (InventoryRow p)) \<noteq> None" using row by fastforce
  show ?thesis
    unfolding result
  proof (rule free_serves [OF free d2(1), where ws = ?ws])
    show "run_alone (transition_body change new rq g x) (rows_of d) =
        run_alone (completing rq (status (accept 200 b)) ?ws) (rows_of d)"
      unfolding run_transition_body [where s = "rows_of d", OF pending all] outcome_simps by (rule refl)
    show "order_value d2 y = write_rows ?ws (rows_of d) (OrderRow y)" for y
      by (simp add: order(2) write_rows_items_other)
    show "stock_value d2 p = write_rows ?ws (rows_of d) (InventoryRow p)" for p
      unfolding stock_value_moved [OF d2(5) lines(4)] lines(3) [symmetric] write_rows_simps write_rows_items [OF lines(1)]
      using row [OF map_of_SomeD] by (fastforce split: option.split)
    show "KeyRow k \<notin> fst ` set ?ws" for k by auto
  qed (simp_all add: d2(4))
qed

lemma release_serves:
  assumes ok: "api_ok d" and org: "org_exists d (pg_uuid g)" and usr: "user_exists d (pg_uuid u)"
  shows "serves (release_script sha g x key) d (releaseReservation sha e g u x key d d)"
proof (cases "key_free d (transition_request sha RELEASE_OPERATION g x key)")
  case False
  show ?thesis
    unfolding releaseReservation_def release_script_def Let_def by (rule taken_serves [OF ok False])
next
  case True
  note books = api_okD(2) [OF ok]
  show ?thesis
  proof (cases "status_of_order g x d = Some Pending")
    case False
    note none = settled_not_pending [OF api_okD(1) [OF ok] False]
    show ?thesis
      unfolding releaseReservation_def release_script_def Let_def
    proof (rule settled_serves [OF ok True _ False])
      fix d1 assume d1: "d1 = d\<lparr>idempotencyKeys := idempotencyKeys d @
        [claim_row e (transition_request sha RELEASE_OPERATION g x key)]\<rparr>"
      have st: "status_of_order g x d1 = status_of_order g x d" and "orders d1 = orders d"
        by (simp_all add: d1 status_of_order_def)
      with none have "filter (pending_order g x) (orders d1) = []" by simp
      from releaseStock_settled [OF this, of e u]
      show "releaseStock e g u x d1 = Inr (reject (case status_of_order g x d of None \<Rightarrow> 404 | Some s \<Rightarrow> 409)
          (case status_of_order g x d of None \<Rightarrow> Message ''Reservation not found in this organization.''
           | Some s \<Rightarrow> Message (''Reservation cannot be released: it is already \"'' @ status_string s @ ''\".'')), d1)"
        unfolding st by (simp split: option.split)
    qed (use org in \<open>simp add: transition_request_def\<close>)
  next
    case pending: True
    then obtain o' where o': "o' \<in> set (orders d)" "pending_order g x o'"
      by (auto simp: status_of_order_def pending_order_def dest!: find_Some_in)
    have "stock_of (after_release e g u x d) = move 0 (-1) (line_pairs (order_items_of x d)) (stock_of d)"
      using stock_of_apply [of "after_release e g u x d" 0 "-1" oi_productId oi_quantity "app_time e" "order_items_of x d" d]
      by (simp add: after_release_def Let_def line_pairs_def)
    then show ?thesis
      unfolding release_script_def Let_def
      by (intro pending_serves [OF books o' True releaseReservation_outcome [OF books o' True usr, unfolded outcome_simps],
            where dh = 0 and f = "cancel_row e"])
        (simp_all add: after_release_def Let_def release_units_def accounts_kept_def)
  qed
qed

lemma fulfill_serves:
  assumes ok: "api_ok d" and org: "org_exists d (pg_uuid g)" and usr: "user_exists d (pg_uuid u)"
  shows "serves (fulfill_script sha g x key) d (fulfillOrder sha e g u x key d d)"
proof (cases "key_free d (transition_request sha FULFILL_OPERATION g x key)")
  case False
  show ?thesis
    unfolding fulfillOrder_def fulfill_script_def Let_def by (rule taken_serves [OF ok False])
next
  case True
  note books = api_okD(2) [OF ok]
  show ?thesis
  proof (cases "status_of_order g x d = Some Pending")
    case False
    note none = settled_not_pending [OF api_okD(1) [OF ok] False]
    show ?thesis
      unfolding fulfillOrder_def fulfill_script_def Let_def
    proof (rule settled_serves [OF ok True _ False])
      fix d1 assume d1: "d1 = d\<lparr>idempotencyKeys := idempotencyKeys d @
        [claim_row e (transition_request sha FULFILL_OPERATION g x key)]\<rparr>"
      have st: "status_of_order g x d1 = status_of_order g x d" and "orders d1 = orders d"
        by (simp_all add: d1 status_of_order_def)
      with none have "filter (pending_order g x) (orders d1) = []" by simp
      from fulfillStock_settled [OF this, of e u]
      show "fulfillStock e g u x d1 = Inr (reject (case status_of_order g x d of None \<Rightarrow> 404 | Some s \<Rightarrow> 409)
          (case status_of_order g x d of None \<Rightarrow> Message ''Order not found in this organization.''
           | Some s \<Rightarrow> Message (''Order cannot be fulfilled: it is already \"'' @ status_string s @ ''\".'')), d1)"
        unfolding st by (simp split: option.split)
    qed (use org in \<open>simp add: transition_request_def\<close>)
  next
    case pending: True
    then obtain o' where o': "o' \<in> set (orders d)" "pending_order g x o'"
      by (auto simp: status_of_order_def pending_order_def dest!: find_Some_in)
    have "stock_of (after_fulfill e g u x d) = move (-1) (-1) (line_pairs (order_items_of x d)) (stock_of d)"
      using stock_of_apply [of "after_fulfill e g u x d" "-1" "-1" oi_productId oi_quantity "app_time e" "order_items_of x d" d]
      by (simp add: after_fulfill_def Let_def line_pairs_def)
    then show ?thesis
      unfolding fulfill_script_def Let_def
      by (intro pending_serves [OF books o' True fulfillOrder_outcome [OF books o' True usr, unfolded outcome_simps],
            where dh = "-1" and f = "fulfill_row e"])
        (simp_all add: after_fulfill_def Let_def fulfill_units_def accounts_kept_def)
  qed
qed

section \<open>Adjustments\<close>

lemma adjust_serves:
  assumes ok: "api_ok d" and valid: "adjust_inventory_valid dto"
    and prod: "product_of_org d (pg_uuid (ad_productId dto)) (pg_uuid g)"
  shows "serves (adjust_script sha g dto key) d (adjustStock sha e g dto key d d)"
proof (cases "key_free d (adjust_request sha g dto key)")
  case False
  show ?thesis
    unfolding adjustStock_def adjust_script_def Let_def by (rule taken_serves [OF ok False])
next
  case True
  note books = api_okD(2) [OF ok] and db = api_okD(1) [OF ok]
  let ?p = "pg_uuid (ad_productId dto)" and ?rq = "adjust_request sha g dto key"
  let ?d1 = "d\<lparr>idempotencyKeys := idempotencyKeys d @ [claim_row e ?rq]\<rparr>"
  obtain row where row: "row \<in> set (inventory d)" "inv_productId row = ?p" "inv_organizationId row = pg_uuid g"
    using stocked_row [OF books prod] .
  let ?h = "inv_onHand row" and ?r = "inv_reserved row" and ?n = "inv_onHand row + ad_delta dto"
  have org: "org_exists d (pg_uuid (req_organizationId ?rq))"
    using db_okD(5) [OF db] row by (auto simp: inventory_ok_def adjust_request_def)
  have books1: "books_ok ?d1"
    using claim_ok [OF db True org] by (intro books_ok_frame [OF books]) simp_all
  have st: "stock_value d ?p = StockOf ?h ?r" 
  proof -
    have "stock_of d ?p = Some (?h, ?r)" using stock_of_Some [OF db] row by blast
    then show ?thesis by (simp add: stock_value_def)
  qed
  have "inventory_row_ok row" using db_okD(5) [OF db] row(1) by (auto simp: inventory_ok_def)
  then have r: "0 \<le> ?r" by (simp add: inventory_row_ok_def)
  note outcome = applyAdjustment_outcome [OF books1 valid, of row g e]
  show ?thesis
  proof (cases "?r \<le> ?n \<and> ?n \<le> PG_INT4_MAX")
    case within: True
    then obtain line where line: "applyAdjustment e g dto ?d1 = Inr (accept 200 (InventoryBody line),
        (after_adjust e g dto d)\<lparr>idempotencyKeys := idempotencyKeys d @ [claim_row e ?rq]\<rparr>)"
      using outcome row by (auto simp: after_adjust_keys_frame)
    have moved: "stock_of (after_adjust e g dto d) = move 1 0 [(?p, ad_delta dto)] (stock_of d)"
      using stock_of_apply [of "after_adjust e g dto d" 1 0 "\<lambda>a. pg_uuid (ad_productId a)" ad_delta "app_time e" "[dto]" d]
      by (simp add: after_adjust_def)
    show ?thesis
      unfolding adjustStock_def idempotent_returns [where work = "applyAdjustment e g dto", OF True org line]
        adjust_script_def Let_def
    proof (rule free_serves [OF True, where ws = "[(InventoryRow ?p, StockOf ?n ?r)]"])
      show "stock_value (after_adjust e g dto d) p = write_rows [(InventoryRow ?p, StockOf ?n ?r)] (rows_of d) (InventoryRow p)" for p
        using st by (simp add: stock_value_moved [OF moved])
    qed (use within r st in \<open>auto simp: unwrapOutcome_def after_adjust_def order_value_def lines_of_def accounts_kept_def cong: option.case_cong\<close>)
  next
    case False
    then have out: "applyAdjustment e g dto ?d1 = Inr (adjustment_rejection row (ad_delta dto),
        d\<lparr>idempotencyKeys := idempotencyKeys d @ [claim_row e ?rq]\<rparr>)"
      using outcome row by auto
    show ?thesis
      unfolding adjustStock_def idempotent_returns [where work = "applyAdjustment e g dto", OF True org out]
        adjust_script_def Let_def
      by (rule free_serves [OF True refl, where ws = "[]"])
        (use False st in \<open>auto simp: unwrapOutcome_def adjustment_rejection_def accounts_kept_def\<close>)
  qed
qed

section \<open>One call after another\<close>

primrec serve :: "(string \<Rightarrow> string) \<Rightarrow> stock_call \<Rightarrow> db \<Rightarrow> (exn + response_body) \<times> db" where
  "serve sha (Reserve e g u dto key) d = createReservation sha e g u dto key d d"
| "serve sha (Release e g u x key) d = releaseReservation sha e g u x key d d"
| "serve sha (Fulfill e g u x key) d = fulfillOrder sha e g u x key d d"
| "serve sha (Adjust e g dto key) d = adjustStock sha e g dto key d d"

primrec serve_all :: "(string \<Rightarrow> string) \<Rightarrow> stock_call list \<Rightarrow> db \<Rightarrow> (exn + response_body) list \<times> db" where
  "serve_all sha [] d = ([], d)"
| "serve_all sha (c # cs) d =
     (let (reply, d1) = serve sha c d; (replies, d2) = serve_all sha cs d1 in (reply # replies, d2))"

text \<open>
  A call that has passed the checks before the locks: a member's request, for products the organization
  has.
\<close>

primrec servable :: "db \<Rightarrow> stock_call \<Rightarrow> bool" where
  "servable d (Reserve e g u dto key) \<longleftrightarrow> reservation_admissible d g dto \<and> user_exists d (pg_uuid u)"
| "servable d (Release e g u x key) \<longleftrightarrow> org_exists d (pg_uuid g) \<and> user_exists d (pg_uuid u)"
| "servable d (Fulfill e g u x key) \<longleftrightarrow> org_exists d (pg_uuid g) \<and> user_exists d (pg_uuid u)"
| "servable d (Adjust e g dto key) \<longleftrightarrow>
     adjust_inventory_valid dto \<and> product_of_org d (pg_uuid (ad_productId dto)) (pg_uuid g)"

primrec new_ids :: "stock_call \<Rightarrow> uuid list" where
  "new_ids (Reserve e g u dto key) = [new_uuid e 0]"
| "new_ids (Release e g u x key) = []"
| "new_ids (Fulfill e g u x key) = []"
| "new_ids (Adjust e g dto key) = []"

lemma serve_serves:
  assumes "api_ok d" and "servable d c" and "set (new_ids c) \<inter> ord_id ` set (orders d) = {}"
  shows "serves (script_of sha c) d (serve sha c d)"
  using assms by (cases c) (auto intro: reserve_serves release_serves fulfill_serves adjust_serves)

lemma serve_step:
  assumes "servable d c"
  shows "api_step sha a d (snd (serve sha c d))"
  using assms by (cases c) (auto simp: reservation_admissible_def intro: api_step.intros)


text \<open>A call creates no order but its own.\<close>

lemma script_orders:
  assumes "s (OrderRow x) = NoRow" and "x \<notin> set (new_ids c)"
  shows "snd (run_alone (script_of sha c) s) (OrderRow x) = NoRow"
proof -
  have key: "snd (run_alone (claiming rq work) s) (OrderRow x) = NoRow"
    if "snd (run_alone work s) (OrderRow x) = NoRow" for rq work
    using that assms(1) by (auto simp: claiming_def split: row_value.split)
  have stock: "write_rows (map (\<lambda>(p, q). (InventoryRow (pg_uuid p), f p q)) ls) t (OrderRow x) = t (OrderRow x)"
    "write_rows (map (\<lambda>(p, q). (InventoryRow p, f p q)) ls) t (OrderRow x) = t (OrderRow x)"
    for f t and ls :: "(uuid \<times> int) list" by (auto intro!: write_rows_other)
  show ?thesis
    using assms
    by (cases c)
      (auto simp: reserve_script_def release_script_def fulfill_script_def reserve_body_def transition_body_def adjust_script_def Let_def
        stock intro!: key split: row_value.split)
qed

lemma servable_kept: "accounts_kept d d' \<Longrightarrow> servable d c \<Longrightarrow> servable d' c"
  by (cases c) (auto simp: accounts_kept_def reservation_admissible_def fk_defs)

lemma serve_frame:
  assumes "api_ok d" and "servable d c" and "set (new_ids c) \<inter> ord_id ` set (orders d) = {}"
  shows "accounts_kept d (snd (serve sha c d))"
    and "ord_id ` set (orders (snd (serve sha c d))) \<subseteq> ord_id ` set (orders d) \<union> set (new_ids c)"
proof -
  from serve_serves [OF assms, of sha] obtain code where kept: "accounts_kept d (snd (serve sha c d))"
    and rows: "run_alone (script_of sha c) (rows_of d) = (code, rows_of (snd (serve sha c d)))"
    by (auto simp: serves_def)
  show "accounts_kept d (snd (serve sha c d))" by (rule kept)
  show "ord_id ` set (orders (snd (serve sha c d))) \<subseteq> ord_id ` set (orders d) \<union> set (new_ids c)"
  proof
    fix x assume "x \<in> ord_id ` set (orders (snd (serve sha c d)))"
    then have "rows_of (snd (serve sha c d)) (OrderRow x) \<noteq> NoRow" by (simp add: order_value_NoRow)
    with script_orders [of "rows_of d" x c sha] rows show "x \<in> ord_id ` set (orders d) \<union> set (new_ids c)"
      by (auto simp: order_value_NoRow)
  qed
qed

lemma concat_apart:
  assumes "distinct (concat (map f xs))" and "i < length xs" "j < length xs" "i \<noteq> j"
  shows "set (f (xs ! i)) \<inter> set (f (xs ! j)) = {}"
  using assms
proof (induction xs arbitrary: i j)
  case (Cons x xs)
  have "set (f x) \<inter> set (f (xs ! n)) = {}" if "n < length xs" for n
    using Cons.prems(1) nth_mem [OF that] by auto
  with Cons show ?case by (cases i; cases j) auto
qed simp

text \<open>The serial run of the transactions is the services called in that order.\<close>

lemma serial_serves:
  assumes "api_run sha a d0 d" "api_ok d" and "\<forall>c \<in> set calls. servable d c"
    and "distinct order" and "set order \<subseteq> {..< length calls}"
    and "distinct (concat (map new_ids calls))"
    and "\<And>i. i \<in> set order \<Longrightarrow> set (new_ids (calls ! i)) \<inter> ord_id ` set (orders d) = {}"
  shows "\<exists>replies d'. serve_all sha (map ((!) calls) order) d = (replies, d') \<and> api_run sha a d0 d' \<and>
    rows_of d' = snd (run_serial (map (script_of sha) calls) order (rows_of d)) \<and>
    list_all2 (\<lambda>(i, code) reply. has_status code reply)
      (fst (run_serial (map (script_of sha) calls) order (rows_of d))) replies"
  using assms
proof (induction order arbitrary: d)
  case Nil
  then show ?case by simp
next
  case (Cons i order)
  let ?c = "calls ! i"
  have i: "i < length calls" "?c \<in> set calls" using Cons.prems(5) by auto
  have fresh: "set (new_ids ?c) \<inter> ord_id ` set (orders d) = {}" by (rule Cons.prems(7)) simp
  have sv: "servable d ?c" using Cons.prems(3) i(2) by blast
  obtain reply d1 where d1: "serve sha ?c d = (reply, d1)" by force
  from serve_serves [OF Cons.prems(2) sv fresh, of sha] d1 obtain code where
    code: "run_alone (script_of sha ?c) (rows_of d) = (code, rows_of d1)" "has_status code reply" "accounts_kept d d1"
    by (auto simp: serves_def)
  have step: "api_step sha a d d1" using serve_step [OF sv, of sha a] d1 by simp
  have apart: "set (new_ids (calls ! j)) \<inter> set (new_ids ?c) = {}" if "j \<in> set order" for j
  proof -
    have "j \<noteq> i" "j < length calls" using that Cons.prems(4,5) by auto
    with concat_apart [OF Cons.prems(6) _ i(1)] show ?thesis by blast
  qed
  have "set (new_ids (calls ! j)) \<inter> ord_id ` set (orders d1) = {}" if "j \<in> set order" for j
    using serve_frame(2) [OF Cons.prems(2) sv fresh, of sha] d1 apart [OF that] Cons.prems(7) [of j] that by auto
  then have "\<exists>replies d'. serve_all sha (map ((!) calls) order) d1 = (replies, d') \<and> api_run sha a d0 d' \<and>
    rows_of d' = snd (run_serial (map (script_of sha) calls) order (rows_of d1)) \<and>
    list_all2 (\<lambda>(i, code) reply. has_status code reply)
      (fst (run_serial (map (script_of sha) calls) order (rows_of d1))) replies"
    using Cons.prems api_step_keeps [OF step Cons.prems(2)] servable_kept [OF code(3)]
    by (intro Cons.IH) (auto intro: api_run.step_run [OF _ step])
  with d1 code(1,2) i(1) show ?case by (fastforce simp: Let_def split: prod.splits)
qed

end
