(* ===== verification/Concurrency_Properties.thy ===== *)
theory Concurrency_Properties
  imports Concurrent_Services
begin

text \<open>
  What holds of stock calls that run side by side: their effect is that of the calls one after another,
  they cannot wait for each other for ever, and two transitions of one order cannot both succeed.
\<close>

section \<open>Serializability\<close>

lemma stock_value_sound:
  assumes "db_ok d" and "stock_value d p = StockOf h r"
  shows "0 \<le> r \<and> r \<le> h \<and> h \<le> PG_INT4_MAX"
proof -
  have "stock_of d p = Some (h, r)" using assms(2) by (auto simp: stock_value_def split: option.splits)
  then obtain row where "row \<in> set (inventory d)" "inv_onHand row = h" "inv_reserved row = r"
    using stock_of_Some [OF assms(1)] by blast
  with db_okD(5) [OF assms(1)] show ?thesis by (auto simp: inventory_ok_def inventory_row_ok_def)
qed

text \<open>C3. Interleaved calls leave what the same calls leave one after another: whatever reservations,
  releases, fulfillments and adjustments that have passed the checks made before the locks (\<open>servable\<close>:
  products of the organization by their printed ids, an existing user) run side by side on a reachable
  database, and however their locks, commits and rollbacks interleave, the rows in every state are those of the database that the
  committed calls produce when the services serve them in commit order, every committed call replies
  with the status it has there, and that database is reachable, so that all its invariants hold: at no
  moment is more of a product reserved than is on hand.\<close>

theorem interleaved_calls_serial:
  assumes "reachable sha a d" and "\<forall>c \<in> set calls. servable d c"
    and "distinct (concat (map new_ids calls))"
    and "set (concat (map new_ids calls)) \<inter> ord_id ` set (orders d) = {}"
    and "sched_run frozen (begin_all (rows_of d) (map (script_of sha) calls)) S"
  shows "(\<exists>replies d'. serve_all sha (map (\<lambda>(i, code). calls ! i) (commits S)) d = (replies, d') \<and>
      reachable sha a d' \<and> rows S = rows_of d' \<and>
      list_all2 (\<lambda>(i, code) reply. has_status code reply) (commits S) replies) \<and>
    (\<forall>p h r. rows S (InventoryRow p) = StockOf h r \<longrightarrow> 0 \<le> r \<and> r \<le> h \<and> h \<le> PG_INT4_MAX)"
proof -
  let ?order = "map fst (commits S)"
  note serial = stock_calls.serializable [OF assms(5)]
  have "set ?order \<subseteq> {..< length calls}" using serial(3) by auto
  moreover have "set (new_ids (calls ! i)) \<inter> ord_id ` set (orders d) = {}" if "i < length calls" for i
    using assms(4) nth_mem [OF that] by auto
  ultimately obtain replies d' where served: "serve_all sha (map ((!) calls) ?order) d = (replies, d')"
    "api_run sha a empty_db d'" "rows_of d' = snd (run_serial (map (script_of sha) calls) ?order (rows_of d))"
    "list_all2 (\<lambda>(i, code) reply. has_status code reply) (fst (run_serial (map (script_of sha) calls) ?order (rows_of d))) replies"
    using serial_serves [OF assms(1) [unfolded reachable_def] reachable_ok [OF assms(1)] assms(2) serial(2) _ assms(3)]
    by (metis (no_types, lifting) lessThan_iff subset_iff)
  have order: "map (\<lambda>(i, code). calls ! i) (commits S) = map ((!) calls) ?order" by (simp add: case_prod_beta)
  have ok: "api_ok d'" by (rule reachable_ok [of sha a]) (simp add: reachable_def served(2))
  have same: "rows S = rows_of d'" using served(3) serial(1) by simp
  have "0 \<le> r \<and> r \<le> h \<and> h \<le> PG_INT4_MAX" if "rows S (InventoryRow p) = StockOf h r" for p h r
    by (rule stock_value_sound [OF api_okD(1) [OF ok]]) (use that same in simp)
  with same show ?thesis
    unfolding order reachable_def using served serial(1) by (intro conjI exI [of _ replies] exI [of _ d']) simp_all
qed

text \<open>Two members order the same two products, listed the other way round, and there is not enough for both.\<close>

definition crossing_reservation :: create_reservation_dto where
  "crossing_reservation = \<lparr>cr_items = [\<lparr>productId = ''ca'', quantity = 3\<rparr>, \<lparr>productId = ''ba'', quantity = 1\<rparr>],
     cr_currency = None\<rparr>"

definition crossing_calls :: "stock_call list" where
  "crossing_calls =
     [Reserve (sample_env 3) sample_org sample_user sample_reservation ''k1'',
      Reserve (sample_env 4) sample_org sample_user crossing_reservation ''k2'']"

lemma crossing_facts:
  "\<forall>c \<in> set crossing_calls. servable db_stocked c"
  "distinct (concat (map new_ids crossing_calls))"
  "set (concat (map new_ids crossing_calls)) \<inter> ord_id ` set (orders db_stocked) = {}"
  "length crossing_calls = 2"
  by code_simp+

lemma crossing_decisions:
  "decide (script_of sample_sha (crossing_calls ! 1)) (rows_of db_stocked) =
    ([(KeyRow (''aa'', CREATE_OPERATION, ''k2''),
       KeyOf (req_requestFingerprint (create_request sample_sha sample_org crossing_reservation ''k2'')) 201),
      (OrderRow ''ea'', OrderOf ''aa'' Pending [(''ca'', 3), (''ba'', 1)]),
      (InventoryRow ''ca'', StockOf 4 3), (InventoryRow ''ba'', StockOf 10 1)], 201)"
  "snd (decide (script_of sample_sha (crossing_calls ! 0)) ((rows_of db_stocked)
      (KeyRow (''aa'', CREATE_OPERATION, ''k2'') := KeyOf fp 201,
       OrderRow ''ea'' := OrderOf ''aa'' Pending [(''ca'', 3), (''ba'', 1)],
       InventoryRow ''ca'' := StockOf 4 3, InventoryRow ''ba'' := StockOf 10 1))) = 409"
  by code_simp+

lemma crossing_serial:
  "fst (run_serial (map (script_of sample_sha) crossing_calls) [1, 0] (rows_of db_stocked)) = [(1, 201), (0, 409)]"
  by (simp add: run_alone_decide crossing_decisions crossing_facts(4) Let_def del: fun_upd_apply One_nat_def)

theorem interleaved_calls_serial_witness:
  "\<exists>S replies d'. sched_run frozen (begin_all (rows_of db_stocked) (map (script_of sample_sha) crossing_calls)) S \<and>
    commits S = [(1, 201), (0, 409)] \<and>
    serve_all sample_sha (map (\<lambda>(i, code). crossing_calls ! i) [(1, 201), (0, 409 :: nat)]) db_stocked = (replies, d') \<and>
    reachable sample_sha sample_argon2 d' \<and> rows S = rows_of d' \<and>
    list_all2 (\<lambda>(i, code) reply. has_status code reply) [(1 :: nat, 201), (0, 409)] replies"
proof -
  have "distinct [1, 0 :: nat]" "set [1, 0] \<subseteq> {..< length crossing_calls}" by (simp_all add: crossing_facts(4))
  from stock_calls.serial_possible [OF this, of "rows_of db_stocked" sample_sha] obtain S where
    S: "sched_run frozen (begin_all (rows_of db_stocked) (map (script_of sample_sha) crossing_calls)) S"
      "commits S = [(1, 201), (0, 409)]" unfolding crossing_serial by blast
  from interleaved_calls_serial [OF reachable_stocked crossing_facts(1-3) S(1)] show ?thesis
    unfolding S(2) using S by blast
qed

section \<open>Progress\<close>

text \<open>C10. Interleaved calls never deadlock: in every state of every interleaving, if a call is still
  running then some running call is not waiting for a row, all calls that are left can run to their
  commit, and no execution goes on for ever.\<close>

theorem concurrent_calls_complete:
  assumes "sched_run frozen (begin_all s (map (script_of sha) calls)) S"
  shows "(running S i \<longrightarrow> (\<exists>j. running S j \<and> \<not> blocked S j)) \<and>
    (\<exists>T. sched_run frozen S T \<and> (\<forall>j. \<not> running T j) \<and>
      (\<forall>j < length calls. tasks S ! j \<noteq> RolledBack \<longrightarrow> tasks T ! j \<noteq> RolledBack)) \<and>
    \<not> (\<exists>f. f 0 = S \<and> (\<forall>n. sched_step frozen (f n) (f (Suc n))))"
proof (intro conjI impI)
  show "\<exists>j. running S j \<and> \<not> blocked S j" if "running S i" by (rule stock_calls.never_stuck [OF assms that])
  show "\<exists>T. sched_run frozen S T \<and> (\<forall>j. \<not> running T j) \<and>
      (\<forall>j < length calls. tasks S ! j \<noteq> RolledBack \<longrightarrow> tasks T ! j \<noteq> RolledBack)"
    by (rule stock_calls.can_complete [OF assms])
  show "\<not> (\<exists>f. f 0 = S \<and> (\<forall>n. sched_step frozen (f n) (f (Suc n))))"
    using sched_step_ends [of frozen, unfolded wfp_def wf_iff_no_infinite_down_chain] by blast
qed

lemma both_claim:
  "\<exists>S. sched_run frozen (begin_all (rows_of db_stocked) (map (script_of sample_sha) crossing_calls)) S \<and>
    held S 0 \<noteq> {} \<and> held S 1 \<noteq> {} \<and> running S 0"
proof -
  let ?S = "begin_all (rows_of db_stocked) (map (script_of sample_sha) crossing_calls)"
  let ?rq = "\<lambda>dto key. create_request sample_sha sample_org dto key"
  obtain k0 k1 where scripts: "tasks ?S = [Running (Lock (KeyRow (request_key (?rq sample_reservation ''k1''))) k0),
      Running (Lock (KeyRow (request_key (?rq crossing_reservation ''k2''))) k1)]"
    by (simp add: begin_all_def crossing_calls_def reserve_script_def claiming_def Let_def)
  let ?K0 = "KeyRow (request_key (?rq sample_reservation ''k1''))" and ?K1 = "KeyRow (request_key (?rq crossing_reservation ''k2''))"
  have keys: "?K0 \<noteq> ?K1" by (simp add: request_key_def create_request_def)
  have thawed: "\<not> frozen ?K0 (rows ?S ?K0)" "\<not> frozen ?K1 (rows ?S ?K1)" unfolding begin_all_def by code_simp+
  let ?T = "?S\<lparr>owner := (if frozen ?K0 (rows ?S ?K0) then owner ?S else (owner ?S)(?K0 := Some 0)),
    tasks := (tasks ?S)[0 := Running (k0 (rows ?S ?K0))]\<rparr>"
  have T: "sched_step frozen ?S ?T" by (rule sched_step.lock) (simp_all add: scripts, simp add: begin_all_def)
  let ?U = "?T\<lparr>owner := (if frozen ?K1 (rows ?T ?K1) then owner ?T else (owner ?T)(?K1 := Some 1)),
    tasks := (tasks ?T)[1 := Running (k1 (rows ?T ?K1))]\<rparr>"
  have U: "sched_step frozen ?T ?U"
    by (rule sched_step.lock) (use keys thawed in \<open>simp_all add: scripts\<close>, simp add: begin_all_def)
  have "sched_run frozen ?S ?U" by (rule one_more [OF one_more [OF no_steps T] U])
  moreover have "?K0 \<in> held ?U 0" "?K1 \<in> held ?U 1" "running ?U 0"
    using keys thawed by (simp_all add: held_def running_def scripts)
  ultimately show ?thesis by blast
qed

theorem concurrent_calls_complete_witness:
  "\<exists>S. sched_run frozen (begin_all (rows_of db_stocked) (map (script_of sample_sha) crossing_calls)) S \<and>
    held S 0 \<noteq> {} \<and> held S 1 \<noteq> {} \<and> (\<exists>j. running S j \<and> \<not> blocked S j) \<and>
    (\<exists>T. sched_run frozen S T \<and> (\<forall>j. \<not> running T j))"
proof -
  obtain S where S: "sched_run frozen (begin_all (rows_of db_stocked) (map (script_of sample_sha) crossing_calls)) S"
    "held S 0 \<noteq> {}" "held S 1 \<noteq> {}" "running S 0" using both_claim by blast
  from concurrent_calls_complete [OF S(1), of 0] S show ?thesis by (intro exI [of _ S]) auto
qed

section \<open>Races for an order\<close>

primrec claimed_key :: "stock_call \<Rightarrow> uuid \<times> string \<times> string" where
  "claimed_key (Reserve e g u dto key) = (pg_uuid g, CREATE_OPERATION, key)"
| "claimed_key (Release e g u x key) = (pg_uuid g, RELEASE_OPERATION, key)"
| "claimed_key (Fulfill e g u x key) = (pg_uuid g, FULFILL_OPERATION, key)"
| "claimed_key (Adjust e g dto key) = (pg_uuid g, ADJUST_OPERATION, key)"

primrec settles :: "string \<Rightarrow> stock_call \<Rightarrow> bool" where
  \<comment> \<open>a transition of the order \<open>x\<close>\<close>
  "settles x (Reserve e g u dto key) \<longleftrightarrow> False"
| "settles x (Release e g u y key) \<longleftrightarrow> pg_uuid y = pg_uuid x"
| "settles x (Fulfill e g u y key) \<longleftrightarrow> pg_uuid y = pg_uuid x"
| "settles x (Adjust e g dto key) \<longleftrightarrow> False"

lemma request_keys:
  "request_key (create_request sha g dto key) = (pg_uuid g, CREATE_OPERATION, key)"
  "request_key (transition_request sha op g x key) = (pg_uuid g, op, key)"
  "request_key (adjust_request sha g adto key) = (pg_uuid g, ADJUST_OPERATION, key)"
  by (simp_all add: request_key_def create_request_def transition_request_def adjust_request_def)

text \<open>A call writes no key but its own.\<close>

lemma script_keys:
  assumes "k \<noteq> claimed_key c"
  shows "snd (run_alone (script_of sha c) s) (KeyRow k) = s (KeyRow k)"
proof -
  have key: "snd (run_alone (claiming rq work) s) (KeyRow k) = s (KeyRow k)"
    if "snd (run_alone work s) (KeyRow k) = s (KeyRow k)" for rq work
    using that by (auto simp: claiming_def split: row_value.split)
  have stock: "write_rows (map (\<lambda>(p, q). (InventoryRow (pg_uuid p), f p q)) ls) t (KeyRow k) = t (KeyRow k)"
    "write_rows (map (\<lambda>(p, q). (InventoryRow p, f p q)) ls) t (KeyRow k) = t (KeyRow k)"
    for f t and ls :: "(uuid \<times> int) list" by (auto intro!: write_rows_other)
  show ?thesis
    using assms
    by (cases c)
      (auto simp: reserve_script_def release_script_def fulfill_script_def reserve_body_def transition_body_def adjust_script_def Let_def
        stock request_keys intro!: key split: row_value.split)
qed

text \<open>A transition with a fresh key succeeds on a pending order only, and settles it.\<close>

lemma transition_succeeds:
  assumes "s (KeyRow (request_key rq)) = NoRow" and "new \<noteq> Pending"
    and "fst (run_alone (claiming rq (transition_body change new rq g x)) s) = 200"
  shows "(\<exists>g' lines. s (OrderRow (pg_uuid x)) = OrderOf g' Pending lines) \<and>
    frozen (OrderRow (pg_uuid x)) (snd (run_alone (claiming rq (transition_body change new rq g x)) s) (OrderRow (pg_uuid x)))"
proof -
  have stock: "write_rows (map (\<lambda>(p, q). (InventoryRow p, f p q)) ls) t (OrderRow y) = t (OrderRow y)"
    for f t y and ls :: "(uuid \<times> int) list" by (auto intro!: write_rows_other)
  show ?thesis
    using assms by (auto simp: transition_body_def claiming_def stock split: row_value.splits if_splits)
qed

lemma settling_succeeds:
  assumes "s (KeyRow (claimed_key c)) = NoRow" and "settles x c" and "fst (run_alone (script_of sha c) s) = 200"
  shows "\<not> frozen (OrderRow (pg_uuid x)) (s (OrderRow (pg_uuid x)))"
    and "frozen (OrderRow (pg_uuid x)) (snd (run_alone (script_of sha c) s) (OrderRow (pg_uuid x)))"
  using assms transition_succeeds [where s = s]
  by (cases c; force simp: release_script_def fulfill_script_def Let_def request_keys)+

lemma serial_settled:
  assumes "frozen (OrderRow (pg_uuid x)) (s (OrderRow (pg_uuid x)))"
    and "distinct (map (\<lambda>i. claimed_key (calls ! i)) order)" and "set order \<subseteq> {..< length calls}"
    and "\<And>i. i \<in> set order \<Longrightarrow> s (KeyRow (claimed_key (calls ! i))) = NoRow"
    and "(j, 200) \<in> set (fst (run_serial (map (script_of sha) calls) order s))"
  shows "\<not> settles x (calls ! j)"
  using assms
proof (induction order arbitrary: s)
  case (Cons i order)
  let ?t = "snd (run_alone (script_of sha (calls ! i)) s)"
  have i: "i < length calls" using Cons.prems(3) by simp
  have same: "?t (OrderRow (pg_uuid x)) = s (OrderRow (pg_uuid x))"
    by (rule stock_calls.frozen_kept [where s = s]) (rule Cons.prems(1))
  have keys: "?t (KeyRow (claimed_key (calls ! m))) = NoRow" if "m \<in> set order" for m
  proof -
    have "claimed_key (calls ! m) \<noteq> claimed_key (calls ! i)"
      using Cons.prems(2) imageI [OF that, of "\<lambda>i. claimed_key (calls ! i)"] by auto
    from script_keys [OF this] Cons.prems(4) that show ?thesis by simp
  qed
  show ?case
  proof (cases "(j, 200) \<in> set (fst (run_serial (map (script_of sha) calls) order ?t))")
    case True
    with Cons.prems same keys show ?thesis by (intro Cons.IH [of ?t]) simp_all
  next
    case False
    with Cons.prems(5) i have "j = i" "fst (run_alone (script_of sha (calls ! i)) s) = 200"
      by (auto simp: Let_def split: prod.splits)
    with settling_succeeds(1) [where s = s and c = "calls ! i" and x = x and sha = sha] Cons.prems(1,4)
    show ?thesis by auto
  qed
qed simp

lemma serial_one_wins:
  assumes "distinct (map (\<lambda>i. claimed_key (calls ! i)) order)" and "set order \<subseteq> {..< length calls}"
    and "\<And>i. i \<in> set order \<Longrightarrow> s (KeyRow (claimed_key (calls ! i))) = NoRow"
    and "(i, 200) \<in> set (fst (run_serial (map (script_of sha) calls) order s))"
    and "(j, 200) \<in> set (fst (run_serial (map (script_of sha) calls) order s))"
    and "settles x (calls ! i)" "settles x (calls ! j)"
  shows "i = j"
  using assms
proof (induction order arbitrary: s)
  case (Cons m order)
  let ?t = "snd (run_alone (script_of sha (calls ! m)) s)"
  let ?cs = "fst (run_serial (map (script_of sha) calls) order ?t)"
  have m: "m < length calls" "s (KeyRow (claimed_key (calls ! m))) = NoRow" using Cons.prems(2,3) by simp_all
  have keys: "?t (KeyRow (claimed_key (calls ! n))) = NoRow" if "n \<in> set order" for n
  proof -
    have "claimed_key (calls ! n) \<noteq> claimed_key (calls ! m)"
      using Cons.prems(1) imageI [OF that, of "\<lambda>i. claimed_key (calls ! i)"] by auto
    from script_keys [OF this] Cons.prems(3) that show ?thesis by simp
  qed
  have head: "n = m \<and> fst (run_alone (script_of sha (calls ! m)) s) = 200 \<or> (n, 200) \<in> set ?cs"
    if "(n, 200) \<in> set (fst (run_serial (map (script_of sha) calls) (m # order) s))" for n
    using that m(1) by (auto simp: Let_def split: prod.splits)
  have rest: "\<not> settles x (calls ! n)"
    if "settles x (calls ! m)" "fst (run_alone (script_of sha (calls ! m)) s) = 200" "(n, 200) \<in> set ?cs" for n
    using settling_succeeds(2) [where s = s and c = "calls ! m", OF m(2) that(1,2)] Cons.prems(1,2) keys that(3)
    by (intro serial_settled [of x ?t calls order n sha]) simp_all
  show ?case
    using head [OF Cons.prems(4)] head [OF Cons.prems(5)] rest Cons.prems Cons.IH [of ?t] keys by auto
qed simp

text \<open>C9. Two transitions of one order never both succeed: of releases and fulfillments that run side by
  side with keys of their own, at most one of an order is answered 200, however they interleave.\<close>

theorem one_transition_wins:
  assumes "sched_run frozen (begin_all s (map (script_of sha) calls)) S"
    and "distinct (map claimed_key calls)" and "\<forall>c \<in> set calls. s (KeyRow (claimed_key c)) = NoRow"
    and "tasks S ! i = Committed 200" "i < length calls" "settles x (calls ! i)"
    and "tasks S ! j = Committed 200" "j < length calls" "settles x (calls ! j)"
  shows "i = j"
proof -
  note serial = stock_calls.serializable [OF assms(1)]
  have order: "set (map fst (commits S)) \<subseteq> {..< length calls}" using serial(3) by auto
  have "inj_on (\<lambda>i. claimed_key (calls ! i)) {..< length calls}"
    using assms(2) by (auto simp: inj_on_def distinct_conv_nth)
  then have "distinct (map (\<lambda>i. claimed_key (calls ! i)) (map fst (commits S)))"
    unfolding distinct_map [of _ "map fst (commits S)"] using serial(2) order inj_on_subset by blast
  moreover have "(i, 200) \<in> set (commits S)" "(j, 200) \<in> set (commits S)" using serial(3) assms(4-9) by auto
  moreover have "s (KeyRow (claimed_key (calls ! n))) = NoRow" if "n \<in> set (map fst (commits S))" for n
    using that order assms(3) by auto
  ultimately show ?thesis
    using order assms(6,9) serial(1)
    by (intro serial_one_wins [of calls "map fst (commits S)" s i sha j x]) simp_all
qed


definition racing_calls :: "stock_call list" where
  "racing_calls =
     [Fulfill (sample_env 4) sample_org sample_user ''da'' ''k2'',
      Release (sample_env 4) sample_org sample_user ''DA'' ''k2'']"

lemma racing_facts:
  "distinct (map claimed_key racing_calls)"
  "\<forall>c \<in> set racing_calls. rows_of db_reserved (KeyRow (claimed_key c)) = NoRow"
  "settles ''da'' (racing_calls ! 0)" "settles ''da'' (racing_calls ! 1)" "length racing_calls = 2"
  by code_simp+

lemma racing_decisions:
  "decide (script_of sample_sha (racing_calls ! 1)) (rows_of db_reserved) =
    ([(KeyRow (''aa'', RELEASE_OPERATION, ''k2''),
       KeyOf (req_requestFingerprint (transition_request sample_sha RELEASE_OPERATION sample_org ''DA'' ''k2'')) 200),
      (OrderRow ''da'', OrderOf ''aa'' Cancelled [(''ba'', 3), (''ca'', 2)]),
      (InventoryRow ''ba'', StockOf 10 0), (InventoryRow ''ca'', StockOf 4 0)], 200)"
  "snd (decide (script_of sample_sha (racing_calls ! 0)) ((rows_of db_reserved)
      (KeyRow (''aa'', RELEASE_OPERATION, ''k2'') := KeyOf fp 200,
       OrderRow ''da'' := OrderOf ''aa'' Cancelled [(''ba'', 3), (''ca'', 2)],
       InventoryRow ''ba'' := StockOf 10 0, InventoryRow ''ca'' := StockOf 4 0))) = 409"
  by code_simp+

lemma racing_serial:
  "fst (run_serial (map (script_of sample_sha) racing_calls) [1, 0] (rows_of db_reserved)) = [(1, 200), (0, 409)]"
  by (simp add: run_alone_decide racing_decisions racing_facts(5) Let_def del: fun_upd_apply One_nat_def)

theorem one_transition_wins_witness:
  "\<exists>S. sched_run frozen (begin_all (rows_of db_reserved) (map (script_of sample_sha) racing_calls)) S \<and>
    tasks S ! 1 = Committed 200 \<and> tasks S ! 0 \<noteq> Committed 200"
proof -
  have "distinct [1, 0 :: nat]" "set [1, 0] \<subseteq> {..< length racing_calls}" by (simp_all add: racing_facts(5))
  from stock_calls.serial_possible [OF this, of "rows_of db_reserved" sample_sha] obtain S where
    S: "sched_run frozen (begin_all (rows_of db_reserved) (map (script_of sample_sha) racing_calls)) S"
      "commits S = [(1, 200), (0, 409)]" unfolding racing_serial by blast
  have won: "tasks S ! 1 = Committed 200" using stock_calls.serializable(3) [OF S(1)] S(2) by auto
  note race = one_transition_wins [OF S(1) racing_facts(1,2), of 1 "''da''"]
  from race [of 0] won racing_facts(3-5) S(1) show ?thesis by auto
qed

end
