(* ===== verification/Config.thy ===== *)
theory Config
  imports Pagination
begin

text \<open>
  The configuration of the API (\<open>config/env.validation.ts\<close>): the schema of the environment
  variables with its defaults, and the error that names the offending fields only.

  \<open>Number\<close> and the URL parser behind the schema's \<open>url()\<close> are parameters.
\<close>

datatype node_env = Development | TestEnv | Production

record env_config =
  cfg_NODE_ENV :: node_env
  cfg_PORT :: int
  cfg_WEB_ORIGIN :: string
  cfg_DATABASE_URL :: string
  cfg_REDIS_URL :: string
  cfg_SESSION_COOKIE_NAME :: string
  cfg_CSRF_COOKIE_NAME :: string

text \<open>The parsers that are not of the repository: \<open>Number\<close> and \<open>new URL\<close>.\<close>

record env_parsers =
  ep_number :: "string \<Rightarrow> js_number"
  ep_is_url :: "string \<Rightarrow> bool"

text \<open>A field is its value, or the issues found with it.\<close>

type_synonym 'a field = "string list + 'a"

definition enum_field :: "string option \<Rightarrow> node_env field" where
  "enum_field raw =
     (case raw of
        None \<Rightarrow> Inr Development
      | Some s \<Rightarrow> if s = ''development'' then Inr Development else if s = ''test'' then Inr TestEnv
          else if s = ''production'' then Inr Production else Inl [''NODE_ENV''])"

definition port_field :: "env_parsers \<Rightarrow> string option \<Rightarrow> int field" where
  \<comment> \<open>\<open>z.coerce.number().int().positive().default(3001)\<close>: one issue per failed check\<close>
  "port_field ps raw =
     (case raw of
        None \<Rightarrow> Inr 3001
      | Some s \<Rightarrow>
          (case ep_number ps s of
             Finite n k \<Rightarrow>
               let issues = (if n mod int (Suc k) = 0 then [] else [''PORT'']) @ (if n > 0 then [] else [''PORT''])
               in if issues = [] then Inr (n div int (Suc k)) else Inl issues
           | _ \<Rightarrow> Inl [''PORT'']))"

definition url_field :: "env_parsers \<Rightarrow> string \<Rightarrow> string \<Rightarrow> string option \<Rightarrow> string field" where
  "url_field ps name dflt raw =
     (case raw of None \<Rightarrow> Inr dflt | Some s \<Rightarrow> if ep_is_url ps s then Inr s else Inl [name])"

definition text_field :: "string \<Rightarrow> string option \<Rightarrow> string option \<Rightarrow> string field" where
  \<comment> \<open>\<open>z.string().min(1)\<close> with or without a default\<close>
  "text_field name dflt raw =
     (case raw of
        None \<Rightarrow> (case dflt of None \<Rightarrow> Inl [name] | Some v \<Rightarrow> Inr v)
      | Some s \<Rightarrow> if s = [] then Inl [name] else Inr s)"

definition issues_of :: "'a field \<Rightarrow> string list" where
  "issues_of f = (case f of Inl is \<Rightarrow> is | Inr _ \<Rightarrow> [])"

text \<open>All fields of an object are checked, and their issues come in the order of the schema.\<close>

definition collect :: "'a field \<Rightarrow> 'b field \<Rightarrow> ('a \<times> 'b) field" where
  "collect f g =
     (case (f, g) of (Inr x, Inr y) \<Rightarrow> Inr (x, y) | _ \<Rightarrow> Inl (issues_of f @ issues_of g))"

fun config_of ::
  "node_env \<times> int \<times> string \<times> string \<times> string \<times> string \<times> string \<Rightarrow> env_config" where
  "config_of (e, p, w, d, r, s, c) =
     \<lparr>cfg_NODE_ENV = e, cfg_PORT = p, cfg_WEB_ORIGIN = w, cfg_DATABASE_URL = d,
      cfg_REDIS_URL = r, cfg_SESSION_COOKIE_NAME = s, cfg_CSRF_COOKIE_NAME = c\<rparr>"

definition envSchema :: "env_parsers \<Rightarrow> (string \<Rightarrow> string option) \<Rightarrow> env_config field" where
  "envSchema ps config =
     map_sum id config_of
       (collect (enum_field (config ''NODE_ENV''))
       (collect (port_field ps (config ''PORT''))
       (collect (url_field ps ''WEB_ORIGIN'' ''http://localhost:3000'' (config ''WEB_ORIGIN''))
       (collect (text_field ''DATABASE_URL'' None (config ''DATABASE_URL''))
       (collect (text_field ''REDIS_URL'' (Some ''redis://localhost:6379'') (config ''REDIS_URL''))
       (collect (text_field ''SESSION_COOKIE_NAME'' (Some ''fulfillos.sid'') (config ''SESSION_COOKIE_NAME''))
         (text_field ''CSRF_COOKIE_NAME'' (Some ''fulfillos.csrf'') (config ''CSRF_COOKIE_NAME''))))))))"

definition validateEnv :: "env_parsers \<Rightarrow> (string \<Rightarrow> string option) \<Rightarrow> exn + env_config" where
  "validateEnv ps config =
     (case envSchema ps config of
        Inl fieldNames \<Rightarrow>
          Inl (PlainError (''Invalid environment configuration for: '' @ join '', '' fieldNames))
      | Inr data \<Rightarrow> Inr data)"

section \<open>Facts\<close>

lemmas field_defs = enum_field_def port_field_def url_field_def text_field_def issues_of_def Let_def

lemma collect_Inr_iff: "collect f g = Inr p \<longleftrightarrow> f = Inr (fst p) \<and> g = Inr (snd p)"
  by (cases f; cases g; cases p) (auto simp: collect_def)

lemma collect_Inl_iff: "collect f g = Inl is \<longleftrightarrow> (\<nexists>x y. f = Inr x \<and> g = Inr y) \<and> is = issues_of f @ issues_of g"
  by (cases f; cases g) (auto simp: collect_def)

lemma issues_collect [simp]: "issues_of (collect f g) = issues_of f @ issues_of g"
  by (cases f; cases g) (auto simp: collect_def issues_of_def)

lemma map_sum_Inr_iff: "map_sum id h f = Inr y \<longleftrightarrow> (\<exists>x. y = h x \<and> f = Inr x)"
  by (cases f) auto

lemma map_sum_Inl_iff: "map_sum id h f = Inl e \<longleftrightarrow> f = Inl e"
  by (cases f) auto

lemma issues_map [simp]: "issues_of (map_sum id h f) = issues_of f"
  by (cases f) (auto simp: issues_of_def)

lemma field_issue_names:
  "set (issues_of (enum_field raw)) \<subseteq> {''NODE_ENV''}" "set (issues_of (port_field ps raw)) \<subseteq> {''PORT''}"
  "set (issues_of (url_field ps name v raw)) \<subseteq> {name}" "set (issues_of (text_field name dflt raw)) \<subseteq> {name}"
  by (auto simp: field_defs split: option.splits js_number.splits)

lemma envSchema_issues:
  assumes "envSchema ps config = Inl is"
  shows "set is \<subseteq> {''NODE_ENV'', ''PORT'', ''WEB_ORIGIN'', ''DATABASE_URL'', ''REDIS_URL'',
    ''SESSION_COOKIE_NAME'', ''CSRF_COOKIE_NAME''}"
proof -
  have "is = issues_of (envSchema ps config)" using assms by (simp add: issues_of_def)
  then show ?thesis
    unfolding envSchema_def issues_map issues_collect by (auto dest!: field_issue_names [THEN subsetD])
qed

text \<open>The accepted configurations are usable: a positive port, and no empty name.\<close>

lemma port_field_positive: "port_field ps raw = Inr p \<Longrightarrow> 0 < p"
proof -
  have div: "0 < n div int (Suc k)" if "n mod int (Suc k) = 0" "0 < n" for n k
    using zdvd_imp_le [of "int (Suc k)" n] that by (simp only: pos_imp_zdiv_pos_iff) (simp add: mod_0_imp_dvd)
  then show "port_field ps raw = Inr p \<Longrightarrow> 0 < p"
    by (auto simp: port_field_def Let_def split: option.splits js_number.splits if_splits simp del: of_nat_Suc)
qed

lemma text_field_nonempty: "text_field name dflt raw = Inr s \<Longrightarrow> dflt \<noteq> Some [] \<Longrightarrow> s \<noteq> []"
  by (auto simp: text_field_def split: option.splits if_splits)

lemma envSchema_Inr:
  assumes "envSchema ps config = Inr c"
  shows "enum_field (config ''NODE_ENV'') = Inr (cfg_NODE_ENV c)" "port_field ps (config ''PORT'') = Inr (cfg_PORT c)"
    "url_field ps ''WEB_ORIGIN'' ''http://localhost:3000'' (config ''WEB_ORIGIN'') = Inr (cfg_WEB_ORIGIN c)"
    "text_field ''DATABASE_URL'' None (config ''DATABASE_URL'') = Inr (cfg_DATABASE_URL c)"
    "text_field ''REDIS_URL'' (Some ''redis://localhost:6379'') (config ''REDIS_URL'') = Inr (cfg_REDIS_URL c)"
    "text_field ''SESSION_COOKIE_NAME'' (Some ''fulfillos.sid'') (config ''SESSION_COOKIE_NAME'') =
      Inr (cfg_SESSION_COOKIE_NAME c)"
    "text_field ''CSRF_COOKIE_NAME'' (Some ''fulfillos.csrf'') (config ''CSRF_COOKIE_NAME'') = Inr (cfg_CSRF_COOKIE_NAME c)"
proof -
  obtain x where x: "c = config_of x" and f: "collect (enum_field (config ''NODE_ENV''))
       (collect (port_field ps (config ''PORT''))
       (collect (url_field ps ''WEB_ORIGIN'' ''http://localhost:3000'' (config ''WEB_ORIGIN''))
       (collect (text_field ''DATABASE_URL'' None (config ''DATABASE_URL''))
       (collect (text_field ''REDIS_URL'' (Some ''redis://localhost:6379'') (config ''REDIS_URL''))
       (collect (text_field ''SESSION_COOKIE_NAME'' (Some ''fulfillos.sid'') (config ''SESSION_COOKIE_NAME''))
         (text_field ''CSRF_COOKIE_NAME'' (Some ''fulfillos.csrf'') (config ''CSRF_COOKIE_NAME''))))))) = Inr x"
    using assms unfolding envSchema_def map_sum_Inr_iff by blast
  note f = f [unfolded collect_Inr_iff]
  obtain e p w d r s t where x': "x = (e, p, w, d, r, s, t)" by (cases x) auto
  show "enum_field (config ''NODE_ENV'') = Inr (cfg_NODE_ENV c)" "port_field ps (config ''PORT'') = Inr (cfg_PORT c)"
    "url_field ps ''WEB_ORIGIN'' ''http://localhost:3000'' (config ''WEB_ORIGIN'') = Inr (cfg_WEB_ORIGIN c)"
    "text_field ''DATABASE_URL'' None (config ''DATABASE_URL'') = Inr (cfg_DATABASE_URL c)"
    "text_field ''REDIS_URL'' (Some ''redis://localhost:6379'') (config ''REDIS_URL'') = Inr (cfg_REDIS_URL c)"
    "text_field ''SESSION_COOKIE_NAME'' (Some ''fulfillos.sid'') (config ''SESSION_COOKIE_NAME'') =
      Inr (cfg_SESSION_COOKIE_NAME c)"
    "text_field ''CSRF_COOKIE_NAME'' (Some ''fulfillos.csrf'') (config ''CSRF_COOKIE_NAME'') = Inr (cfg_CSRF_COOKIE_NAME c)"
    using f by (simp_all add: x x')
qed

lemma envSchema_config:
  assumes "envSchema ps config = Inr c"
  shows "0 < cfg_PORT c \<and> cfg_DATABASE_URL c \<noteq> [] \<and> cfg_REDIS_URL c \<noteq> [] \<and>
    cfg_SESSION_COOKIE_NAME c \<noteq> [] \<and> cfg_CSRF_COOKIE_NAME c \<noteq> []"
  using port_field_positive [OF envSchema_Inr(2) [OF assms]]
    text_field_nonempty [OF envSchema_Inr(4) [OF assms]] text_field_nonempty [OF envSchema_Inr(5) [OF assms]]
    text_field_nonempty [OF envSchema_Inr(6) [OF assms]] text_field_nonempty [OF envSchema_Inr(7) [OF assms]]
  by simp

section \<open>What validation guarantees\<close>

text \<open>C40. A configuration that validates has the types the application relies on: a positive port, an
  allowed origin that is a URL or the default one, and no empty connection string or cookie name; and one
  that does not validate is refused with an error made of the names of its variables only, never of
  their values.\<close>

theorem validated_config_typed:
  "case validateEnv ps config of
     Inr c \<Rightarrow> 0 < cfg_PORT c \<and> (ep_is_url ps (cfg_WEB_ORIGIN c) \<or> config ''WEB_ORIGIN'' = None) \<and>
       cfg_DATABASE_URL c \<noteq> [] \<and> cfg_REDIS_URL c \<noteq> [] \<and> cfg_SESSION_COOKIE_NAME c \<noteq> [] \<and> cfg_CSRF_COOKIE_NAME c \<noteq> []
   | Inl e \<Rightarrow> \<exists>fieldNames. e = PlainError (''Invalid environment configuration for: '' @ join '', '' fieldNames) \<and>
       set fieldNames \<subseteq> {''NODE_ENV'', ''PORT'', ''WEB_ORIGIN'', ''DATABASE_URL'', ''REDIS_URL'',
         ''SESSION_COOKIE_NAME'', ''CSRF_COOKIE_NAME''}"
proof (cases "envSchema ps config")
  case (Inl fieldNames)
  with envSchema_issues [OF Inl] show ?thesis unfolding validateEnv_def Inl by (simp del: insert_subset) blast
next
  case (Inr c)
  have "ep_is_url ps (cfg_WEB_ORIGIN c) \<or> config ''WEB_ORIGIN'' = None"
    using envSchema_Inr(3) [OF Inr] by (auto simp: url_field_def split: option.splits if_splits)
  with envSchema_config [OF Inr] show ?thesis by (simp add: validateEnv_def Inr)
qed

end
