(* ===== verification/Guards.thy ===== *)
theory Guards
  imports Config Auth Organizations
begin

text \<open>
  What stands between a request and a service: cookies (\<open>auth/cookie.util.ts\<close>), the guards
  (\<open>auth/guards\<close>, \<open>organizations/guards\<close>) and the \<open>Idempotency-Key\<close> header
  (\<open>idempotency/idempotency-key.decorator.ts\<close>).

  A guard returns what it attaches to the request, or the exception it throws; what it did to the
  database or to Redis stays done either way.  The two Redis commands are parameters.
\<close>

section \<open>Requests\<close>

text \<open>\<open>cookie-parser\<close> gives a cookie as a string, or as the value of its JSON text.\<close>

datatype cookie_value = CookieText string | CookieJson json

datatype header_value = OneHeader string | ManyHeaders "string list"

record http_request =
  rq_method :: string
  rq_path :: string
  rq_ip :: "string option"
  rq_cookies :: "string \<Rightarrow> cookie_value option"
  rq_headers :: "string \<Rightarrow> header_value option"
  rq_params :: "string \<Rightarrow> string option"

text \<open>\<open>Array.isArray(header) ? header[0] : header\<close>\<close>

definition first_header :: "header_value option \<Rightarrow> string option" where
  "first_header h =
     (case h of
        None \<Rightarrow> None
      | Some (OneHeader v) \<Rightarrow> Some v
      | Some (ManyHeaders vs) \<Rightarrow> (case vs of [] \<Rightarrow> None | v # _ \<Rightarrow> Some v))"

definition http_error :: "nat \<Rightarrow> string \<Rightarrow> exn" where
  "http_error code m = HttpException (RejectBody (Message m)) code"

section \<open>Cookies\<close>

record cookie_names =
  cn_session :: string
  cn_csrf :: string

definition resolveCookieNames :: "cookie_names \<Rightarrow> bool \<Rightarrow> cookie_names" where
  "resolveCookieNames names isProduction =
     (if \<not> isProduction then names
      else \<lparr>cn_session = ''__Host-'' @ cn_session names, cn_csrf = ''__Host-'' @ cn_csrf names\<rparr>)"

record cookie_options =
  co_httpOnly :: bool
  co_secure :: bool
  co_sameSite :: string
  co_path :: string
  co_maxAge :: "int option"

datatype cookie_op = SetCookie string string cookie_options | ClearCookie string cookie_options

definition setSessionCookie :: "string \<Rightarrow> string \<Rightarrow> bool \<Rightarrow> cookie_op" where
  "setSessionCookie cookieName token isProduction = SetCookie cookieName token
     \<lparr>co_httpOnly = True, co_secure = isProduction, co_sameSite = ''lax'', co_path = ''/'',
      co_maxAge = Some ABSOLUTE_TIMEOUT_MS\<rparr>"

definition clearSessionCookie :: "string \<Rightarrow> bool \<Rightarrow> cookie_op" where
  "clearSessionCookie cookieName isProduction = ClearCookie cookieName
     \<lparr>co_httpOnly = True, co_secure = isProduction, co_sameSite = ''lax'', co_path = ''/'', co_maxAge = None\<rparr>"

definition setCsrfCookie :: "string \<Rightarrow> string \<Rightarrow> bool \<Rightarrow> cookie_op" where
  "setCsrfCookie cookieName token isProduction = SetCookie cookieName token
     \<lparr>co_httpOnly = False, co_secure = isProduction, co_sameSite = ''lax'', co_path = ''/'',
      co_maxAge = Some ABSOLUTE_TIMEOUT_MS\<rparr>"

definition clearCsrfCookie :: "string \<Rightarrow> bool \<Rightarrow> cookie_op" where
  "clearCsrfCookie cookieName isProduction = ClearCookie cookieName
     \<lparr>co_httpOnly = False, co_secure = isProduction, co_sameSite = ''lax'', co_path = ''/'', co_maxAge = None\<rparr>"

lemmas cookie_defs = setSessionCookie_def clearSessionCookie_def setCsrfCookie_def clearCsrfCookie_def

section \<open>Sessions\<close>

text \<open>\<open>request.cookies?.[cookieName]\<close>, where only a string that is not empty is a token.\<close>

definition cookie_token :: "http_request \<Rightarrow> string \<Rightarrow> string option" where
  "cookie_token rq cookieName =
     (case rq_cookies rq cookieName of
        Some (CookieText token) \<Rightarrow> if token = [] then None else Some token
      | _ \<Rightarrow> None)"

text \<open>The name of the cookie is the configured one.\<close>

definition SessionAuthGuard ::
  "(string \<Rightarrow> string) \<Rightarrow> env_config \<Rightarrow> bool \<Rightarrow> js_date \<Rightarrow> http_request \<Rightarrow> db \<Rightarrow>
     (exn + (session \<times> user) option) \<times> db" where
  "SessionAuthGuard sha cfg isPublic now rq d =
     (case cookie_token rq (cfg_SESSION_COOKIE_NAME cfg) of
        None \<Rightarrow>
          (if isPublic then Inr None else Inl (http_error 401 ''Authentication required.''), d)
      | Some token \<Rightarrow>
          (case validateToken sha now token d of
             (None, d') \<Rightarrow>
               (if isPublic then Inr None else Inl (http_error 401 ''Session is invalid or has expired.''), d')
           | (Some result, d') \<Rightarrow> (Inr (Some result), d')))"

section \<open>CSRF\<close>

definition CSRF_HEADER :: string where
  "CSRF_HEADER = ''x-csrf-token''"

definition SAFE_METHODS :: "string list" where
  "SAFE_METHODS = [''GET'', ''HEAD'', ''OPTIONS'']"

definition CsrfGuard :: "(string \<Rightarrow> string) \<Rightarrow> http_request \<Rightarrow> session option \<Rightarrow> exn + unit" where
  "CsrfGuard sha rq authSession =
     (if rq_method rq \<in> set SAFE_METHODS then Inr ()
      else (case authSession of
              None \<Rightarrow> Inl (http_error 403 ''CSRF validation requires an authenticated session.'')
            | Some s \<Rightarrow>
                (case first_header (rq_headers rq CSRF_HEADER) of
                   Some candidate \<Rightarrow>
                     if candidate = [] \<or> \<not> verifyCsrfToken sha s candidate
                     then Inl (http_error 403 ''Missing or invalid CSRF token.'') else Inr ()
                 | None \<Rightarrow> Inl (http_error 403 ''Missing or invalid CSRF token.''))))"

section \<open>Rate limits\<close>

record 'r redis_commands =
  redis_incr :: "js_date \<Rightarrow> string \<Rightarrow> 'r \<Rightarrow> int \<times> 'r"
  redis_expire :: "js_date \<Rightarrow> string \<Rightarrow> int \<Rightarrow> 'r \<Rightarrow> 'r"

record rate_limit =
  rl_limit :: int
  rl_windowSeconds :: int

definition rate_limit_key :: "http_request \<Rightarrow> string option \<Rightarrow> string" where
  "rate_limit_key rq routePath =
     (let clientKey = (case rq_ip rq of None \<Rightarrow> ''unknown'' | Some ip \<Rightarrow> ip);
          routeKey = rq_method rq @ '':'' @ (case routePath of None \<Rightarrow> rq_path rq | Some p \<Rightarrow> p)
      in ''ratelimit:'' @ routeKey @ '':'' @ clientKey)"

definition RateLimitGuard ::
  "'r redis_commands \<Rightarrow> rate_limit option \<Rightarrow> string option \<Rightarrow> js_date \<Rightarrow> http_request \<Rightarrow> 'r \<Rightarrow>
     (exn + unit) \<times> 'r" where
  "RateLimitGuard redis options routePath now rq r =
     (case options of
        None \<Rightarrow> (Inr (), r)
      | Some opts \<Rightarrow>
          (let redisKey = rate_limit_key rq routePath;
               (count, r1) = redis_incr redis now redisKey r;
               r2 = (if count = 1 then redis_expire redis now redisKey (rl_windowSeconds opts) r1 else r1)
           in (if count > rl_limit opts
               then Inl (http_error 429 ''Too many requests. Please try again later.'') else Inr (), r2)))"

section \<open>Membership and roles\<close>

definition is_hex :: "char \<Rightarrow> bool" where
  "is_hex c =
     (let n = (of_char c :: nat) in 48 \<le> n \<and> n \<le> 57 \<or> 65 \<le> n \<and> n \<le> 70 \<or> 97 \<le> n \<and> n \<le> 102)"

text \<open>\<open>/^[0-9a-f]{8}-[0-9a-f]{4}-[0-9a-f]{4}-[0-9a-f]{4}-[0-9a-f]{12}$/i\<close>\<close>

definition UUID_PATTERN :: "string \<Rightarrow> bool" where
  "UUID_PATTERN s \<longleftrightarrow>
     length s = 36 \<and>
     list_all (\<lambda>(i, c). if i \<in> {8, 13, 18, 23} then c = CHR ''-'' else is_hex c) (zip [0..<36] s)"

definition MembershipGuard ::
  "http_request \<Rightarrow> user option \<Rightarrow> db \<Rightarrow> exn + membership" where
  "MembershipGuard rq authUser d =
     (case rq_params rq ''organizationId'' of
        None \<Rightarrow> Inl (http_error 400 ''organizationId route parameter must be a valid UUID.'')
      | Some organizationId \<Rightarrow>
          if \<not> UUID_PATTERN organizationId
          then Inl (http_error 400 ''organizationId route parameter must be a valid UUID.'')
          else (case authUser of
                  None \<Rightarrow> Inl (TypeError ''Cannot read properties of undefined (reading 'id')'')
                | Some u \<Rightarrow>
                    (case getMembership d (usr_id u) organizationId of
                       None \<Rightarrow> Inl (http_error 404 ''Organization not found.'')
                     | Some m \<Rightarrow> Inr m)))"

definition RolesGuard :: "membership_role list \<Rightarrow> membership option \<Rightarrow> exn + unit" where
  "RolesGuard requiredRoles membership =
     (if requiredRoles = [] then Inr ()
      else (case membership of
              None \<Rightarrow> Inl (TypeError ''Cannot read properties of undefined (reading 'role')'')
            | Some m \<Rightarrow>
                if mem_role m \<notin> set requiredRoles
                then Inl (http_error 403 ''Your role does not permit this action.'') else Inr ()))"

section \<open>The idempotency key of a request\<close>

definition IDEMPOTENCY_HEADER :: string where
  "IDEMPOTENCY_HEADER = ''idempotency-key''"

definition IDEMPOTENCY_MAX_LENGTH :: nat where
  "IDEMPOTENCY_MAX_LENGTH = 200"

definition IdempotencyKey :: "http_request \<Rightarrow> exn + string" where
  "IdempotencyKey rq =
     (case first_header (rq_headers rq IDEMPOTENCY_HEADER) of
        None \<Rightarrow> Inl (http_error 400 ''The \"idempotency-key\" header is required for this request.'')
      | Some value \<Rightarrow>
          if js_trim value = []
          then Inl (http_error 400 ''The \"idempotency-key\" header is required for this request.'')
          else if length value > IDEMPOTENCY_MAX_LENGTH
          then Inl (http_error 400 ''The \"idempotency-key\" header must be at most 200 characters.'')
          else Inr value)"

section \<open>What a passed guard has established\<close>

lemma http_error_eq [simp]: "http_error c m = http_error c' m' \<longleftrightarrow> c = c' \<and> m = m'"
  by (auto simp: http_error_def)

lemma cookie_token_Some:
  "cookie_token rq c = Some t \<longleftrightarrow> rq_cookies rq c = Some (CookieText t) \<and> t \<noteq> []"
  by (auto simp: cookie_token_def split: option.splits cookie_value.splits if_splits)

lemma SessionAuthGuard_snd:
  "snd (SessionAuthGuard sha cfg pub now rq d) = d \<or>
   (\<exists>t. snd (SessionAuthGuard sha cfg pub now rq d) = snd (validateToken sha now t d))"
proof (cases "cookie_token rq (cfg_SESSION_COOKIE_NAME cfg)")
  case (Some t)
  then have "snd (SessionAuthGuard sha cfg pub now rq d) = snd (validateToken sha now t d)"
    by (simp add: SessionAuthGuard_def split: option.split prod.split)
  then show ?thesis by blast
qed (simp add: SessionAuthGuard_def)

lemma SessionAuthGuard_Some:
  "fst (SessionAuthGuard sha cfg pub now rq d) = Inr (Some (s, u)) \<longleftrightarrow>
   (\<exists>t. cookie_token rq (cfg_SESSION_COOKIE_NAME cfg) = Some t \<and> find_session sha now t d = Some (s, u))"
  by (auto simp: SessionAuthGuard_def validateToken_def split: option.splits prod.splits)

lemma SessionAuthGuard_None:
  "fst (SessionAuthGuard sha cfg pub now rq d) = Inr None \<Longrightarrow> pub"
  by (auto simp: SessionAuthGuard_def split: option.splits prod.splits if_splits)

lemma CsrfGuard_Inr:
  "CsrfGuard sha rq s = Inr () \<longleftrightarrow>
   rq_method rq \<in> set SAFE_METHODS \<or>
   (\<exists>r c. s = Some r \<and> first_header (rq_headers rq CSRF_HEADER) = Some c \<and> c \<noteq> [] \<and> verifyCsrfToken sha r c)"
  by (auto simp: CsrfGuard_def split: option.splits)

lemma MembershipGuard_Inr:
  "MembershipGuard rq u d = Inr m \<longleftrightarrow>
   (\<exists>g usr. rq_params rq ''organizationId'' = Some g \<and> UUID_PATTERN g \<and> u = Some usr \<and>
      getMembership d (usr_id usr) g = Some m)"
  by (auto simp: MembershipGuard_def split: option.splits)

lemma RolesGuard_Inr:
  "RolesGuard rs m = Inr () \<longleftrightarrow> rs = [] \<or> (\<exists>r. m = Some r \<and> mem_role r \<in> set rs)"
  by (auto simp: RolesGuard_def split: option.splits)

lemma IdempotencyKey_Inr:
  "IdempotencyKey rq = Inr k \<longleftrightarrow>
   first_header (rq_headers rq IDEMPOTENCY_HEADER) = Some k \<and> js_trim k \<noteq> [] \<and> length k \<le> IDEMPOTENCY_MAX_LENGTH"
  by (auto simp: IdempotencyKey_def split: option.splits)

end
