(* ===== verification/Controllers.thy ===== *)
theory Controllers
  imports Guards System
begin

text \<open>
  The controllers of the API with their decorators: for each controller a type of its calls, the
  route of each call (method, path, status code, guards, required roles) and its handler.  The typed
  arguments of a call are the validated body or query of the request; ids come from the path.

  \<open>respond\<close> is the life of a request: the global \<open>SessionAuthGuard\<close>, the guards of the controller and
  the method in order, the parameters, the handler.
\<close>

section \<open>The application\<close>

text \<open>
  What the handlers use that is not of the repository: the checks of the validation library and the
  exceptions of its pipes, Redis, the collation of the database, and the parameters of the services.
\<close>

record 'r api =
  ap_config :: env_config
  ap_sha :: "string \<Rightarrow> string"
  ap_argon2 :: argon2
  ap_codec :: codec
  ap_collation :: "string \<Rightarrow> string"
  ap_isEmail :: "string \<Rightarrow> bool"
  ap_isUUID :: "string \<Rightarrow> bool"
  ap_parseUUID :: "string \<Rightarrow> bool"
  ap_invalidBody :: exn
  ap_invalidUUID :: exn
  ap_redis :: "'r redis_commands"

text \<open>What one call takes from its surroundings; \<open>ci_later\<close> is what a fresh read after a rollback sees.\<close>

record call_input =
  ci_env :: env
  ci_token :: string
  ci_csrfToken :: string
  ci_later :: db
  ci_databaseUp :: bool

record 'r server =
  sv_db :: db
  sv_redis :: 'r

record request_context =
  cx_auth :: "(session \<times> user) option"
  cx_membership :: "membership option"

datatype http_body =
  RegisteredUser public_user uuid
| LoggedIn public_user string
| NoContent
| CurrentUserBody public_user
| CsrfTokenBody string
| OrganizationList "(uuid \<times> string \<times> membership_role) list"
| OrganizationAndRole organization membership_role
| RenamedOrganization "organization option"
| InventoryList "inventory_line list"
| AdjustedInventory response_body
| ProductPage "product_summary cursor_page"
| OneProduct product_detail
| OrderPage "order_summary cursor_page"
| OneOrder order_detail
| OrderTransition response_body
| ReservationAnswer response_body
| SummaryAnswer dashboard_summary
| StatusOk

type_synonym answer = "(exn + http_body) \<times> cookie_op list \<times> db"

definition answer_of :: "('a \<Rightarrow> http_body) \<Rightarrow> (exn + 'a) \<times> db \<Rightarrow> answer" where
  "answer_of f res = (map_sum id f (fst res), [], snd res)"

definition read_answer :: "('a \<Rightarrow> http_body) \<Rightarrow> exn + 'a \<Rightarrow> db \<Rightarrow> answer" where
  "read_answer f res d = (map_sum id f res, [], d)"

definition failed :: "exn \<Rightarrow> db \<Rightarrow> answer" where
  "failed e d = (Inl e, [], d)"

text \<open>The parameters of a handler: the first that cannot be resolved is the answer.\<close>

definition with_param :: "exn + 'a \<Rightarrow> db \<Rightarrow> ('a \<Rightarrow> answer) \<Rightarrow> answer" where
  "with_param p d k = (case p of Inl e \<Rightarrow> failed e d | Inr x \<Rightarrow> k x)"

definition path_param :: "http_request \<Rightarrow> string \<Rightarrow> string" where
  "path_param rq name = (case rq_params rq name of None \<Rightarrow> [] | Some v \<Rightarrow> v)"

definition organizationId :: "http_request \<Rightarrow> string" where
  "organizationId rq = path_param rq ''organizationId''"

definition uuid_param :: "'r api \<Rightarrow> http_request \<Rightarrow> string \<Rightarrow> exn + string" where
  "uuid_param api rq name =
     (let v = path_param rq name in if ap_parseUUID api v then Inr v else Inl (ap_invalidUUID api))"

definition valid_body :: "'r api \<Rightarrow> bool \<Rightarrow> exn + unit" where
  "valid_body api passed = (if passed then Inr () else Inl (ap_invalidBody api))"

text \<open>\<open>@CurrentUser()\<close>, for the handlers that read the user's id.\<close>

definition CurrentUser :: "request_context \<Rightarrow> exn + user" where
  "CurrentUser cx =
     (case cx_auth cx of
        None \<Rightarrow> Inl (TypeError ''Cannot read properties of undefined (reading 'id')'')
      | Some (s, u) \<Rightarrow> Inr u)"

section \<open>Routes\<close>

datatype guard = UseRateLimit | UseMembership | UseRoles | UseCsrf

record route =
  rt_method :: string
  rt_path :: string
  rt_code :: nat
  rt_public :: bool
  rt_rateLimit :: "rate_limit option"
  rt_roles :: "membership_role list"
  rt_guards :: "guard list"

text \<open>\<open>configure-app.ts\<close>\<close>

record app_settings =
  as_globalPrefix :: string
  as_prefixExclude :: "string list"
  as_whitelist :: bool
  as_forbidNonWhitelisted :: bool
  as_transform :: bool
  as_corsOrigin :: string
  as_corsCredentials :: bool
  as_corsAllowedHeaders :: "string list"

definition configureApp :: "string option \<Rightarrow> app_settings" where
  "configureApp webOrigin =
     \<lparr>as_globalPrefix = ''api/v1'', as_prefixExclude = [''health'', ''health/ready''],
      as_whitelist = True, as_forbidNonWhitelisted = True, as_transform = True,
      as_corsOrigin = (case webOrigin of None \<Rightarrow> ''http://localhost:3000'' | Some o' \<Rightarrow> o'),
      as_corsCredentials = True,
      as_corsAllowedHeaders = [''Content-Type'', ''X-CSRF-Token'', ''Idempotency-Key'']\<rparr>"

definition full_path :: "string \<Rightarrow> string" where
  "full_path p =
     (let settings = configureApp None in
      if p \<in> set (as_prefixExclude settings) then ''/'' @ p
      else ''/'' @ as_globalPrefix settings @ ''/'' @ p)"

definition route_with :: "string \<Rightarrow> string \<Rightarrow> nat \<Rightarrow> guard list \<Rightarrow> route" where
  "route_with m p code guards =
     \<lparr>rt_method = m, rt_path = full_path p, rt_code = code, rt_public = False,
      rt_rateLimit = None, rt_roles = [], rt_guards = guards\<rparr>"

section \<open>\<open>AuthController\<close>\<close>

datatype auth_call = AuthRegister register_dto | AuthLogin login_dto | AuthLogout | AuthMe | AuthCsrf

fun auth_route :: "auth_call \<Rightarrow> route" where
  "auth_route (AuthRegister dto) = (route_with ''POST'' ''auth/register'' 201 [UseRateLimit])
     \<lparr>rt_public := True, rt_rateLimit := Some \<lparr>rl_limit = 5, rl_windowSeconds = 15 * 60\<rparr>\<rparr>"
| "auth_route (AuthLogin dto) = (route_with ''POST'' ''auth/login'' 200 [UseRateLimit])
     \<lparr>rt_public := True, rt_rateLimit := Some \<lparr>rl_limit = 10, rl_windowSeconds = 15 * 60\<rparr>\<rparr>"
| "auth_route AuthLogout = route_with ''POST'' ''auth/logout'' 204 [UseRateLimit, UseCsrf]"
| "auth_route AuthMe = route_with ''GET'' ''auth/me'' 200 [UseRateLimit]"
| "auth_route AuthCsrf = route_with ''GET'' ''auth/csrf'' 200 [UseRateLimit]"

definition isProduction :: "env_config \<Rightarrow> bool" where
  "isProduction cfg \<longleftrightarrow> cfg_NODE_ENV cfg = Production"

definition cookieNames :: "env_config \<Rightarrow> cookie_names" where
  "cookieNames cfg = resolveCookieNames
     \<lparr>cn_session = cfg_SESSION_COOKIE_NAME cfg, cn_csrf = cfg_CSRF_COOKIE_NAME cfg\<rparr> (isProduction cfg)"

fun auth_handle :: "'r api \<Rightarrow> call_input \<Rightarrow> http_request \<Rightarrow> request_context \<Rightarrow> auth_call \<Rightarrow> db \<Rightarrow> answer" where
  "auth_handle api ci rq cx (AuthRegister dto) d =
     with_param (valid_body api (register_valid (ap_isEmail api) dto)) d (\<lambda>_.
     answer_of (\<lambda>(user, g). RegisteredUser user g) (register (ap_argon2 api) (ci_env ci) dto d))"
| "auth_handle api ci rq cx (AuthLogin dto) d =
     with_param (valid_body api (login_valid (ap_isEmail api) dto)) d (\<lambda>_.
     (case login (ap_argon2 api) (ap_sha api) (ci_env ci) (ci_token ci) (ci_csrfToken ci) dto d of
        (Inl e, d') \<Rightarrow> failed e d'
      | (Inr (user, session), d') \<Rightarrow>
          (let names = cookieNames (ap_config api); prod = isProduction (ap_config api)
           in (Inr (LoggedIn user (crs_csrfToken session)),
               [setSessionCookie (cn_session names) (crs_token session) prod,
                setCsrfCookie (cn_csrf names) (crs_csrfToken session) prod], d'))))"
| "auth_handle api ci rq cx AuthLogout d =
     (let names = cookieNames (ap_config api); prod = isProduction (ap_config api);
          now = env_date (ci_env ci);
          cleared = [clearSessionCookie (cn_session names) prod, clearCsrfCookie (cn_csrf names) prod]
      in case rq_cookies rq (cn_session names) of
           Some (CookieJson j) \<Rightarrow> failed (TypeError ''The \"data\" argument must be of type string'') d
         | Some (CookieText token) \<Rightarrow>
             (Inr NoContent, cleared, if token = [] then d else logout (ap_sha api) now token d)
         | None \<Rightarrow> (Inr NoContent, cleared, d))"
| "auth_handle api ci rq cx AuthMe d =
     with_param (CurrentUser cx) d (\<lambda>u. (Inr (CurrentUserBody (omitPasswordHash u)), [], d))"
| "auth_handle api ci rq cx AuthCsrf d =
     (case cx_auth cx of
        None \<Rightarrow> failed (TypeError ''Cannot read properties of undefined (reading 'id')'') d
      | Some (s, u) \<Rightarrow>
          (let (csrfToken, d') = rotateCsrfToken (ap_sha api) (ci_csrfToken ci) s d
           in (Inr (CsrfTokenBody csrfToken),
               [setCsrfCookie (cn_csrf (cookieNames (ap_config api))) csrfToken (isProduction (ap_config api))], d')))"

section \<open>\<open>OrganizationsController\<close>\<close>

datatype organizations_call = OrgList | OrgGetOne | OrgRename string

fun organizations_route :: "organizations_call \<Rightarrow> route" where
  "organizations_route OrgList = route_with ''GET'' ''organizations'' 200 []"
| "organizations_route OrgGetOne = route_with ''GET'' ''organizations/:organizationId'' 200 [UseMembership]"
| "organizations_route (OrgRename name) =
     (route_with ''PATCH'' ''organizations/:organizationId'' 200 [UseMembership, UseRoles, UseCsrf])
     \<lparr>rt_roles := [Owner]\<rparr>"

fun organizations_handle ::
  "'r api \<Rightarrow> call_input \<Rightarrow> http_request \<Rightarrow> request_context \<Rightarrow> organizations_call \<Rightarrow> db \<Rightarrow> answer" where
  "organizations_handle api ci rq cx OrgList d =
     with_param (CurrentUser cx) d (\<lambda>user.
     (Inr (OrganizationList (map (\<lambda>(m, g). (org_id g, org_name g, mem_role m)) (listForUser d (usr_id user)))),
      [], d))"
| "organizations_handle api ci rq cx OrgGetOne d =
     (case getOrganization d (organizationId rq) of
        None \<Rightarrow> failed (PlainError ''Invariant violated: membership exists without its organization.'') d
      | Some g \<Rightarrow>
          (case cx_membership cx of
             None \<Rightarrow> failed (TypeError ''Cannot read properties of undefined (reading 'role')'') d
           | Some m \<Rightarrow> (Inr (OrganizationAndRole g (mem_role m)), [], d)))"
| "organizations_handle api ci rq cx (OrgRename name) d =
     with_param (valid_body api (update_organization_valid name)) d (\<lambda>_.
     (let (renamed, d') = renameOrganization (ci_env ci) (organizationId rq) name d
      in (Inr (RenamedOrganization renamed), [], d')))"

section \<open>\<open>InventoryController\<close>\<close>

datatype inventory_call = InvList | InvAdjust adjust_inventory_dto

fun inventory_route :: "inventory_call \<Rightarrow> route" where
  "inventory_route InvList =
     route_with ''GET'' ''organizations/:organizationId/inventory'' 200 [UseMembership]"
| "inventory_route (InvAdjust dto) =
     (route_with ''POST'' ''organizations/:organizationId/inventory/adjustments'' 200
        [UseMembership, UseRoles, UseCsrf])\<lparr>rt_roles := [Owner]\<rparr>"

fun inventory_handle ::
  "'r api \<Rightarrow> call_input \<Rightarrow> http_request \<Rightarrow> request_context \<Rightarrow> inventory_call \<Rightarrow> db \<Rightarrow> answer" where
  "inventory_handle api ci rq cx InvList d =
     (Inr (InventoryList (listInventory (ap_collation api) d (organizationId rq))), [], d)"
| "inventory_handle api ci rq cx (InvAdjust dto) d =
     with_param (IdempotencyKey rq) d (\<lambda>idempotencyKey.
     with_param (valid_body api (ap_isUUID api (ad_productId dto) \<and> adjust_inventory_valid dto)) d (\<lambda>_.
     answer_of AdjustedInventory
       (adjustStock (ap_sha api) (ci_env ci) (organizationId rq) dto idempotencyKey d (ci_later ci))))"

section \<open>\<open>ProductsController\<close>\<close>

datatype products_call = ProdList page_query | ProdGetOne | ProdCreate create_product_dto

fun products_route :: "products_call \<Rightarrow> route" where
  "products_route (ProdList query) =
     route_with ''GET'' ''organizations/:organizationId/products'' 200 [UseMembership]"
| "products_route ProdGetOne =
     route_with ''GET'' ''organizations/:organizationId/products/:productId'' 200 [UseMembership]"
| "products_route (ProdCreate dto) =
     (route_with ''POST'' ''organizations/:organizationId/products'' 201 [UseMembership, UseRoles, UseCsrf])
     \<lparr>rt_roles := [Owner]\<rparr>"

fun products_handle ::
  "'r api \<Rightarrow> call_input \<Rightarrow> http_request \<Rightarrow> request_context \<Rightarrow> products_call \<Rightarrow> db \<Rightarrow> answer" where
  "products_handle api ci rq cx (ProdList query) d =
     with_param (valid_body api (pagination_query_valid (pq_limit query))) d (\<lambda>_.
     read_answer ProductPage (listProducts (ap_codec api) d (organizationId rq) query) d)"
| "products_handle api ci rq cx ProdGetOne d =
     with_param (uuid_param api rq ''productId'') d (\<lambda>pid.
     read_answer OneProduct (getProduct d (organizationId rq) pid) d)"
| "products_handle api ci rq cx (ProdCreate dto) d =
     with_param (valid_body api (create_product_valid dto)) d (\<lambda>_.
     answer_of OneProduct (createProduct (ci_env ci) (organizationId rq) dto d))"

section \<open>\<open>OrdersController\<close>\<close>

datatype orders_call = OrdList page_query | OrdGetOne | OrdFulfill | OrdCancel

fun orders_route :: "orders_call \<Rightarrow> route" where
  "orders_route (OrdList query) =
     route_with ''GET'' ''organizations/:organizationId/orders'' 200 [UseMembership, UseCsrf]"
| "orders_route OrdGetOne =
     route_with ''GET'' ''organizations/:organizationId/orders/:orderId'' 200 [UseMembership, UseCsrf]"
| "orders_route OrdFulfill =
     route_with ''POST'' ''organizations/:organizationId/orders/:orderId/fulfill'' 200 [UseMembership, UseCsrf]"
| "orders_route OrdCancel =
     route_with ''POST'' ''organizations/:organizationId/orders/:orderId/cancel'' 200 [UseMembership, UseCsrf]"

fun orders_handle ::
  "'r api \<Rightarrow> call_input \<Rightarrow> http_request \<Rightarrow> request_context \<Rightarrow> orders_call \<Rightarrow> db \<Rightarrow> answer" where
  "orders_handle api ci rq cx (OrdList query) d =
     with_param (valid_body api (pagination_query_valid (pq_limit query))) d (\<lambda>_.
     read_answer OrderPage (listOrders (ap_codec api) d (organizationId rq) query) d)"
| "orders_handle api ci rq cx OrdGetOne d =
     with_param (uuid_param api rq ''orderId'') d (\<lambda>orderId.
     read_answer OneOrder (getOrder d (organizationId rq) orderId) d)"
| "orders_handle api ci rq cx OrdFulfill d =
     with_param (IdempotencyKey rq) d (\<lambda>idempotencyKey.
     with_param (uuid_param api rq ''orderId'') d (\<lambda>orderId.
     with_param (CurrentUser cx) d (\<lambda>user.
     answer_of OrderTransition
       (fulfill_order (ap_sha api) (ci_env ci) (organizationId rq) (usr_id user) orderId idempotencyKey d (ci_later ci)))))"
| "orders_handle api ci rq cx OrdCancel d =
     with_param (IdempotencyKey rq) d (\<lambda>idempotencyKey.
     with_param (uuid_param api rq ''orderId'') d (\<lambda>orderId.
     with_param (CurrentUser cx) d (\<lambda>user.
     answer_of OrderTransition
       (cancelOrder (ap_sha api) (ci_env ci) (organizationId rq) (usr_id user) orderId idempotencyKey d (ci_later ci)))))"

section \<open>\<open>ReservationsController\<close>\<close>

datatype reservations_call = ResCreate create_reservation_dto | ResRelease

fun reservations_route :: "reservations_call \<Rightarrow> route" where
  "reservations_route (ResCreate dto) =
     route_with ''POST'' ''organizations/:organizationId/reservations'' 201 [UseMembership, UseCsrf]"
| "reservations_route ResRelease =
     route_with ''POST'' ''organizations/:organizationId/reservations/:id/release'' 200 [UseMembership, UseCsrf]"

fun reservations_handle ::
  "'r api \<Rightarrow> call_input \<Rightarrow> http_request \<Rightarrow> request_context \<Rightarrow> reservations_call \<Rightarrow> db \<Rightarrow> answer" where
  "reservations_handle api ci rq cx (ResCreate dto) d =
     with_param (IdempotencyKey rq) d (\<lambda>idempotencyKey.
     with_param (valid_body api ((\<forall>i \<in> set (cr_items dto). ap_isUUID api (productId i)) \<and> reservation_valid dto)) d (\<lambda>_.
     with_param (CurrentUser cx) d (\<lambda>user.
     answer_of ReservationAnswer
       (createReservation (ap_sha api) (ci_env ci) (organizationId rq) (usr_id user) dto idempotencyKey d (ci_later ci)))))"
| "reservations_handle api ci rq cx ResRelease d =
     with_param (IdempotencyKey rq) d (\<lambda>idempotencyKey.
     with_param (uuid_param api rq ''id'') d (\<lambda>i.
     with_param (CurrentUser cx) d (\<lambda>user.
     answer_of ReservationAnswer
       (releaseReservation (ap_sha api) (ci_env ci) (organizationId rq) (usr_id user) i idempotencyKey d (ci_later ci)))))"

section \<open>\<open>DashboardController\<close> and \<open>HealthController\<close>\<close>

definition dashboard_route :: route where
  "dashboard_route = route_with ''GET'' ''organizations/:organizationId/dashboard/summary'' 200 [UseMembership]"

definition dashboard_handle :: "http_request \<Rightarrow> db \<Rightarrow> answer" where
  "dashboard_handle rq d = (Inr (SummaryAnswer (getSummary d (organizationId rq))), [], d)"

datatype health_call = HealthLiveness | HealthReadiness

fun health_route :: "health_call \<Rightarrow> route" where
  "health_route HealthLiveness = (route_with ''GET'' ''health'' 200 [])\<lparr>rt_public := True\<rparr>"
| "health_route HealthReadiness = (route_with ''GET'' ''health/ready'' 200 [])\<lparr>rt_public := True\<rparr>"

fun health_handle :: "call_input \<Rightarrow> health_call \<Rightarrow> db \<Rightarrow> answer" where
  "health_handle ci HealthLiveness d = (Inr StatusOk, [], d)"
| "health_handle ci HealthReadiness d =
     (if ci_databaseUp ci then (Inr StatusOk, [], d)
      else failed (http_error 503 ''database unreachable'') d)"

section \<open>The life of a request\<close>

datatype endpoint =
  AuthCall auth_call
| OrganizationsCall organizations_call
| InventoryCall inventory_call
| ProductsCall products_call
| OrdersCall orders_call
| ReservationsCall reservations_call
| DashboardCall
| HealthCall health_call

fun endpoint_route :: "endpoint \<Rightarrow> route" where
  "endpoint_route (AuthCall c) = auth_route c"
| "endpoint_route (OrganizationsCall c) = organizations_route c"
| "endpoint_route (InventoryCall c) = inventory_route c"
| "endpoint_route (ProductsCall c) = products_route c"
| "endpoint_route (OrdersCall c) = orders_route c"
| "endpoint_route (ReservationsCall c) = reservations_route c"
| "endpoint_route DashboardCall = dashboard_route"
| "endpoint_route (HealthCall c) = health_route c"

fun endpoint_handle ::
  "'r api \<Rightarrow> call_input \<Rightarrow> http_request \<Rightarrow> request_context \<Rightarrow> endpoint \<Rightarrow> db \<Rightarrow> answer" where
  "endpoint_handle api ci rq cx (AuthCall c) d = auth_handle api ci rq cx c d"
| "endpoint_handle api ci rq cx (OrganizationsCall c) d = organizations_handle api ci rq cx c d"
| "endpoint_handle api ci rq cx (InventoryCall c) d = inventory_handle api ci rq cx c d"
| "endpoint_handle api ci rq cx (ProductsCall c) d = products_handle api ci rq cx c d"
| "endpoint_handle api ci rq cx (OrdersCall c) d = orders_handle api ci rq cx c d"
| "endpoint_handle api ci rq cx (ReservationsCall c) d = reservations_handle api ci rq cx c d"
| "endpoint_handle api ci rq cx DashboardCall d = dashboard_handle rq d"
| "endpoint_handle api ci rq cx (HealthCall c) d = health_handle ci c d"

definition run_guard ::
  "'r api \<Rightarrow> call_input \<Rightarrow> http_request \<Rightarrow> route \<Rightarrow> guard \<Rightarrow> request_context \<Rightarrow> 'r server \<Rightarrow>
     (exn + request_context) \<times> 'r server" where
  "run_guard api ci rq rt g cx s =
     (case g of
        UseRateLimit \<Rightarrow>
          (let (res, r) = RateLimitGuard (ap_redis api) (rt_rateLimit rt) (Some (rt_path rt)) (env_date (ci_env ci)) rq (sv_redis s)
           in (map_sum id (\<lambda>_. cx) res, s\<lparr>sv_redis := r\<rparr>))
      | UseMembership \<Rightarrow>
          (map_sum id (\<lambda>m. cx\<lparr>cx_membership := Some m\<rparr>)
             (MembershipGuard rq (map_option snd (cx_auth cx)) (sv_db s)), s)
      | UseRoles \<Rightarrow> (map_sum id (\<lambda>_. cx) (RolesGuard (rt_roles rt) (cx_membership cx)), s)
      | UseCsrf \<Rightarrow> (map_sum id (\<lambda>_. cx) (CsrfGuard (ap_sha api) rq (map_option fst (cx_auth cx))), s))"

fun run_guards ::
  "'r api \<Rightarrow> call_input \<Rightarrow> http_request \<Rightarrow> route \<Rightarrow> guard list \<Rightarrow> request_context \<Rightarrow> 'r server \<Rightarrow>
     (exn + request_context) \<times> 'r server" where
  "run_guards api ci rq rt [] cx s = (Inr cx, s)"
| "run_guards api ci rq rt (g # gs) cx s =
     (case run_guard api ci rq rt g cx s of
        (Inl e, s') \<Rightarrow> (Inl e, s')
      | (Inr cx', s') \<Rightarrow> run_guards api ci rq rt gs cx' s')"

definition respond ::
  "'r api \<Rightarrow> call_input \<Rightarrow> http_request \<Rightarrow> endpoint \<Rightarrow> 'r server \<Rightarrow>
     (exn + http_body) \<times> cookie_op list \<times> 'r server" where
  "respond api ci rq ep s =
     (let rt = endpoint_route ep in
      case SessionAuthGuard (ap_sha api) (ap_config api) (rt_public rt) (env_date (ci_env ci)) rq (sv_db s) of
        (Inl e, d) \<Rightarrow> (Inl e, [], s\<lparr>sv_db := d\<rparr>)
      | (Inr auth, d) \<Rightarrow>
          (case run_guards api ci rq rt (rt_guards rt) \<lparr>cx_auth = auth, cx_membership = None\<rparr> (s\<lparr>sv_db := d\<rparr>) of
             (Inl e, s2) \<Rightarrow> (Inl e, [], s2)
           | (Inr cx, s2) \<Rightarrow>
               (case endpoint_handle api ci rq cx ep (sv_db s2) of
                  (res, cookies, d') \<Rightarrow> (res, cookies, s2\<lparr>sv_db := d'\<rparr>))))"

text \<open>The status of the answer: an exception that is no \<open>HttpException\<close> is answered with 500.\<close>

definition answer_status :: "endpoint \<Rightarrow> exn + http_body \<Rightarrow> nat" where
  "answer_status ep res =
     (case res of
        Inr _ \<Rightarrow> rt_code (endpoint_route ep)
      | Inl (HttpException _ code) \<Rightarrow> code
      | Inl _ \<Rightarrow> 500)"

text \<open>The router sends a \<open>HEAD\<close> request to the \<open>GET\<close> handler.\<close>

definition routed :: "http_request \<Rightarrow> endpoint \<Rightarrow> bool" where
  "routed rq ep \<longleftrightarrow>
     rq_method rq = rt_method (endpoint_route ep) \<or>
     rq_method rq = ''HEAD'' \<and> rt_method (endpoint_route ep) = ''GET''"

end
