(* ===== verification/Tenancy.thy ===== *)
theory Tenancy
  imports System
begin

text \<open>
  Tenant isolation.  \<open>org_view g d\<close> is what of the database belongs to organization \<open>g\<close>.  Every
  read scoped to an organization is a function of its view, and a write scoped to one organization
  leaves the view of every other as it was.  The locale \<open>tenant_work\<close> states the second for guarded
  work and lifts it through the idempotency mechanism.
\<close>

definition org_view :: "uuid \<Rightarrow> db \<Rightarrow> db" where
  "org_view g d = d\<lparr>
     organizations := filter (\<lambda>r. org_id r = g) (organizations d),
     memberships := filter (\<lambda>r. mem_organizationId r = g) (memberships d),
     products := filter (\<lambda>r. prod_organizationId r = g) (products d),
     inventory := filter (\<lambda>r. inv_organizationId r = g) (inventory d),
     inventoryMovements := filter (\<lambda>r. mov_organizationId r = g) (inventoryMovements d),
     orders := filter (\<lambda>r. ord_organizationId r = g) (orders d),
     orderItems := filter (\<lambda>r. oi_organizationId r = g) (orderItems d),
     idempotencyKeys := filter (\<lambda>r. idem_organizationId r = g) (idempotencyKeys d),
     auditLog := filter (\<lambda>r. aud_organizationId r = g) (auditLog d)\<rparr>"

lemma org_view_tables [simp]:
  "products (org_view g d) = filter (\<lambda>r. prod_organizationId r = g) (products d)"
  "inventory (org_view g d) = filter (\<lambda>r. inv_organizationId r = g) (inventory d)"
  "orders (org_view g d) = filter (\<lambda>r. ord_organizationId r = g) (orders d)"
  "orderItems (org_view g d) = filter (\<lambda>r. oi_organizationId r = g) (orderItems d)"
  by (simp_all add: org_view_def)

section \<open>Reads\<close>

lemma find_filter: "(\<And>x. x \<in> set xs \<Longrightarrow> P x \<Longrightarrow> Q x) \<Longrightarrow> find P (filter Q xs) = find P xs"
  by (induction xs) auto

lemma find_own [simp]: "find (\<lambda>x. P x \<and> k x = g) (filter (\<lambda>x. k x = g) xs) = find (\<lambda>x. P x \<and> k x = g) xs"
  by (rule find_filter) simp

text \<open>A join partner of an organization's row is in the same organization.\<close>

lemma join_view:
  assumes "db_ok d" and "product_of_org d p g"
  shows "filter (\<lambda>x. prod_organizationId x = g \<and> p = prod_id x) (products d) =
    filter (\<lambda>x. p = prod_id x) (products d)"
proof (rule filter_cong [OF refl])
  fix x assume "x \<in> set (products d)"
  then have "p = prod_id x \<Longrightarrow> prod_organizationId x = g"
    using product_unique [OF assms(1,2), of "prod_organizationId x"] by (auto simp: product_of_org_def)
  then show "(prod_organizationId x = g \<and> p = prod_id x) = (p = prod_id x)" by blast
qed

lemma listInventory_view:
  assumes "db_ok d"
  shows "listInventory coll (org_view (pg_uuid g) d) g = listInventory coll d g"
proof -
  have "map (\<lambda>r. map (Pair r) (filter (\<lambda>p. prod_organizationId p = pg_uuid g \<and> inv_productId r = prod_id p) (products d)))
      (filter (\<lambda>r. inv_organizationId r = pg_uuid g) (inventory d)) =
    map (\<lambda>r. map (Pair r) (filter (\<lambda>p. inv_productId r = prod_id p) (products d)))
      (filter (\<lambda>r. inv_organizationId r = pg_uuid g) (inventory d))"
  proof (rule map_cong [OF refl])
    fix r assume "r \<in> set (filter (\<lambda>r. inv_organizationId r = pg_uuid g) (inventory d))"
    then have "product_of_org d (inv_productId r) (pg_uuid g)"
      using db_okD(5) [OF assms] by (auto simp: inventory_ok_def)
    then show "map (Pair r) (filter (\<lambda>p. prod_organizationId p = pg_uuid g \<and> inv_productId r = prod_id p) (products d)) =
        map (Pair r) (filter (\<lambda>p. inv_productId r = prod_id p) (products d))"
      by (simp add: join_view [OF assms])
  qed
  then show ?thesis
    unfolding listInventory_def org_view_tables filter_filter conj_absorb by (simp only:)
qed

lemma getProduct_view:
  assumes "db_ok d"
  shows "getProduct (org_view (pg_uuid g) d) g k = getProduct d g k"
proof -
  have row: "find (\<lambda>r. inv_productId r = prod_id p) (filter (\<lambda>r. inv_organizationId r = pg_uuid g) (inventory d)) =
      find (\<lambda>r. inv_productId r = prod_id p) (inventory d)"
    if "p \<in> set (products d)" "prod_organizationId p = pg_uuid g" for p
  proof (rule find_filter)
    fix r assume "r \<in> set (inventory d)" "inv_productId r = prod_id p"
    then have "product_of_org d (prod_id p) (inv_organizationId r)"
      using db_okD(5) [OF assms] unfolding inventory_ok_def by metis
    moreover have "product_of_org d (prod_id p) (pg_uuid g)"
      using that by (force simp: product_of_org_def)
    ultimately show "inv_organizationId r = pg_uuid g" using product_unique [OF assms] by blast
  qed
  show ?thesis
  proof (cases "find (\<lambda>p. prod_id p = pg_uuid k \<and> prod_organizationId p = pg_uuid g) (products d)")
    case (Some p)
    with row [of p] find_Some_in [OF Some] show ?thesis by (simp add: getProduct_def)
  qed (simp add: getProduct_def)
qed

lemma listings_view:
  "listProducts cd (org_view (pg_uuid g) d) g q = listProducts cd d g q"
  "listOrders cd (org_view (pg_uuid g) d) g q = listOrders cd d g q"
  by (simp_all add: listProducts_def listOrders_def products_of_def orders_of_def)

lemma getOrder_view:
  assumes "db_ok d"
  shows "getOrder (org_view (pg_uuid g) d) g x = getOrder d g x"
proof (cases "find (\<lambda>o'. ord_id o' = pg_uuid x \<and> ord_organizationId o' = pg_uuid g) (orders d)")
  case None
  then show ?thesis by (simp add: getOrder_def)
next
  case (Some o')
  then have o': "order_of_org d (pg_uuid x) (pg_uuid g)"
    by (force simp: order_of_org_def dest: find_Some_in)
  have own: "oi_organizationId i = pg_uuid g" if "i \<in> set (orderItems d)" "oi_orderId i = pg_uuid x" for i
    using db_okD(8) [OF assms] order_unique [OF assms o'] that unfolding order_items_ok_def by metis
  then have lines: "filter (\<lambda>i. oi_orderId i = pg_uuid x) (orderItems (org_view (pg_uuid g) d)) =
      filter (\<lambda>i. oi_orderId i = pg_uuid x) (orderItems d)"
    by (auto intro: filter_cong)
  have "product_of_org d (oi_productId i) (pg_uuid g)" if "i \<in> set (orderItems d)" "oi_orderId i = pg_uuid x" for i
    using that db_okD(8) [OF assms] own [OF that] unfolding order_items_ok_def by metis
  then have "map (\<lambda>i. map (Pair i) (filter (\<lambda>p. prod_organizationId p = pg_uuid g \<and> oi_productId i = prod_id p) (products d)))
        (filter (\<lambda>i. oi_orderId i = pg_uuid x) (orderItems d)) =
      map (\<lambda>i. map (Pair i) (filter (\<lambda>p. oi_productId i = prod_id p) (products d)))
        (filter (\<lambda>i. oi_orderId i = pg_uuid x) (orderItems d))"
    by (intro map_cong [OF refl]) (simp add: join_view [OF assms])
  then have "order_item_details (org_view (pg_uuid g) d) x = order_item_details d x"
    unfolding order_item_details_def lines org_view_tables(1) filter_filter by (simp only:)
  then show ?thesis by (simp add: getOrder_def split: option.split)
qed

lemma getSummary_view: "getSummary (org_view (pg_uuid g) d) g = getSummary d g"
  by (simp add: getSummary_def orders_by_status_def Let_def conj_commute cong: conj_cong)

section \<open>Writes\<close>

lemma filter_update_other:
  "(\<And>r. P r \<Longrightarrow> k r \<noteq> h) \<Longrightarrow> (\<And>r. k (f r) = k r) \<Longrightarrow>
   filter (\<lambda>r. k r = h) (update_where P f rs) = filter (\<lambda>r. k r = h) rs"
  by (induction rs) (auto simp: update_where_def)

lemma filter_map_other:
  "(\<And>r. r \<in> set rs \<Longrightarrow> k r = h \<Longrightarrow> f r = r) \<Longrightarrow> (\<And>r. k (f r) = k r) \<Longrightarrow>
   filter (\<lambda>r. k r = h) (map f rs) = filter (\<lambda>r. k r = h) rs"
  by (induction rs) auto

text \<open>Shifting the rows of one organization's products leaves the rows of the others.\<close>

lemma shifted_other:
  assumes "db_ok d" and "h \<noteq> g"
    and own: "\<And>i. i \<in> set is \<Longrightarrow> \<exists>r \<in> set (inventory d). inv_productId r = key i \<and> inv_organizationId r = g"
  shows "filter (\<lambda>r. inv_organizationId r = h) (map (apply_items dh dr key q t is) (inventory d)) =
    filter (\<lambda>r. inv_organizationId r = h) (inventory d)"
proof (rule filter_map_other)
  fix r assume r: "r \<in> set (inventory d)" "inv_organizationId r = h"
  have "distinct (map inv_productId (inventory d))" using db_okD(5) [OF assms(1)] by (simp add: inventory_ok_def)
  note inj = distinct_map_inj [OF this r(1)]
  have "inv_productId r \<notin> key ` set is"
  proof
    assume "inv_productId r \<in> key ` set is"
    then obtain i where "i \<in> set is" "inv_productId r = key i" by blast
    with own inj r(2) \<open>h \<noteq> g\<close> show False by metis
  qed
  then show "apply_items dh dr key q t is r = r" by (simp add: apply_items_def)
qed simp

locale tenant_work = stock_operation +
  fixes owner :: uuid
  assumes confined: "applicable \<Longrightarrow> stock_state_ok d \<Longrightarrow> work d = Inr (out, d') \<Longrightarrow> h \<noteq> owner \<Longrightarrow>
      org_view h d' = org_view h d"
begin

lemma idempotent_confined:
  assumes app: "applicable" and st: "stock_state_ok d"
    and own: "pg_uuid (req_organizationId rq) = owner" and "h \<noteq> owner"
  shows "org_view h (snd (idempotent e rq work d later)) = org_view h d"
proof (cases "guarded_body e rq work d")
  case (Inl err)
  then show ?thesis by (auto simp: idempotent_def transaction_def)
next
  case (Inr p)
  then obtain out dn where g: "guarded_body e rq work d = Inr (out, dn)" by (cases p) auto
  then have dn: "snd (idempotent e rq work d later) = dn" by (auto simp: idempotent_def transaction_def)
  let ?k = "claim_row e rq"
  let ?d1 = "d\<lparr>idempotencyKeys := idempotencyKeys d @ [?k]\<rparr>"
  obtain d2 where free: "key_free d rq" and org: "org_exists d (pg_uuid (req_organizationId rq))"
    and w: "work ?d1 = Inr (out, d2)"
    and d': "dn = d2\<lparr>idempotencyKeys := idempotencyKeys d @ [completion e out ?k]\<rparr>"
    using guarded_Inr [OF g] by blast
  have "db_ok ?d1"
    using claimed_ok [OF _ free org] st by (simp add: stock_state_ok_def books_ok_def)
  then have "stock_state_ok ?d1" by (rule stock_state_ok_frame [OF st]) simp_all
  from confined [OF app this w \<open>h \<noteq> owner\<close>] have v: "org_view h d2 = org_view h ?d1" .
  have k: "idem_organizationId ?k \<noteq> h" "idem_organizationId (completion e out ?k) \<noteq> h"
    using own \<open>h \<noteq> owner\<close> by (simp_all add: claim_row_def completion_def)
  have "org_view h dn = (org_view h d2)\<lparr>idempotencyKeys := idempotencyKeys (org_view h d)\<rparr>"
    using k by (simp add: org_view_def d')
  also have "\<dots> = org_view h d" using k unfolding v by (simp add: org_view_def)
  finally show ?thesis by (simp add: dn)
qed

end

section \<open>The four operations and the catalog\<close>

text \<open>A row update that keeps to its organization, and appended rows of that organization.\<close>

lemma org_view_stock:
  assumes db: "db_ok d" and "h \<noteq> g"
    and own: "\<And>i. i \<in> set is \<Longrightarrow> \<exists>r \<in> set (inventory d). inv_productId r = key i \<and> inv_organizationId r = g"
    and inv: "inventory d' = map (apply_items dh dr key q t is) (inventory d)"
    and rest: "org_view h (d'\<lparr>inventory := inventory d\<rparr>) = org_view h d"
  shows "org_view h d' = org_view h d"
proof (rule db.equality)
  show "inventory (org_view h d') = inventory (org_view h d)"
    unfolding org_view_tables inv by (rule shifted_other [OF db \<open>h \<noteq> g\<close> own])
qed (insert arg_cong [OF rest, of organizations] arg_cong [OF rest, of users] arg_cong [OF rest, of memberships]
    arg_cong [OF rest, of products] arg_cong [OF rest, of inventoryMovements] arg_cong [OF rest, of orders]
    arg_cong [OF rest, of orderItems] arg_cong [OF rest, of idempotencyKeys] arg_cong [OF rest, of auditLog]
    arg_cong [OF rest, of sessions] arg_cong [OF rest, of db.more], simp_all add: org_view_def)

interpretation adjust_tenant: tenant_work "applyAdjustment e organizationId dto" True "pg_uuid organizationId"
  for e organizationId dto
proof unfold_locales
  fix d out d' h
  assume st: "stock_state_ok d" and w: "applyAdjustment e organizationId dto d = Inr (out, d')"
    and h: "h \<noteq> pg_uuid organizationId"
  have b: "books_ok d" "db_ok d" "stocked d" using st by (simp_all add: stock_state_ok_def books_ok_def)
  from applyAdjustment_effect [OF b(2,3) w]
  show "org_view h d' = org_view h d"
  proof (elim disjE conjE exE)
    fix line assume d': "d' = after_adjust e organizationId dto d" and out: "out = accept 200 (InventoryBody line)"
    have "product_of_org d (pg_uuid (ad_productId dto)) (pg_uuid organizationId)"
      using w out by (force simp: applyAdjustment_def product_of_org_def dest: find_Some_in split: option.splits)
    from stocked_row [OF b(1) this] show ?thesis
      using h by (intro org_view_stock [OF b(2) h, where d' = d', of "[dto]"])
        (auto simp: d' after_adjust_def org_view_def adjustment_movement_def)
  qed simp
qed

interpretation reserve_tenant: tenant_work "reserveStock e organizationId userId dto"
    "reservation_valid dto \<and> distinct (map productId (cr_items dto))" "pg_uuid organizationId"
  for e organizationId userId dto
proof unfold_locales
  fix d out d' h
  assume app: "reservation_valid dto \<and> distinct (map productId (cr_items dto))" and st: "stock_state_ok d"
    and w: "reserveStock e organizationId userId dto d = Inr (out, d')" and h: "h \<noteq> pg_uuid organizationId"
  have db: "db_ok d" using st by (simp add: stock_state_ok_def books_ok_def)
  have pos: "\<forall>i \<in> set (cr_items dto). 0 < quantity i" using app by (auto simp: reservation_valid_def)
  from reserveStock_Inr [OF db _ pos w] app
  consider "d' = d"
    | (reserved) "d' = after_reserve e organizationId userId dto d"
      "shortfalls_of (locked_by_product organizationId (map productId (cr_items dto)) d) (cr_items dto) = []"
    by blast
  then show "org_view h d' = org_view h d"
  proof cases
    case reserved
    show ?thesis
    proof (rule org_view_stock [OF db h])
      fix i assume i: "i \<in> set (cr_items dto)"
      then have "0 < available_for (locked_by_product organizationId (map productId (cr_items dto)) d) (productId i)"
        using pos reserved(2) unfolding shortfalls_Nil_iff by fastforce
      then have "locked_by_product organizationId (map productId (cr_items dto)) d (productId i) \<noteq> None"
        by (cases "locked_by_product organizationId (map productId (cr_items dto)) d (productId i)")
          (simp_all add: available_for_def)
      then show "\<exists>r \<in> set (inventory d). inv_productId r = productId i \<and> inv_organizationId r = pg_uuid organizationId"
        by (auto simp: locked_by_product_iff [OF db] locked_rows_iff)
    next
      show "inventory d' = map (apply_items 0 1 productId quantity (app_time e) (cr_items dto)) (inventory d)"
        by (simp add: reserved after_reserve_def Let_def)
    qed (use h in \<open>simp add: reserved after_reserve_def Let_def org_view_def new_order_def new_order_item_def
        reservation_movement_def audit_of_def filter_empty_conv\<close>)
  qed simp
qed

interpretation release_tenant: tenant_work "releaseStock e organizationId userId orderId" True "pg_uuid organizationId"
  for e organizationId userId orderId
proof unfold_locales
  fix d out d' h
  assume st: "stock_state_ok d" and w: "releaseStock e organizationId userId orderId d = Inr (out, d')"
    and h: "h \<noteq> pg_uuid organizationId"
  have b: "books_ok d" "db_ok d" using st by (simp_all add: stock_state_ok_def books_ok_def)
  have cov: "\<forall>o' \<in> set (orders d). pending_order organizationId orderId o' \<longrightarrow> order_covered organizationId orderId d"
    using books_cover [OF b(1)] by blast
  from releaseStock_Inr [OF b(2) cov w]
  show "org_view h d' = org_view h d"
  proof (elim disjE conjE bexE)
    fix o' assume o': "o' \<in> set (orders d)" "pending_order organizationId orderId o'"
      and d': "d' = after_release e organizationId userId orderId d"
    have other: "filter (\<lambda>r. ord_organizationId r = h) (update_where (pending_order organizationId orderId) (cancel_row e) (orders d)) =
        filter (\<lambda>r. ord_organizationId r = h) (orders d)"
      using h by (intro filter_update_other) (auto simp: pending_order_def cancel_row_def)
    show ?thesis
    proof (rule org_view_stock [OF b(2) h])
      fix i assume "i \<in> set (order_items_of orderId d)"
      then show "\<exists>r \<in> set (inventory d). inv_productId r = oi_productId i \<and> inv_organizationId r = pg_uuid organizationId"
        using cov o' by (auto simp: order_covered_def)
    next
      show "inventory d' = map (apply_items 0 (-1) oi_productId oi_quantity (app_time e) (order_items_of orderId d)) (inventory d)"
        by (simp add: d' after_release_def Let_def)
    qed (use h other in \<open>simp add: d' after_release_def Let_def org_view_def release_movement_def audit_of_def\<close>)
  qed simp
qed

interpretation fulfill_tenant: tenant_work "fulfillStock e organizationId userId orderId" True "pg_uuid organizationId"
  for e organizationId userId orderId
proof unfold_locales
  fix d out d' h
  assume st: "stock_state_ok d" and w: "fulfillStock e organizationId userId orderId d = Inr (out, d')"
    and h: "h \<noteq> pg_uuid organizationId"
  have b: "books_ok d" "db_ok d" using st by (simp_all add: stock_state_ok_def books_ok_def)
  have cov: "\<forall>o' \<in> set (orders d). pending_order organizationId orderId o' \<longrightarrow> order_covered organizationId orderId d"
    using books_cover [OF b(1)] by blast
  from fulfillStock_Inr [OF b(2) cov w]
  show "org_view h d' = org_view h d"
  proof (elim disjE conjE bexE)
    fix o' assume o': "o' \<in> set (orders d)" "pending_order organizationId orderId o'"
      and d': "d' = after_fulfill e organizationId userId orderId d"
    have other: "filter (\<lambda>r. ord_organizationId r = h) (update_where (pending_order organizationId orderId) (fulfill_row e) (orders d)) =
        filter (\<lambda>r. ord_organizationId r = h) (orders d)"
      using h by (intro filter_update_other) (auto simp: pending_order_def fulfill_row_def)
    show ?thesis
    proof (rule org_view_stock [OF b(2) h])
      fix i assume "i \<in> set (order_items_of orderId d)"
      then show "\<exists>r \<in> set (inventory d). inv_productId r = oi_productId i \<and> inv_organizationId r = pg_uuid organizationId"
        using cov o' by (auto simp: order_covered_def)
    next
      show "inventory d' = map (apply_items (-1) (-1) oi_productId oi_quantity (app_time e) (order_items_of orderId d)) (inventory d)"
        by (simp add: d' after_fulfill_def Let_def)
    qed (use h other in \<open>simp add: d' after_fulfill_def Let_def org_view_def fulfillment_movement_def audit_of_def\<close>)
  qed simp
qed

lemma create_product_confined:
  assumes "h \<noteq> pg_uuid g"
  shows "org_view h (snd (createProduct e g dto d)) = org_view h d"
  using createProduct_effect [of e g dto d]
proof (elim disjE exE)
  fix detail assume "create_product_body e g dto d = Inr (detail, snd (createProduct e g dto d))"
  from create_product_body_Inr(1) [OF this] show ?thesis
    using assms by (auto simp: with_product_def org_view_def new_product_def new_inventory_def initial_movement_def)
qed simp

lemma rename_confined:
  assumes "h \<noteq> pg_uuid g"
  shows "org_view h (snd (renameOrganization e g name d)) = org_view h d"
proof -
  have "filter (\<lambda>r. org_id r = h) (organizations (snd (renameOrganization e g name d))) =
      filter (\<lambda>r. org_id r = h) (organizations d)"
    unfolding renameOrganization_def Let_def
    using assms by (simp add: update_organizations_def split_def filter_update_other)
  then show ?thesis
    by (simp add: org_view_def) (simp add: renameOrganization_def update_organizations_def Let_def)
qed

end
