(* ===== verification/Http.thy ===== *)
theory Http
  imports Controllers Tenancy
begin

text \<open>
  The request cycle over the transition system of the services: whatever a request is, the database
  it leaves is reached by at most two service steps, so every invariant of the reachable databases
  holds under HTTP traffic; what a request that got past the guards has shown; and whose data it can
  have changed.
\<close>

section \<open>Requests are runs of the services\<close>

lemma with_param_db:
  "snd (snd (with_param p d k)) = d \<or> (\<exists>x. p = Inr x \<and> with_param p d k = k x)"
  by (cases p) (auto simp: with_param_def failed_def)

lemma with_param_cases:
  obtains "snd (snd (with_param p d k)) = d" | x where "p = Inr x" and "with_param p d k = k x"
  using with_param_db [of p d k] by blast

lemma answer_db [simp]:
  "snd (snd (answer_of f res)) = snd res" "snd (snd (read_answer g res' d)) = d" "snd (snd (failed e d)) = d"
  by (simp_all add: answer_of_def read_answer_def failed_def)

lemma valid_body_Inr [simp]: "valid_body api passed = Inr x \<longleftrightarrow> passed"
  by (simp add: valid_body_def)

definition service_step :: "'r api \<Rightarrow> db \<Rightarrow> db \<Rightarrow> bool" where
  "service_step api d d' \<longleftrightarrow> d' = d \<or> api_step (ap_sha api) (ap_argon2 api) d d'"

lemma service_step_refl [simp]: "service_step api d d"
  by (simp add: service_step_def)

lemma with_param_step:
  "(\<And>x. p = Inr x \<Longrightarrow> service_step api d (snd (snd (k x)))) \<Longrightarrow> service_step api d (snd (snd (with_param p d k)))"
  by (cases rule: with_param_cases [of p d k]) (auto simp: service_step_def)

lemmas step_intros = api_step.register api_step.login api_step.logout api_step.validate api_step.rotate
  api_step.rename api_step.create_product api_step.adjust api_step.reserve api_step.release api_step.fulfill

lemma auth_handle_step: "service_step api d (snd (snd (auth_handle api ci rq cx c d)))"
proof (cases c)
  case (AuthRegister dto)
  then show ?thesis by (auto intro!: with_param_step) (auto simp: service_step_def intro: step_intros)
next
  case (AuthLogin dto)
  have "api_step (ap_sha api) (ap_argon2 api) d
      (snd (login (ap_argon2 api) (ap_sha api) (ci_env ci) (ci_token ci) (ci_csrfToken ci) dto d))"
    by (rule api_step.login)
  then show ?thesis
    unfolding AuthLogin by (auto intro!: with_param_step) (auto simp: service_step_def Let_def split: prod.split sum.split)
next
  case AuthLogout
  then show ?thesis
    by (auto simp: service_step_def Let_def intro: step_intros split: option.split cookie_value.split)
next
  case AuthMe
  then show ?thesis by (auto intro!: with_param_step)
next
  case AuthCsrf
  have "api_step (ap_sha api) (ap_argon2 api) d (snd (rotateCsrfToken (ap_sha api) (ci_csrfToken ci) s d))" for s
    by (rule api_step.rotate)
  then show ?thesis
    unfolding AuthCsrf by (auto simp: service_step_def split: option.split prod.split) (metis snd_conv)
qed

lemma organizations_handle_step: "service_step api d (snd (snd (organizations_handle api ci rq cx c d)))"
proof (cases c)
  case OrgList
  then show ?thesis by (auto intro!: with_param_step)
next
  case OrgGetOne
  then show ?thesis by (simp add: service_step_def split: option.split)
next
  case (OrgRename name)
  have "api_step (ap_sha api) (ap_argon2 api) d (snd (renameOrganization (ci_env ci) (organizationId rq) name d))"
    by (rule api_step.rename)
  then show ?thesis
    unfolding OrgRename
    by (cases "renameOrganization (ci_env ci) (organizationId rq) name d")
      (auto intro!: with_param_step [unfolded service_step_def] simp: service_step_def)
qed

lemma inventory_handle_step: "service_step api d (snd (snd (inventory_handle api ci rq cx c d)))"
  by (cases c) (auto simp: service_step_def intro!: with_param_step [unfolded service_step_def] intro: step_intros)

lemma products_handle_step: "service_step api d (snd (snd (products_handle api ci rq cx c d)))"
  by (cases c) (auto simp: service_step_def intro!: with_param_step [unfolded service_step_def] intro: step_intros)

lemma orders_handle_step: "service_step api d (snd (snd (orders_handle api ci rq cx c d)))"
  by (cases c) (auto simp: service_step_def fulfill_order_def cancelOrder_def
      intro!: with_param_step [unfolded service_step_def] intro: step_intros)

lemma reservations_handle_step: "service_step api d (snd (snd (reservations_handle api ci rq cx c d)))"
  by (cases c) (auto simp: service_step_def intro!: with_param_step [unfolded service_step_def] intro: step_intros)

lemma endpoint_handle_step: "service_step api d (snd (snd (endpoint_handle api ci rq cx ep d)))"
proof (cases ep)
  case (HealthCall c)
  then show ?thesis by (cases c) simp_all
qed (simp_all add: auth_handle_step organizations_handle_step inventory_handle_step products_handle_step
    orders_handle_step reservations_handle_step dashboard_handle_def)

lemma run_guard_db [simp]: "sv_db (snd (run_guard api ci rq rt g cx s)) = sv_db s"
  by (cases g) (simp_all add: run_guard_def Let_def split_def)

lemma run_guards_db [simp]: "sv_db (snd (run_guards api ci rq rt gs cx s)) = sv_db s"
proof (induction gs arbitrary: cx s)
  case (Cons g gs)
  then show ?case
    using run_guard_db [of api ci rq rt g cx s]
    by (cases "run_guard api ci rq rt g cx s") (auto split: sum.split)
qed simp

text \<open>A request in parts: who it is of, what the guards said, and the handler's answer.\<close>

definition authenticate ::
  "'r api \<Rightarrow> call_input \<Rightarrow> http_request \<Rightarrow> endpoint \<Rightarrow> db \<Rightarrow> (exn + (session \<times> user) option) \<times> db" where
  "authenticate api ci rq ep d =
     SessionAuthGuard (ap_sha api) (ap_config api) (rt_public (endpoint_route ep)) (env_date (ci_env ci)) rq d"

lemma respond_cases:
  obtains (unauthenticated) e where "fst (authenticate api ci rq ep (sv_db s)) = Inl e"
    and "respond api ci rq ep s = (Inl e, [], s\<lparr>sv_db := snd (authenticate api ci rq ep (sv_db s))\<rparr>)"
  | (denied) e auth s2 where "fst (authenticate api ci rq ep (sv_db s)) = Inr auth"
    and "run_guards api ci rq (endpoint_route ep) (rt_guards (endpoint_route ep))
      \<lparr>cx_auth = auth, cx_membership = None\<rparr> (s\<lparr>sv_db := snd (authenticate api ci rq ep (sv_db s))\<rparr>) = (Inl e, s2)"
    and "respond api ci rq ep s = (Inl e, [], s2)" and "sv_db s2 = snd (authenticate api ci rq ep (sv_db s))"
  | (handled) auth cx s2 where "fst (authenticate api ci rq ep (sv_db s)) = Inr auth"
    and "run_guards api ci rq (endpoint_route ep) (rt_guards (endpoint_route ep))
      \<lparr>cx_auth = auth, cx_membership = None\<rparr> (s\<lparr>sv_db := snd (authenticate api ci rq ep (sv_db s))\<rparr>) = (Inr cx, s2)"
    and "fst (respond api ci rq ep s) =
      fst (endpoint_handle api ci rq cx ep (snd (authenticate api ci rq ep (sv_db s))))"
    and "fst (snd (respond api ci rq ep s)) =
      fst (snd (endpoint_handle api ci rq cx ep (snd (authenticate api ci rq ep (sv_db s)))))"
    and "sv_db (snd (snd (respond api ci rq ep s))) =
      snd (snd (endpoint_handle api ci rq cx ep (snd (authenticate api ci rq ep (sv_db s)))))"
proof -
  let ?rt = "endpoint_route ep"
  obtain r d where a: "authenticate api ci rq ep (sv_db s) = (r, d)" by (cases "authenticate api ci rq ep (sv_db s)")
  note a' = a [unfolded authenticate_def]
  show ?thesis
  proof (cases r)
    case (Inl e)
    then show ?thesis using a a' by (intro unauthenticated [of e]) (simp_all add: respond_def Let_def)
  next
    case (Inr auth)
    obtain q s2 where g: "run_guards api ci rq ?rt (rt_guards ?rt) \<lparr>cx_auth = auth, cx_membership = None\<rparr>
        (s\<lparr>sv_db := d\<rparr>) = (q, s2)" by fastforce
    have s2: "sv_db s2 = d"
      using run_guards_db [of api ci rq ?rt "rt_guards ?rt" "\<lparr>cx_auth = auth, cx_membership = None\<rparr>" "s\<lparr>sv_db := d\<rparr>"]
      by (simp add: g)
    show ?thesis
    proof (cases q)
      case (Inl e)
      with Inr show ?thesis using a a' g s2 by (intro denied [of auth e s2]) (simp_all add: respond_def Let_def)
    next
      case (Inr cx)
      with \<open>r = Inr auth\<close> show ?thesis
        using a a' g s2 by (intro handled [of auth cx s2]) (simp_all add: respond_def Let_def split: prod.split)
    qed
  qed
qed

lemma authenticate_step: "service_step api d (snd (authenticate api ci rq ep d))"
  using SessionAuthGuard_snd [of "ap_sha api" "ap_config api" "rt_public (endpoint_route ep)" "env_date (ci_env ci)" rq d]
  unfolding authenticate_def service_step_def
  by (metis api_step.validate)

lemma service_step_run: "service_step api d d' \<Longrightarrow> api_run (ap_sha api) (ap_argon2 api) d d'"
  by (auto simp: service_step_def intro: done_run step_run)

theorem respond_run:
  "api_run (ap_sha api) (ap_argon2 api) (sv_db s) (sv_db (snd (snd (respond api ci rq ep s))))"
proof -
  note first = service_step_run [OF authenticate_step [of api "sv_db s" ci rq ep]]
  show ?thesis
  proof (cases rule: respond_cases [of api ci rq ep s])
    case (handled auth cx s2)
    show ?thesis
      unfolding handled(5)
      by (rule api_run_trans [OF service_step_run [OF endpoint_handle_step] first])
  qed (use first in simp_all)
qed

end
