(* ===== verification/Access.thy ===== *)
theory Access
  imports Http
begin

text \<open>
  Who may do what, and to whose data.  \<open>member_request\<close> is the specification of an authorized request:
  it carries the token of a live session whose user is a member of the organization the path names,
  with a role the route asks for, and unless its method is safe the CSRF token of that session.
  \<open>tenant_data\<close> is the data of an organization.  The lemmas relate both to \<open>respond\<close>.
\<close>

section \<open>The specification\<close>

definition member_request ::
  "'r api \<Rightarrow> js_date \<Rightarrow> http_request \<Rightarrow> route \<Rightarrow> db \<Rightarrow> bool" where
  "member_request api now rq rt d =
     (case cookie_token rq (cfg_SESSION_COOKIE_NAME (ap_config api)) of
        None \<Rightarrow> False
      | Some t \<Rightarrow>
          (\<exists>sn \<in> set (sessions d). ses_tokenHash sn = ap_sha api t \<and> session_live now sn \<and>
             (\<exists>m \<in> set (memberships d). mem_userId m = ses_userId sn \<and>
                mem_organizationId m = pg_uuid (organizationId rq) \<and>
                (rt_roles rt = [] \<or> mem_role m \<in> set (rt_roles rt))) \<and>
             (rq_method rq \<in> set SAFE_METHODS \<or>
              (case first_header (rq_headers rq CSRF_HEADER) of
                 None \<Rightarrow> False | Some c \<Rightarrow> c \<noteq> [] \<and> verifyCsrfToken (ap_sha api) sn c))))"

definition tenant_data :: "uuid \<Rightarrow> db \<Rightarrow> db" where
  "tenant_data h d = (org_view h d)\<lparr>users := [], sessions := []\<rparr>"

definition organization_endpoint :: "endpoint \<Rightarrow> bool" where
  "organization_endpoint ep \<longleftrightarrow> UseMembership \<in> set (rt_guards (endpoint_route ep))"

section \<open>What the guards of a route establish\<close>

lemma run_guard_auth: "fst (run_guard api ci rq rt g cx s) = Inr cx' \<Longrightarrow> cx_auth cx' = cx_auth cx"
  by (cases g) (auto simp: run_guard_def Let_def split_def map_sum_Inr_iff)

lemma run_guards_ConsE:
  assumes "run_guards api ci rq rt (g # gs) cx s = (Inr cx', s')"
  obtains cx1 s1 where "run_guard api ci rq rt g cx s = (Inr cx1, s1)"
    and "run_guards api ci rq rt gs cx1 s1 = (Inr cx', s')" and "cx_auth cx1 = cx_auth cx" and "sv_db s1 = sv_db s"
proof -
  have "\<exists>cx1 s1. run_guard api ci rq rt g cx s = (Inr cx1, s1) \<and> run_guards api ci rq rt gs cx1 s1 = (Inr cx', s')"
    using assms by (auto split: sum.splits prod.splits)
  then obtain cx1 s1 where g: "run_guard api ci rq rt g cx s = (Inr cx1, s1)"
    and gs: "run_guards api ci rq rt gs cx1 s1 = (Inr cx', s')" by blast
  show ?thesis
    using that [OF g gs] run_guard_auth [of api ci rq rt g cx s cx1] run_guard_db [of api ci rq rt g cx s] g by simp
qed

lemma run_guards_membership:
  "run_guards api ci rq rt gs cx s = (Inr cx', s') \<Longrightarrow> UseMembership \<in> set gs \<Longrightarrow>
   \<exists>m. MembershipGuard rq (map_option snd (cx_auth cx)) (sv_db s) = Inr m"
proof (induction gs arbitrary: cx s)
  case (Cons g gs)
  from Cons.prems(1) obtain cx1 s1 where st: "run_guard api ci rq rt g cx s = (Inr cx1, s1)"
      "run_guards api ci rq rt gs cx1 s1 = (Inr cx', s')" "cx_auth cx1 = cx_auth cx" "sv_db s1 = sv_db s"
    by (rule run_guards_ConsE)
  show ?case
  proof (cases "g = UseMembership")
    case True
    with st(1) show ?thesis by (auto simp: run_guard_def map_sum_Inr_iff)
  next
    case False
    with Cons.IH [OF st(2)] Cons.prems(2) st(3,4) show ?thesis by simp
  qed
qed simp

lemma run_guards_csrf:
  "run_guards api ci rq rt gs cx s = (Inr cx', s') \<Longrightarrow> UseCsrf \<in> set gs \<Longrightarrow>
   CsrfGuard (ap_sha api) rq (map_option fst (cx_auth cx)) = Inr ()"
proof (induction gs arbitrary: cx s)
  case (Cons g gs)
  from Cons.prems(1) obtain cx1 s1 where st: "run_guard api ci rq rt g cx s = (Inr cx1, s1)"
      "run_guards api ci rq rt gs cx1 s1 = (Inr cx', s')" "cx_auth cx1 = cx_auth cx" "sv_db s1 = sv_db s"
    by (rule run_guards_ConsE)
  show ?case
  proof (cases "g = UseCsrf")
    case True
    with st(1) show ?thesis by (auto simp: run_guard_def map_sum_Inr_iff)
  next
    case False
    with Cons.IH [OF st(2)] Cons.prems(2) st(3) show ?thesis by simp
  qed
qed simp

text \<open>The calls of all controllers, as one case rule.\<close>

lemma endpoint_calls [case_names register login logout me csrf list_organizations get_organization rename
    list_inventory adjust list_products get_product create_product list_orders get_order fulfill cancel
    create_reservation release summary liveness readiness]:
  assumes "\<And>dto. ep = AuthCall (AuthRegister dto) \<Longrightarrow> P" and "\<And>dto. ep = AuthCall (AuthLogin dto) \<Longrightarrow> P"
    and "ep = AuthCall AuthLogout \<Longrightarrow> P" and "ep = AuthCall AuthMe \<Longrightarrow> P" and "ep = AuthCall AuthCsrf \<Longrightarrow> P"
    and "ep = OrganizationsCall OrgList \<Longrightarrow> P" and "ep = OrganizationsCall OrgGetOne \<Longrightarrow> P"
    and "\<And>name. ep = OrganizationsCall (OrgRename name) \<Longrightarrow> P"
    and "ep = InventoryCall InvList \<Longrightarrow> P" and "\<And>dto. ep = InventoryCall (InvAdjust dto) \<Longrightarrow> P"
    and "\<And>q. ep = ProductsCall (ProdList q) \<Longrightarrow> P" and "ep = ProductsCall ProdGetOne \<Longrightarrow> P"
    and "\<And>dto. ep = ProductsCall (ProdCreate dto) \<Longrightarrow> P"
    and "\<And>q. ep = OrdersCall (OrdList q) \<Longrightarrow> P" and "ep = OrdersCall OrdGetOne \<Longrightarrow> P"
    and "ep = OrdersCall OrdFulfill \<Longrightarrow> P" and "ep = OrdersCall OrdCancel \<Longrightarrow> P"
    and "\<And>dto. ep = ReservationsCall (ResCreate dto) \<Longrightarrow> P" and "ep = ReservationsCall ResRelease \<Longrightarrow> P"
    and "ep = DashboardCall \<Longrightarrow> P" and "ep = HealthCall HealthLiveness \<Longrightarrow> P" and "ep = HealthCall HealthReadiness \<Longrightarrow> P"
  shows P
proof (cases ep)
  case (AuthCall c) then show ?thesis using assms(1-5) by (cases c) simp_all
next
  case (OrganizationsCall c) then show ?thesis using assms(6-8) by (cases c) simp_all
next
  case (InventoryCall c) then show ?thesis using assms(9,10) by (cases c) simp_all
next
  case (ProductsCall c) then show ?thesis using assms(11-13) by (cases c) simp_all
next
  case (OrdersCall c) then show ?thesis using assms(14-17) by (cases c) simp_all
next
  case (ReservationsCall c) then show ?thesis using assms(18,19) by (cases c) simp_all
next
  case DashboardCall then show ?thesis by (rule assms(20))
next
  case (HealthCall c) then show ?thesis using assms(21,22) by (cases c) simp_all
qed

lemma route_roles:
  "rt_roles (endpoint_route ep) = [] \<or> rt_guards (endpoint_route ep) = [UseMembership, UseRoles, UseCsrf]"
  by (cases rule: endpoint_calls [of ep]) (simp_all add: route_with_def dashboard_route_def)

lemma route_csrf:
  "rt_method (endpoint_route ep) = ''GET'' \<or> UseCsrf \<in> set (rt_guards (endpoint_route ep)) \<or> rt_public (endpoint_route ep)"
  by (cases rule: endpoint_calls [of ep]) (simp_all add: route_with_def dashboard_route_def)

lemma route_member_private: "organization_endpoint ep \<Longrightarrow> \<not> rt_public (endpoint_route ep)"
  by (cases rule: endpoint_calls [of ep])
    (simp_all add: organization_endpoint_def route_with_def dashboard_route_def)

lemma routed_unsafe:
  "routed rq ep \<Longrightarrow> rq_method rq \<notin> set SAFE_METHODS \<Longrightarrow> \<not> rt_public (endpoint_route ep) \<Longrightarrow>
   UseCsrf \<in> set (rt_guards (endpoint_route ep))"
  using route_csrf [of ep] by (auto simp: routed_def SAFE_METHODS_def)

section \<open>An answered request is authorized\<close>

lemma find_session_parts:
  "find_session sha now t d = Some (s, u) \<Longrightarrow>
   s \<in> set (sessions d) \<and> ses_userId s = usr_id u \<and> ses_tokenHash s = sha t \<and> session_live now s"
  unfolding find_session_def by (auto dest!: find_Some_in)

lemma authenticate_frame: "\<exists>ss. snd (authenticate api ci rq ep d) = d\<lparr>sessions := ss\<rparr>"
proof -
  have "d = d\<lparr>sessions := sessions d\<rparr>" by simp
  then show ?thesis
    using SessionAuthGuard_snd [of "ap_sha api" "ap_config api" "rt_public (endpoint_route ep)" "env_date (ci_env ci)" rq d]
      session_frames(3) unfolding authenticate_def by metis
qed

lemma passed_member:
  assumes auth: "fst (authenticate api ci rq ep d) = Inr auth"
    and guards: "run_guards api ci rq (endpoint_route ep) (rt_guards (endpoint_route ep))
      \<lparr>cx_auth = auth, cx_membership = None\<rparr> s = (Inr cx, s2)"
    and s: "sv_db s = snd (authenticate api ci rq ep d)"
    and ep: "organization_endpoint ep" "routed rq ep"
  shows "member_request api (env_date (ci_env ci)) rq (endpoint_route ep) d"
proof -
  let ?rt = "endpoint_route ep"
  obtain m where m: "MembershipGuard rq (map_option snd auth) (sv_db s) = Inr m"
    using run_guards_membership [OF guards] ep(1) by (auto simp: organization_endpoint_def)
  then obtain g sn u where g: "rq_params rq ''organizationId'' = Some g" and a: "auth = Some (sn, u)"
    and gm: "getMembership (sv_db s) (usr_id u) g = Some m"
    by (auto simp: MembershipGuard_Inr)
  have org: "organizationId rq = g" using g by (simp add: organizationId_def path_param_def)
  have mem: "memberships (sv_db s) = memberships d"
    using authenticate_frame [of api ci rq ep d] by (auto simp: s)
  from auth a obtain t where t: "cookie_token rq (cfg_SESSION_COOKIE_NAME (ap_config api)) = Some t"
    and f: "find_session (ap_sha api) (env_date (ci_env ci)) t d = Some (sn, u)"
    by (auto simp: authenticate_def SessionAuthGuard_Some)
  note sn = find_session_parts [OF f]
  have role: "rt_roles ?rt = [] \<or> mem_role m \<in> set (rt_roles ?rt)"
  proof (cases "rt_roles ?rt = []")
    case False
    then have gs: "rt_guards ?rt = [UseMembership, UseRoles, UseCsrf]" using route_roles [of ep] by simp
    from guards m show ?thesis
      by (auto simp: gs run_guard_def a RolesGuard_Inr map_sum_Inr_iff split: sum.splits prod.splits)
  qed simp
  have csrf: "rq_method rq \<in> set SAFE_METHODS \<or> (\<exists>c. first_header (rq_headers rq CSRF_HEADER) = Some c \<and> c \<noteq> [] \<and>
      verifyCsrfToken (ap_sha api) sn c)"
  proof (cases "rq_method rq \<in> set SAFE_METHODS")
    case False
    from routed_unsafe [OF ep(2) False route_member_private [OF ep(1)]] run_guards_csrf [OF guards]
    show ?thesis by (auto simp: CsrfGuard_Inr a)
  qed simp
  have "m \<in> set (memberships d) \<and> mem_userId m = ses_userId sn \<and> mem_organizationId m = pg_uuid g"
    using getMembership_Some [OF gm] sn mem by simp
  with sn role csrf show ?thesis
    unfolding member_request_def t option.case org by (intro bexI [of _ sn] conjI bexI [of _ m]) auto
qed

lemma answered_member:
  assumes "fst (respond api ci rq ep s) = Inr b" and "organization_endpoint ep" and "routed rq ep"
  shows "member_request api (env_date (ci_env ci)) rq (endpoint_route ep) (sv_db s)"
proof (cases rule: respond_cases [of api ci rq ep s])
  case (handled auth cx s2)
  from passed_member [OF handled(1,2) _ assms(2,3)] show ?thesis by simp
qed (use assms(1) in simp_all)

section \<open>Whose data a request changes\<close>

lemma tenant_data_sessions [simp]: "tenant_data h (d\<lparr>sessions := ss\<rparr>) = tenant_data h d"
  by (simp add: tenant_data_def org_view_def)

lemma org_view_tenant_data: "org_view h d' = org_view h d \<Longrightarrow> tenant_data h d' = tenant_data h d"
  by (simp add: tenant_data_def)

lemma with_param_keeps:
  "(\<And>x. p = Inr x \<Longrightarrow> tenant_data h (snd (snd (k x))) = tenant_data h d) \<Longrightarrow>
   tenant_data h (snd (snd (with_param p d k))) = tenant_data h d"
  by (cases rule: with_param_cases [of p d k]) simp_all

lemma session_calls_keep:
  "tenant_data h (snd (login a sha e t c dto d)) = tenant_data h d"
  "tenant_data h (logout sha now t d) = tenant_data h d"
  "tenant_data h (snd (rotateCsrfToken sha c sn d)) = tenant_data h d"
  using session_frames(1) [of a sha e t c dto d] session_frames(2) [of sha now t d]
    session_frames(4) [of sha c sn d] by fastforce+

lemma register_keeps_tenant:
  assumes "h \<noteq> new_uuid e 0"
  shows "tenant_data h (snd (register a e dto d)) = tenant_data h d"
  using register_effect [of a e dto d] assms
  by (auto simp: tenant_data_def org_view_def new_organization_def owner_membership_def)

lemma auth_handle_keeps:
  assumes "\<And>dto. c = AuthRegister dto \<Longrightarrow> h \<noteq> new_uuid (ci_env ci) 0"
  shows "tenant_data h (snd (snd (auth_handle api ci rq cx c d))) = tenant_data h d"
proof (cases c)
  case (AuthRegister dto)
  with assms show ?thesis by (auto intro!: with_param_keeps register_keeps_tenant)
next
  case (AuthLogin dto)
  obtain r d' where l: "login (ap_argon2 api) (ap_sha api) (ci_env ci) (ci_token ci) (ci_csrfToken ci) dto d = (r, d')"
    by fastforce
  then have "tenant_data h d' = tenant_data h d"
    using session_calls_keep(1) [of h "ap_argon2 api" "ap_sha api" "ci_env ci" "ci_token ci" "ci_csrfToken ci" dto d]
    by simp
  with l show ?thesis
    unfolding AuthLogin by (cases r) (auto intro!: with_param_keeps simp: Let_def)
next
  case AuthLogout
  then show ?thesis by (auto simp: Let_def session_calls_keep split: option.split cookie_value.split)
next
  case AuthMe
  then show ?thesis by (auto intro!: with_param_keeps)
next
  case AuthCsrf
  then show ?thesis
    using session_calls_keep(3) [of h "ap_sha api" "ci_csrfToken ci" _ d]
    by (auto simp: rotateCsrfToken_def update_sessions_def split: option.split)
qed

text \<open>The four guarded operations of another organization.\<close>

lemma guarded_calls_keep:
  assumes st: "stock_state_ok d" and h: "h \<noteq> pg_uuid g"
  shows "tenant_data h (snd (adjustStock sha e g adto key d later)) = tenant_data h d"
    and "tenant_data h (snd (releaseReservation sha e g u oid key d later)) = tenant_data h d"
    and "tenant_data h (snd (fulfillOrder sha e g u oid key d later)) = tenant_data h d"
    and "reservation_valid rdto \<Longrightarrow> tenant_data h (snd (createReservation sha e g u rdto key d later)) = tenant_data h d"
proof -
  show "tenant_data h (snd (adjustStock sha e g adto key d later)) = tenant_data h d"
    unfolding adjustStock_def
    by (intro org_view_tenant_data adjust_tenant.idempotent_confined [OF TrueI st _ h]) (simp add: adjust_request_def)
  show "tenant_data h (snd (releaseReservation sha e g u oid key d later)) = tenant_data h d"
    unfolding releaseReservation_def
    by (intro org_view_tenant_data release_tenant.idempotent_confined [OF TrueI st _ h]) (simp add: transition_request_def)
  show "tenant_data h (snd (fulfillOrder sha e g u oid key d later)) = tenant_data h d"
    unfolding fulfillOrder_def
    by (intro org_view_tenant_data fulfill_tenant.idempotent_confined [OF TrueI st _ h]) (simp add: transition_request_def)
  assume v: "reservation_valid rdto"
  show "tenant_data h (snd (createReservation sha e g u rdto key d later)) = tenant_data h d"
  proof (cases rule: createReservation_cases [OF v, of sha e g u key d later])
    case 2
    show ?thesis
      unfolding 2(2)
      by (intro org_view_tenant_data reserve_tenant.idempotent_confined [OF conjI [OF v 2(1)] st _ h])
        (simp add: create_request_def)
  qed simp
qed

lemma endpoint_handle_keeps:
  assumes st: "stock_state_ok d" and h: "h \<noteq> pg_uuid (organizationId rq)"
    and reg: "\<And>dto. ep = AuthCall (AuthRegister dto) \<Longrightarrow> h \<noteq> new_uuid (ci_env ci) 0"
  shows "tenant_data h (snd (snd (endpoint_handle api ci rq cx ep d))) = tenant_data h d"
proof -
  note keep = guarded_calls_keep [OF st h] create_product_confined [OF h, THEN org_view_tenant_data]
    rename_confined [OF h, THEN org_view_tenant_data]
  show ?thesis
  proof (cases ep)
    case (AuthCall c)
    then show ?thesis using reg by (auto intro!: auth_handle_keeps)
  next
    case (OrganizationsCall c)
    show ?thesis
    proof (cases c)
      case (OrgRename name)
      obtain r d' where rn: "renameOrganization (ci_env ci) (organizationId rq) name d = (r, d')" by fastforce
      then have "tenant_data h d' = tenant_data h d" using keep(6) [of "ci_env ci" name d] by simp
      with rn show ?thesis by (auto simp: OrganizationsCall OrgRename intro!: with_param_keeps)
    qed (auto simp: OrganizationsCall intro!: with_param_keeps split: option.split)
  next
    case (InventoryCall c)
    then show ?thesis by (cases c) (auto intro!: with_param_keeps simp: keep)
  next
    case (ProductsCall c)
    then show ?thesis by (cases c) (auto intro!: with_param_keeps simp: keep)
  next
    case (OrdersCall c)
    then show ?thesis
      by (cases c) (auto intro!: with_param_keeps simp: keep fulfill_order_def cancelOrder_def)
  next
    case (ReservationsCall c)
    then show ?thesis by (cases c) (auto intro!: with_param_keeps simp: keep)
  next
    case DashboardCall
    then show ?thesis by (simp add: dashboard_handle_def)
  next
    case (HealthCall c)
    then show ?thesis by (cases c) simp_all
  qed
qed

end
