(* ===== verification/Http_Samples.thy ===== *)
theory Http_Samples
  imports Access Samples
begin

text \<open>
  A small concrete run over HTTP, on which the witnesses of the access properties evaluate: an
  application in development and one in production, a Redis whose store is a function, a registered
  and logged in owner.
\<close>

definition http_env :: "nat \<Rightarrow> env" where
  "http_env n = \<lparr>env_now = int n * 1000000, env_date = int n * 1000,
     env_uuid = (\<lambda>i. ''00000000-0000-4000-8000-0000000000'' @ [hex_digit n, hex_digit i])\<rparr>"

type_synonym redis_store = "string \<Rightarrow> (int \<times> js_date option) option"

definition redis_live :: "js_date \<Rightarrow> redis_store \<Rightarrow> string \<Rightarrow> (int \<times> js_date option) option" where
  "redis_live now r k =
     (case r k of
        Some (n, Some t) \<Rightarrow> if now < t then Some (n, Some t) else None
      | v \<Rightarrow> v)"

definition sample_redis :: "redis_store redis_commands" where
  "sample_redis =
     \<lparr>redis_incr = (\<lambda>now k r. case redis_live now r k of
          None \<Rightarrow> (1, r(k \<mapsto> (1, None))) | Some (n, t) \<Rightarrow> (n + 1, r(k \<mapsto> (n + 1, t)))),
      redis_expire = (\<lambda>now k secs r. case redis_live now r k of
          None \<Rightarrow> r | Some (n, t) \<Rightarrow> r(k \<mapsto> (n, Some (now + 1000 * secs))))\<rparr>"

definition sample_config :: "node_env \<Rightarrow> env_config" where
  "sample_config e = \<lparr>cfg_NODE_ENV = e, cfg_PORT = 3001, cfg_WEB_ORIGIN = ''http://localhost:3000'',
     cfg_DATABASE_URL = ''d'', cfg_REDIS_URL = ''r'', cfg_SESSION_COOKIE_NAME = ''fulfillos.sid'',
     cfg_CSRF_COOKIE_NAME = ''fulfillos.csrf''\<rparr>"

definition sample_codec :: codec where
  "sample_codec = \<lparr>toBase64url = id, fromBase64url = id, jsonParse = (\<lambda>s. None), dateParse = (\<lambda>s. None)\<rparr>"

definition sample_api :: "node_env \<Rightarrow> redis_store api" where
  "sample_api e = \<lparr>ap_config = sample_config e, ap_sha = sample_sha, ap_argon2 = sample_argon2,
     ap_codec = sample_codec, ap_collation = id, ap_isEmail = (\<lambda>s. True), ap_isUUID = UUID_PATTERN,
     ap_parseUUID = UUID_PATTERN, ap_invalidBody = http_error 400 ''Bad Request'',
     ap_invalidUUID = http_error 400 ''Validation failed (uuid is expected)'', ap_redis = sample_redis\<rparr>"

definition sample_input :: "nat \<Rightarrow> call_input" where
  "sample_input n = \<lparr>ci_env = http_env n, ci_token = ''70'', ci_csrfToken = ''c5'', ci_later = empty_db,
     ci_databaseUp = True\<rparr>"

definition sample_request :: "string \<Rightarrow> (string \<times> string) list \<Rightarrow> (string \<times> string) list \<Rightarrow> (string \<times> string) list \<Rightarrow> http_request" where
  "sample_request m cookies headers params =
     \<lparr>rq_method = m, rq_path = ''/'', rq_ip = Some ''10.0.0.1'',
      rq_cookies = (\<lambda>c. map_option CookieText (map_of cookies c)),
      rq_headers = (\<lambda>h. map_option OneHeader (map_of headers h)), rq_params = map_of params\<rparr>"

definition server_of :: "db \<Rightarrow> redis_store server" where
  "server_of d = \<lparr>sv_db = d, sv_redis = (\<lambda>k. None)\<rparr>"

definition sample_login :: login_dto where
  "sample_login = \<lparr>lg_email = ''O@x'', lg_password = ''pppppppp''\<rparr>"

definition register_request :: http_request where
  "register_request = sample_request ''POST'' [] [] []"

definition http_org :: string where "http_org = ''00000000-0000-4000-8000-000000000000''"

definition owner_request :: "string \<Rightarrow> (string \<times> string) list \<Rightarrow> http_request" where
  "owner_request m params = sample_request m [(''fulfillos.sid'', ''70'')]
     [(''x-csrf-token'', ''c5''), (''idempotency-key'', ''k1'')] ((''organizationId'', http_org) # params)"

section \<open>The databases of the run\<close>

definition db_registered :: db where
  "db_registered = empty_db
     \<lparr>organizations := [\<lparr>org_id = ''00000000-0000-4000-8000-000000000000'', org_name = ''Acme'',
        org_createdAt = 0, org_updatedAt = 0\<rparr>],
      users := [\<lparr>usr_id = ''00000000-0000-4000-8000-000000000001'', usr_email = ''o@x'', usr_emailNormalized = ''o@x'',
        usr_displayName = ''O'', usr_passwordHash = ''pppppppp'', usr_createdAt = 0, usr_updatedAt = 0\<rparr>],
      memberships := [\<lparr>mem_organizationId = ''00000000-0000-4000-8000-000000000000'',
        mem_userId = ''00000000-0000-4000-8000-000000000001'', mem_role = Owner, mem_createdAt = 0\<rparr>]\<rparr>"

definition owner_session :: session where
  "owner_session = \<lparr>ses_id = ''00000000-0000-4000-8000-000000000010'',
     ses_userId = ''00000000-0000-4000-8000-000000000001'', ses_tokenHash = ''70'', ses_csrfSecretHash = ''c5'',
     ses_createdAt = 1000000, ses_lastActivityAt = 1000000, ses_idleExpiresAt = 1801000000,
     ses_absoluteExpiresAt = 28801000000, ses_revokedAt = None\<rparr>"

definition db_logged_in :: db where
  "db_logged_in = db_registered\<lparr>sessions := [owner_session]\<rparr>"

text \<open>A second organization, whose owner then creates a product.\<close>

definition other_org :: string where "other_org = ''00000000-0000-4000-8000-000000000030''"

definition other_register :: register_dto where
  "other_register = \<lparr>rg_email = ''p@x'', rg_password = ''qqqqqqqq'', rg_displayName = ''P'', rg_organizationName = ''Bolt''\<rparr>"

definition other_login :: login_dto where
  "other_login = \<lparr>lg_email = ''p@x'', lg_password = ''qqqqqqqq''\<rparr>"

definition other_input :: "nat \<Rightarrow> call_input" where
  "other_input n = \<lparr>ci_env = http_env n, ci_token = ''80'', ci_csrfToken = ''d5'', ci_later = empty_db,
     ci_databaseUp = True\<rparr>"

definition other_request :: http_request where
  "other_request = sample_request ''POST'' [(''fulfillos.sid'', ''80'')] [(''x-csrf-token'', ''d5'')] [(''organizationId'', other_org)]"

definition db_two_tenants :: db where
  "db_two_tenants =
    \<lparr>organizations =
       [\<lparr>org_id = ''00000000-0000-4000-8000-000000000000'', org_name = ''Acme'', org_createdAt = 0, org_updatedAt = 0\<rparr>,
        \<lparr>org_id = ''00000000-0000-4000-8000-000000000030'', org_name = ''Bolt'', org_createdAt = 3000000, org_updatedAt = 3000000\<rparr>],
     users =
       [\<lparr>usr_id = ''00000000-0000-4000-8000-000000000001'', usr_email = ''o@x'', usr_emailNormalized = ''o@x'',
         usr_displayName = ''O'', usr_passwordHash = ''pppppppp'', usr_createdAt = 0, usr_updatedAt = 0\<rparr>,
        \<lparr>usr_id = ''00000000-0000-4000-8000-000000000031'', usr_email = ''p@x'', usr_emailNormalized = ''p@x'',
         usr_displayName = ''P'', usr_passwordHash = ''qqqqqqqq'', usr_createdAt = 3000000, usr_updatedAt = 3000000\<rparr>],
     memberships =
       [\<lparr>mem_organizationId = ''00000000-0000-4000-8000-000000000000'',
         mem_userId = ''00000000-0000-4000-8000-000000000001'', mem_role = Owner, mem_createdAt = 0\<rparr>,
        \<lparr>mem_organizationId = ''00000000-0000-4000-8000-000000000030'',
         mem_userId = ''00000000-0000-4000-8000-000000000031'', mem_role = Owner, mem_createdAt = 3000000\<rparr>],
     products = [], inventory = [], inventoryMovements = [], orders = [], orderItems = [],
     idempotencyKeys = [], auditLog = [],
     sessions =
       [owner_session,
        \<lparr>ses_id = ''00000000-0000-4000-8000-000000000040'', ses_userId = ''00000000-0000-4000-8000-000000000031'',
         ses_tokenHash = ''80'', ses_csrfSecretHash = ''d5'', ses_createdAt = 4000000, ses_lastActivityAt = 4000000,
         ses_idleExpiresAt = 1804000000, ses_absoluteExpiresAt = 28804000000, ses_revokedAt = None\<rparr>]\<rparr>"

definition db_two_tenants_stocked :: db where
  "db_two_tenants_stocked = db_two_tenants
     \<lparr>products := [\<lparr>prod_id = ''00000000-0000-4000-8000-000000000050'',
        prod_organizationId = ''00000000-0000-4000-8000-000000000030'', prod_sku = ''A'', prod_skuNormalized = ''a'',
        prod_name = ''A'', prod_description = None, prod_unitPriceCents = 250, prod_status = Active,
        prod_createdAt = 5000000, prod_updatedAt = 5000000\<rparr>],
      inventory := [\<lparr>inv_id = ''00000000-0000-4000-8000-000000000051'',
        inv_organizationId = ''00000000-0000-4000-8000-000000000030'',
        inv_productId = ''00000000-0000-4000-8000-000000000050'', inv_onHand = 5, inv_reserved = 0,
        inv_createdAt = 5000000, inv_updatedAt = 5000000\<rparr>],
      inventoryMovements := [\<lparr>mov_organizationId = ''00000000-0000-4000-8000-000000000030'',
        mov_productId = ''00000000-0000-4000-8000-000000000050'', mov_movementType = OnHandAdjustment,
        mov_onHandDelta = 5, mov_reservedDelta = 0, mov_reason = ''Initial stock at product creation'',
        mov_reference = None, mov_createdAt = 5000000\<rparr>]\<rparr>"

lemma sample_api_services [simp]: "ap_sha (sample_api e) = sample_sha" "ap_argon2 (sample_api e) = sample_argon2"
  by (simp_all add: sample_api_def)

lemma sv_db_server_of [simp]: "sv_db (server_of d) = d"
  by (simp add: server_of_def)

lemma reachable_respond:
  assumes "reachable sample_sha sample_argon2 d"
    and "sv_db (snd (snd (respond (sample_api e) ci rq ep (server_of d)))) = d'"
  shows "reachable sample_sha sample_argon2 d'"
  using assms respond_run [of "sample_api e" "server_of d" ci rq ep]
  by (auto simp: reachable_def intro: api_run_trans)

lemma reachable_http:
  "reachable sample_sha sample_argon2 db_registered" "reachable sample_sha sample_argon2 db_logged_in"
  "reachable sample_sha sample_argon2 db_two_tenants" "reachable sample_sha sample_argon2 db_two_tenants_stocked"
proof -
  have empty: "reachable sample_sha sample_argon2 empty_db" by (simp add: reachable_def done_run)
  have "sv_db (snd (snd (respond (sample_api Development) (sample_input 0) register_request
      (AuthCall (AuthRegister sample_register)) (server_of empty_db)))) = db_registered" by code_simp
  with empty show registered: "reachable sample_sha sample_argon2 db_registered" by (rule reachable_respond)
  have "sv_db (snd (snd (respond (sample_api Development) (sample_input 1) register_request
      (AuthCall (AuthLogin sample_login)) (server_of db_registered)))) = db_logged_in" by code_simp
  with registered show logged_in: "reachable sample_sha sample_argon2 db_logged_in" by (rule reachable_respond)
  have "sv_db (snd (snd (respond (sample_api Development) (other_input 4) register_request (AuthCall (AuthLogin other_login))
      (server_of (sv_db (snd (snd (respond (sample_api Development) (other_input 3) register_request
        (AuthCall (AuthRegister other_register)) (server_of db_logged_in))))))))) = db_two_tenants" by code_simp
  with reachable_respond [OF logged_in refl]
  show two: "reachable sample_sha sample_argon2 db_two_tenants" by (rule reachable_respond)
  have "sv_db (snd (snd (respond (sample_api Development) (other_input 5) other_request
      (ProductsCall (ProdCreate (sample_product ''A'' 5))) (server_of db_two_tenants)))) = db_two_tenants_stocked" by code_simp
  with two show "reachable sample_sha sample_argon2 db_two_tenants_stocked" by (rule reachable_respond)
qed

end
