(* ===== verification/Access_Properties.thy ===== *)
theory Access_Properties
  imports Http_Samples
begin

text \<open>
  The properties of the request cycle: who can change and who can read the data of an organization,
  what a refused request leaves behind, and what becomes of a login in development and in production.
\<close>

section \<open>Authorization\<close>

lemma outside_calls_keep:
  assumes "\<not> organization_endpoint ep"
    and "\<And>dto. ep = AuthCall (AuthRegister dto) \<Longrightarrow> h \<noteq> new_uuid (ci_env ci) 0"
  shows "tenant_data h (snd (snd (endpoint_handle api ci rq cx ep d))) = tenant_data h d"
  using assms
  by (cases rule: endpoint_calls [of ep])
    (auto simp: organization_endpoint_def route_with_def dashboard_route_def
      intro!: auth_handle_keeps with_param_keeps simp del: auth_handle.simps)

text \<open>C12. The data of an organization (its catalog, stock, ledger, orders, keys, audit log, name and
  memberships) changes only by a request that carries the token of a live session of one of its members,
  with the role the route asks for and the CSRF token of that session, or by the registration that
  creates the organization.\<close>

theorem only_members_change_data:
  assumes "reachable (ap_sha api) (ap_argon2 api) (sv_db s)" and "routed rq ep"
    and "tenant_data h (sv_db (snd (snd (respond api ci rq ep s)))) \<noteq> tenant_data h (sv_db s)"
  shows "(organization_endpoint ep \<and> h = pg_uuid (organizationId rq) \<and>
      member_request api (env_date (ci_env ci)) rq (endpoint_route ep) (sv_db s)) \<or>
    (\<exists>dto. ep = AuthCall (AuthRegister dto) \<and> h = new_uuid (ci_env ci) 0)"
proof -
  let ?d = "snd (authenticate api ci rq ep (sv_db s))"
  obtain ss where ss: "?d = (sv_db s)\<lparr>sessions := ss\<rparr>" using authenticate_frame by blast
  have "api_ok ?d"
    using api_run_keeps [OF service_step_run [OF authenticate_step] reachable_ok [OF assms(1)]] by blast
  then have st: "stock_state_ok ?d" by (rule api_okD(4))
  show ?thesis
  proof (cases rule: respond_cases [of api ci rq ep s])
    case (handled auth cx s2)
    have changed: "tenant_data h (snd (snd (endpoint_handle api ci rq cx ep ?d))) \<noteq> tenant_data h ?d"
      using assms(3) by (simp add: handled(5) ss)
    show ?thesis
    proof (cases "organization_endpoint ep")
      case True
      then have "ep \<noteq> AuthCall (AuthRegister dto)" for dto
        by (auto simp: organization_endpoint_def route_with_def)
      then have "h = pg_uuid (organizationId rq)"
        using endpoint_handle_keeps [OF st, of h rq ep ci api cx] changed by blast
      with True passed_member [OF handled(1,2) _ True assms(2)] show ?thesis by simp
    next
      case False
      with outside_calls_keep [of ep h ci api rq cx ?d] changed show ?thesis by blast
    qed
  qed (use assms(3) ss in simp_all)
qed

theorem only_members_change_data_witness:
  "member_request (sample_api Development) (env_date (ci_env (sample_input 2))) (owner_request ''POST'' [])
     (endpoint_route (ProductsCall (ProdCreate (sample_product ''A'' 5)))) db_logged_in"
proof -
  let ?ep = "ProductsCall (ProdCreate (sample_product ''A'' 5))"
  let ?s = "server_of db_logged_in"
  have r: "routed (owner_request ''POST'' []) ?ep" by code_simp
  have "products (tenant_data http_org (sv_db ?s)) = []" by code_simp
  moreover have "products (tenant_data http_org (sv_db (snd (snd
      (respond (sample_api Development) (sample_input 2) (owner_request ''POST'' []) ?ep ?s))))) \<noteq> []" by code_simp
  ultimately have "tenant_data http_org (sv_db (snd (snd
      (respond (sample_api Development) (sample_input 2) (owner_request ''POST'' []) ?ep ?s)))) \<noteq> tenant_data http_org (sv_db ?s)"
    by metis
  from only_members_change_data [OF _ r this] reachable_http(2) show ?thesis by auto
qed

text \<open>The refusals of the guards of an organization's routes, once the caller is known.\<close>

definition refusal :: "exn \<Rightarrow> bool" where
  "refusal e \<longleftrightarrow> (\<exists>code \<in> {400, 401, 403, 404}. \<exists>b. e = HttpException b code)"

lemma organization_guards:
  "organization_endpoint ep \<Longrightarrow> rt_guards (endpoint_route ep) \<in>
    {[UseMembership], [UseMembership, UseCsrf], [UseMembership, UseRoles, UseCsrf]}"
  by (cases rule: endpoint_calls [of ep]) (simp_all add: organization_endpoint_def route_with_def dashboard_route_def)

lemma guard_refusals:
  "MembershipGuard rq (Some u) d = Inl e \<Longrightarrow> refusal e" "RolesGuard rs (Some m) = Inl e \<Longrightarrow> refusal e"
  "CsrfGuard sha rq sn = Inl e \<Longrightarrow> refusal e"
  by (auto simp: MembershipGuard_def RolesGuard_def CsrfGuard_def refusal_def http_error_def split: option.splits if_splits)

lemma run_guards_refusal:
  assumes "organization_endpoint ep" and auth: "cx_auth cx = Some (sn, u)"
    and "run_guards api ci rq (endpoint_route ep) (rt_guards (endpoint_route ep)) cx s = (Inl e, s')"
  shows "refusal e"
proof (cases "MembershipGuard rq (Some u) (sv_db s)")
  case (Inl e')
  with organization_guards [OF assms(1)] assms(3) auth guard_refusals(1) [OF Inl] show ?thesis
    by (auto simp: run_guard_def)
next
  case (Inr m)
  show ?thesis
  proof (cases "RolesGuard (rt_roles (endpoint_route ep)) (Some m)")
    case roles: (Inl e')
    with organization_guards [OF assms(1)] assms(3) auth Inr guard_refusals(2) [OF roles] show ?thesis
      by (auto simp: run_guard_def map_sum_Inl_iff dest: guard_refusals(3) split: sum.splits)
  next
    case roles: (Inr x)
    from organization_guards [OF assms(1)] assms(3) auth Inr roles show ?thesis
      by (cases "CsrfGuard (ap_sha api) rq (Some sn)")
        (auto simp: run_guard_def map_sum_Inl_iff dest: guard_refusals(3))
  qed
qed

lemma authenticate_refusal:
  assumes "fst (authenticate api ci rq ep d) = Inl e"
  shows "refusal e"
  using assms
  by (auto simp: authenticate_def SessionAuthGuard_def refusal_def http_error_def
      split: option.splits prod.splits if_splits)

text \<open>C14. A request to an organization that is not authorized is refused with 400, 401, 403 or 404, sets
  no cookie, and changes nothing but rows of the session table.\<close>

theorem unauthorized_has_no_effect:
  assumes "organization_endpoint ep" and "routed rq ep"
    and "\<not> member_request api (env_date (ci_env ci)) rq (endpoint_route ep) (sv_db s)"
  shows "(\<exists>b code. fst (respond api ci rq ep s) = Inl (HttpException b code) \<and> code \<in> {400, 401, 403, 404}) \<and>
    fst (snd (respond api ci rq ep s)) = [] \<and>
    (\<exists>ss. sv_db (snd (snd (respond api ci rq ep s))) = (sv_db s)\<lparr>sessions := ss\<rparr>)"
proof (cases rule: respond_cases [of api ci rq ep s])
  case (unauthenticated e)
  with authenticate_refusal [OF unauthenticated(1)] authenticate_frame show ?thesis
    by (auto simp: refusal_def)
next
  case (denied e auth s2)
  have "auth \<noteq> None"
    using denied(1) SessionAuthGuard_None route_member_private [OF assms(1)] unfolding authenticate_def by metis
  then obtain sn u where "auth = Some (sn, u)" by auto
  with run_guards_refusal [OF assms(1) _ denied(2)] have "refusal e" by simp
  then show ?thesis using denied(3,4) authenticate_frame by (auto simp: refusal_def)
next
  case (handled auth cx s2)
  with passed_member [OF handled(1,2) _ assms(1,2)] assms(3) show ?thesis by simp
qed

theorem unauthorized_has_no_effect_witness:
  "\<exists>e. fst (respond (sample_api Development) (sample_input 2) (sample_request ''POST'' [] [] [(''organizationId'', http_org)])
      (ReservationsCall ResRelease) (server_of db_logged_in)) = Inl e"
proof -
  have "organization_endpoint (ReservationsCall ResRelease)" by code_simp
  moreover have "routed (sample_request ''POST'' [] [] [(''organizationId'', http_org)]) (ReservationsCall ResRelease)" by code_simp
  moreover have "\<not> member_request (sample_api Development) (env_date (ci_env (sample_input 2)))
      (sample_request ''POST'' [] [] [(''organizationId'', http_org)]) (endpoint_route (ReservationsCall ResRelease))
      (sv_db (server_of db_logged_in))" by code_simp
  ultimately show ?thesis using unauthorized_has_no_effect by blast
qed

section \<open>Reading\<close>

lemma getMembership_view: "getMembership (org_view (pg_uuid g) d) u g = getMembership d u g"
  unfolding getMembership_def org_view_def by simp

lemma getOrganization_view: "getOrganization (org_view (pg_uuid g) d) g = getOrganization d g"
proof -
  have "find (\<lambda>r. org_id r = pg_uuid g) (filter (\<lambda>r. org_id r = pg_uuid g) (organizations d)) =
      find (\<lambda>r. org_id r = pg_uuid g) (organizations d)" by (rule find_filter)
  then show ?thesis by (simp add: getOrganization_def org_view_def)
qed

lemma read_handle_view:
  assumes db: "db_ok d" and ep: "organization_endpoint ep" "rt_method (endpoint_route ep) = ''GET''"
  shows "fst (endpoint_handle api ci rq cx ep (org_view (pg_uuid (organizationId rq)) d)) =
    fst (endpoint_handle api ci rq cx ep d)"
  using ep
proof (cases rule: endpoint_calls [of ep])
  case get_organization
  then show ?thesis by (simp add: getOrganization_view failed_def split: option.split)
next
  case list_inventory
  then show ?thesis by (simp add: listInventory_view [OF db])
next
  case (list_products q)
  then show ?thesis by (simp add: listings_view with_param_def failed_def read_answer_def valid_body_def)
next
  case get_product
  then show ?thesis by (simp add: getProduct_view [OF db] with_param_def failed_def read_answer_def split: sum.split)
next
  case (list_orders q)
  then show ?thesis by (simp add: listings_view with_param_def failed_def read_answer_def valid_body_def)
next
  case get_order
  then show ?thesis by (simp add: getOrder_view [OF db] with_param_def failed_def read_answer_def split: sum.split)
next
  case summary
  then show ?thesis by (simp add: dashboard_handle_def getSummary_view)
qed (simp_all add: organization_endpoint_def route_with_def)

lemma authenticate_reads_accounts:
  assumes "users d1 = users d2" and "sessions d1 = sessions d2"
  shows "fst (authenticate api ci rq ep d1) = fst (authenticate api ci rq ep d2)"
    and "sessions (snd (authenticate api ci rq ep d1)) = sessions (snd (authenticate api ci rq ep d2))"
proof -
  have f: "find_session sha now t d1 = find_session sha now t d2" for sha now t
    by (simp add: find_session_def assms)
  show "fst (authenticate api ci rq ep d1) = fst (authenticate api ci rq ep d2)"
    "sessions (snd (authenticate api ci rq ep d1)) = sessions (snd (authenticate api ci rq ep d2))"
    by (auto simp: authenticate_def SessionAuthGuard_def validateToken_def f touch_def update_sessions_def assms
        split: option.split prod.split)
qed

lemma org_view_accounts: "(tenant_data h d)\<lparr>users := users d, sessions := sessions d\<rparr> = org_view h d"
  by (simp add: tenant_data_def org_view_def)

text \<open>The guards of a read, on databases that agree on the organization and the accounts.\<close>

lemma read_guards:
  assumes "organization_endpoint ep" and "rt_method (endpoint_route ep) = ''GET''"
    and "org_view (pg_uuid (organizationId rq)) (sv_db s1) = org_view (pg_uuid (organizationId rq)) (sv_db s2)"
  shows "fst (run_guards api ci rq (endpoint_route ep) (rt_guards (endpoint_route ep)) cx s1) =
    fst (run_guards api ci rq (endpoint_route ep) (rt_guards (endpoint_route ep)) cx s2)"
proof -
  have m: "MembershipGuard rq u (sv_db s1) = MembershipGuard rq u (sv_db s2)" for u
    using getMembership_view [of "organizationId rq"] arg_cong [OF assms(3), of "\<lambda>d. getMembership d _ (organizationId rq)"]
    by (auto simp: MembershipGuard_def organizationId_def path_param_def split: option.split)
  have gs: "rt_guards (endpoint_route ep) \<in> {[UseMembership], [UseMembership, UseCsrf]}"
    using assms(1,2)
    by (cases rule: endpoint_calls [of ep]) (simp_all add: organization_endpoint_def route_with_def dashboard_route_def)
  show ?thesis
  proof (cases "MembershipGuard rq (map_option snd (cx_auth cx)) (sv_db s2)")
    case (Inl e)
    with gs m show ?thesis by (auto simp: run_guard_def)
  next
    case (Inr r)
    with gs m show ?thesis
      by (auto simp: run_guard_def split: sum.split)
  qed
qed

text \<open>C13. What a read of an organization is answered depends on the data of that organization and on the
  accounts only: two databases that agree on them give the same answer to every such request, whatever
  the other organizations hold.\<close>

theorem reads_own_data_only:
  assumes "reachable (ap_sha api) (ap_argon2 api) (sv_db s1)" and "reachable (ap_sha api) (ap_argon2 api) (sv_db s2)"
    and "organization_endpoint ep" and "rt_method (endpoint_route ep) = ''GET''"
    and "tenant_data (pg_uuid (organizationId rq)) (sv_db s1) = tenant_data (pg_uuid (organizationId rq)) (sv_db s2)"
    and "users (sv_db s1) = users (sv_db s2)" and "sessions (sv_db s1) = sessions (sv_db s2)"
  shows "fst (respond api ci rq ep s1) = fst (respond api ci rq ep s2)"
proof -
  let ?g = "pg_uuid (organizationId rq)"
  define d1 where "d1 = snd (authenticate api ci rq ep (sv_db s1))"
  define d2 where "d2 = snd (authenticate api ci rq ep (sv_db s2))"
  note auth = authenticate_reads_accounts [OF assms(6,7)]
  obtain ss1 ss2 where ss: "d1 = (sv_db s1)\<lparr>sessions := ss1\<rparr>" "d2 = (sv_db s2)\<lparr>sessions := ss2\<rparr>"
    using authenticate_frame d1_def d2_def by metis
  have "tenant_data ?g d1 = tenant_data ?g d2" "users d1 = users d2" "sessions d1 = sessions d2"
    using assms(5,6) auth(2) [of api ci rq ep] by (auto simp: ss d1_def [symmetric] d2_def [symmetric])
  then have view: "org_view ?g d1 = org_view ?g d2"
    by (metis org_view_accounts)
  have ok: "db_ok d1" "db_ok d2"
    using reachable_ok [OF assms(1)] reachable_ok [OF assms(2)] api_okD(1) service_step_run [OF authenticate_step]
      api_run_keeps unfolding d1_def d2_def by blast+
  have handle: "fst (endpoint_handle api ci rq cx ep d1) = fst (endpoint_handle api ci rq cx ep d2)" for cx
    using read_handle_view [OF ok(1) assms(3,4)] read_handle_view [OF ok(2) assms(3,4)] view by metis
  show ?thesis
  proof (cases "fst (authenticate api ci rq ep (sv_db s2))")
    case (Inl e)
    with auth(1) [of api ci rq ep] show ?thesis
      by (cases rule: respond_cases [of api ci rq ep s1]; cases rule: respond_cases [of api ci rq ep s2]) simp_all
  next
    case (Inr au)
    have g: "fst (run_guards api ci rq (endpoint_route ep) (rt_guards (endpoint_route ep))
          \<lparr>cx_auth = au, cx_membership = None\<rparr> (s1\<lparr>sv_db := d1\<rparr>)) =
        fst (run_guards api ci rq (endpoint_route ep) (rt_guards (endpoint_route ep))
          \<lparr>cx_auth = au, cx_membership = None\<rparr> (s2\<lparr>sv_db := d2\<rparr>))"
      using view by (intro read_guards [OF assms(3,4)]) simp
    show ?thesis
      using Inr auth(1) [of api ci rq ep] g handle
      by (cases rule: respond_cases [of api ci rq ep s1]; cases rule: respond_cases [of api ci rq ep s2])
        (simp_all add: d1_def [symmetric] d2_def [symmetric])
  qed
qed

theorem reads_own_data_only_witness:
  "fst (respond (sample_api Development) (sample_input 6) (owner_request ''GET'' []) DashboardCall (server_of db_two_tenants_stocked)) =
   fst (respond (sample_api Development) (sample_input 6) (owner_request ''GET'' []) DashboardCall (server_of db_two_tenants)) \<and>
   products db_two_tenants_stocked \<noteq> products db_two_tenants"
proof
  have "tenant_data (pg_uuid (organizationId (owner_request ''GET'' []))) db_two_tenants_stocked =
      tenant_data (pg_uuid (organizationId (owner_request ''GET'' []))) db_two_tenants" by code_simp
  moreover have "users db_two_tenants_stocked = users db_two_tenants" by code_simp
  moreover have "sessions db_two_tenants_stocked = sessions db_two_tenants" by code_simp
  ultimately show "fst (respond (sample_api Development) (sample_input 6) (owner_request ''GET'' []) DashboardCall
      (server_of db_two_tenants_stocked)) =
      fst (respond (sample_api Development) (sample_input 6) (owner_request ''GET'' []) DashboardCall (server_of db_two_tenants))"
    using reachable_http(3,4)
    by (intro reads_own_data_only) (simp_all add: organization_endpoint_def dashboard_route_def route_with_def)
  show "products db_two_tenants_stocked \<noteq> products db_two_tenants" by code_simp
qed

section \<open>Logging in\<close>

text \<open>What a client that holds exactly the cookies of an answer sends with its next request.\<close>

fun sent_cookies :: "cookie_op list \<Rightarrow> string \<Rightarrow> cookie_value option" where
  "sent_cookies [] c = None"
| "sent_cookies (SetCookie name v opts # ops) c =
     (case sent_cookies ops c of None \<Rightarrow> if c = name then Some (CookieText v) else None | r \<Rightarrow> r)"
| "sent_cookies (ClearCookie name opts # ops) c = sent_cookies ops c"

lemma login_answer:
  assumes "respond api ci rq (AuthCall (AuthLogin dto)) s = (Inr (LoggedIn u c), cookies, s1)"
  shows "cookies = [setSessionCookie (cn_session (cookieNames (ap_config api))) (ci_token ci) (isProduction (ap_config api)),
      setCsrfCookie (cn_csrf (cookieNames (ap_config api))) (ci_csrfToken ci) (isProduction (ap_config api))]"
    and "\<exists>cs. login (ap_argon2 api) (ap_sha api) (ci_env ci) (ci_token ci) (ci_csrfToken ci) dto
      (snd (authenticate api ci rq (AuthCall (AuthLogin dto)) (sv_db s))) = (Inr (u, cs), sv_db s1)"
proof -
  let ?ep = "AuthCall (AuthLogin dto)"
  let ?d = "snd (authenticate api ci rq ?ep (sv_db s))"
  have "\<exists>cs. login (ap_argon2 api) (ap_sha api) (ci_env ci) (ci_token ci) (ci_csrfToken ci) dto ?d = (Inr (u, cs), sv_db s1) \<and>
      cookies = [setSessionCookie (cn_session (cookieNames (ap_config api))) (crs_token cs) (isProduction (ap_config api)),
        setCsrfCookie (cn_csrf (cookieNames (ap_config api))) (crs_csrfToken cs) (isProduction (ap_config api))]"
  proof (cases rule: respond_cases [of api ci rq ?ep s])
    case (handled auth cx s2)
    then show ?thesis
      using assms
      by (auto simp: with_param_def failed_def valid_body_def Let_def split: sum.splits prod.splits if_splits)
  qed (use assms in simp_all)
  then obtain cs where l: "login (ap_argon2 api) (ap_sha api) (ci_env ci) (ci_token ci) (ci_csrfToken ci) dto ?d = (Inr (u, cs), sv_db s1)"
    and ck: "cookies = [setSessionCookie (cn_session (cookieNames (ap_config api))) (crs_token cs) (isProduction (ap_config api)),
        setCsrfCookie (cn_csrf (cookieNames (ap_config api))) (crs_csrfToken cs) (isProduction (ap_config api))]"
    by blast
  have "crs_token cs = ci_token ci" "crs_csrfToken cs = ci_csrfToken ci"
    using l by (auto simp: login_def Let_def createSession_def andThen_Inr_iff split: option.splits if_splits sum.splits)
  with l ck show "cookies = [setSessionCookie (cn_session (cookieNames (ap_config api))) (ci_token ci) (isProduction (ap_config api)),
      setCsrfCookie (cn_csrf (cookieNames (ap_config api))) (ci_csrfToken ci) (isProduction (ap_config api))]"
    and "\<exists>cs. login (ap_argon2 api) (ap_sha api) (ci_env ci) (ci_token ci) (ci_csrfToken ci) dto ?d = (Inr (u, cs), sv_db s1)"
    by simp_all
qed

text \<open>The row of a login is found by its token until its window closes.\<close>

lemma login_session_found:
  assumes "login a sha e t c dto d = (Inr (pu, cs), d')" and "db_ok d"
    and "env_date e \<le> now" and "now < env_date e + IDLE_TIMEOUT_MS"
  shows "\<exists>s u. find_session sha now t d' = Some (s, u) \<and> omitPasswordHash u = pu \<and> ses_csrfSecretHash s = sha c"
proof -
  have db: "db_ok d'" using login_ok [OF assms(2), of a sha e t c dto] assms(1) by simp
  obtain u where u: "find (\<lambda>u. usr_emailNormalized u = js_trim (lower (lg_email dto))) (users d) = Some u"
    and cr: "createSession sha e t c (usr_id u) d = Inr (cs, d')" and pu: "omitPasswordHash u = pu"
    using assms(1) by (auto simp: login_def Let_def split: option.splits if_splits sum.splits)
  let ?s = "new_session sha e t c (usr_id u)"
  have d': "d' = d\<lparr>sessions := sessions d @ [?s]\<rparr>"
    using cr by (auto simp: createSession_def Let_def andThen_Inr_iff insert_session_def require_Inr_iff)
  have "session_live now ?s"
    using assms(3,4)
    by (simp add: session_live_def new_session_def timestamp_of_date_def session_constants)
  then have "find_session sha now t d' = Some (?s, u)"
    unfolding find_session_iff [OF db] using find_Some_in [OF u] by (simp add: d' new_session_def)
  moreover have "ses_csrfSecretHash ?s = sha c" by (simp add: new_session_def)
  ultimately show ?thesis using pu by blast
qed

text \<open>Outside production the login's cookies are those of its session, on every route.\<close>

lemma login_cookies_authenticate:
  assumes "reachable (ap_sha api) (ap_argon2 api) (sv_db s)"
    and "respond api ci rq (AuthCall (AuthLogin dto)) s = (Inr (LoggedIn u c), cookies, s1)"
    and "\<not> isProduction (ap_config api)"
    and "cfg_SESSION_COOKIE_NAME (ap_config api) \<noteq> cfg_CSRF_COOKIE_NAME (ap_config api)" and "ci_token ci \<noteq> []"
    and "rq_cookies rq2 = sent_cookies cookies" and "sv_db s2 = sv_db s1"
    and "env_date (ci_env ci) \<le> env_date (ci_env ci2)"
    and "env_date (ci_env ci2) < env_date (ci_env ci) + IDLE_TIMEOUT_MS"
  obtains sn us where "fst (authenticate api ci2 rq2 ep (sv_db s2)) = Inr (Some (sn, us))" and "omitPasswordHash us = u"
    and "ses_csrfSecretHash sn = ap_sha api (ci_csrfToken ci)"
proof -
  let ?d = "snd (authenticate api ci rq (AuthCall (AuthLogin dto)) (sv_db s))"
  obtain cs where l: "login (ap_argon2 api) (ap_sha api) (ci_env ci) (ci_token ci) (ci_csrfToken ci) dto ?d = (Inr (u, cs), sv_db s1)"
    using login_answer(2) [OF assms(2)] by blast
  have "db_ok ?d"
    using api_run_keeps [OF service_step_run [OF authenticate_step] reachable_ok [OF assms(1)]] api_okD(1) by blast
  from login_session_found [OF l this assms(8,9)] obtain sn us where
    f: "find_session (ap_sha api) (env_date (ci_env ci2)) (ci_token ci) (sv_db s2) = Some (sn, us)" "omitPasswordHash us = u"
      "ses_csrfSecretHash sn = ap_sha api (ci_csrfToken ci)"
    by (auto simp: assms(7))
  have "cookie_token rq2 (cfg_SESSION_COOKIE_NAME (ap_config api)) = Some (ci_token ci)"
    using login_answer(1) [OF assms(2)] assms(3-6)
    by (simp add: cookie_token_Some cookie_defs cookieNames_def resolveCookieNames_def)
  then have "fst (authenticate api ci2 rq2 ep (sv_db s2)) = Inr (Some (sn, us))"
    using f(1) by (auto simp: authenticate_def SessionAuthGuard_Some)
  with f(2,3) that show thesis by blast
qed

text \<open>C18. Outside production, the cookies of a login open the session of the user who logged in: for the
  next 30 minutes a request for the current user that sends them back is answered with that user.\<close>

theorem login_opens_session:
  assumes "reachable (ap_sha api) (ap_argon2 api) (sv_db s)"
    and "respond api ci rq (AuthCall (AuthLogin dto)) s = (Inr (LoggedIn u c), cookies, s1)"
    and "\<not> isProduction (ap_config api)"
    and "cfg_SESSION_COOKIE_NAME (ap_config api) \<noteq> cfg_CSRF_COOKIE_NAME (ap_config api)" and "ci_token ci \<noteq> []"
    and "rq_cookies rq2 = sent_cookies cookies" and "sv_db s2 = sv_db s1"
    and "env_date (ci_env ci) \<le> env_date (ci_env ci2)"
    and "env_date (ci_env ci2) < env_date (ci_env ci) + IDLE_TIMEOUT_MS"
  shows "fst (respond api ci2 rq2 (AuthCall AuthMe) s2) = Inr (CurrentUserBody u)"
proof -
  obtain sn us where "fst (authenticate api ci2 rq2 (AuthCall AuthMe) (sv_db s2)) = Inr (Some (sn, us))" "omitPasswordHash us = u"
    by (rule login_cookies_authenticate [OF assms])
  then show ?thesis
    by (cases rule: respond_cases [of api ci2 rq2 "AuthCall AuthMe" s2])
      (auto simp: route_with_def run_guard_def RateLimitGuard_def with_param_def CurrentUser_def)
qed

theorem login_opens_session_witness:
  "\<exists>u. fst (respond (sample_api Development) (sample_input 3)
      (sample_request ''GET'' [(''fulfillos.sid'', ''70''), (''fulfillos.csrf'', ''c5'')] [] [])
      (AuthCall AuthMe) (server_of db_logged_in)) = Inr (CurrentUserBody u)"
proof -
  let ?login = "respond (sample_api Development) (sample_input 1) register_request (AuthCall (AuthLogin sample_login))
    (server_of db_registered)"
  let ?u = "omitPasswordHash (hd (users db_registered))"
  have "fst ?login = Inr (LoggedIn ?u ''c5'')" by code_simp
  moreover have ck: "fst (snd ?login) = [setSessionCookie ''fulfillos.sid'' ''70'' False, setCsrfCookie ''fulfillos.csrf'' ''c5'' False]"
    by code_simp
  moreover have "sv_db (snd (snd ?login)) = db_logged_in" by code_simp
  ultimately have l: "?login = (Inr (LoggedIn ?u ''c5''), [setSessionCookie ''fulfillos.sid'' ''70'' False,
      setCsrfCookie ''fulfillos.csrf'' ''c5'' False], snd (snd ?login))" and d: "sv_db (snd (snd ?login)) = db_logged_in"
    by (simp_all add: prod_eq_iff)
  have "\<not> isProduction (ap_config (sample_api Development))" by code_simp
  moreover have "cfg_SESSION_COOKIE_NAME (ap_config (sample_api Development)) \<noteq> cfg_CSRF_COOKIE_NAME (ap_config (sample_api Development))"
    by code_simp
  moreover have "rq_cookies (sample_request ''GET'' [(''fulfillos.sid'', ''70''), (''fulfillos.csrf'', ''c5'')] [] []) =
      sent_cookies [setSessionCookie ''fulfillos.sid'' ''70'' False, setCsrfCookie ''fulfillos.csrf'' ''c5'' False]"
    by (auto simp: sample_request_def cookie_defs)
  ultimately show ?thesis
    using login_opens_session [OF _ l, of "sample_request ''GET'' [(''fulfillos.sid'', ''70''), (''fulfillos.csrf'', ''c5'')] [] []"
        "server_of db_logged_in" "sample_input 3"] reachable_http(1) d
    by (auto simp: sample_input_def http_env_def session_constants)
qed

text \<open>C27. In production a login opens nothing: the cookie it sets has the prefixed name and the guard looks
  for the configured one, so every route that is not public answers 401 to a request that sends the
  cookies of the login back, in whatever state the server is.\<close>

theorem production_login_unusable:
  assumes "respond api ci rq (AuthCall (AuthLogin dto)) s = (Inr (LoggedIn u c), cookies, s1)"
    and "isProduction (ap_config api)"
    and "cfg_SESSION_COOKIE_NAME (ap_config api) \<noteq> ''__Host-'' @ cfg_CSRF_COOKIE_NAME (ap_config api)"
    and "rq_cookies rq2 = sent_cookies cookies" and "\<not> rt_public (endpoint_route ep)"
  shows "fst (respond api ci2 rq2 ep s2) = Inl (http_error 401 ''Authentication required.'')"
proof -
  have "cookie_token rq2 (cfg_SESSION_COOKIE_NAME (ap_config api)) = None"
    using login_answer(1) [OF assms(1)] assms(2-4)
    by (simp add: cookie_token_def cookie_defs cookieNames_def resolveCookieNames_def)
  then have "fst (authenticate api ci2 rq2 ep (sv_db s2)) = Inl (http_error 401 ''Authentication required.'')"
    using assms(5) by (simp add: authenticate_def SessionAuthGuard_def)
  then show ?thesis by (cases rule: respond_cases [of api ci2 rq2 ep s2]) simp_all
qed

theorem production_login_unusable_witness:
  "fst (respond (sample_api Production) (sample_input 2)
      (sample_request ''GET'' [(''__Host-fulfillos.sid'', ''70''), (''__Host-fulfillos.csrf'', ''c5'')] [] [])
      (AuthCall AuthMe) (server_of db_logged_in)) = Inl (http_error 401 ''Authentication required.'')"
proof -
  let ?login = "respond (sample_api Production) (sample_input 1) register_request (AuthCall (AuthLogin sample_login))
    (server_of db_registered)"
  let ?cookies = "[setSessionCookie ''__Host-fulfillos.sid'' ''70'' True, setCsrfCookie ''__Host-fulfillos.csrf'' ''c5'' True]"
  let ?u = "omitPasswordHash (hd (users db_registered))"
  have "fst ?login = Inr (LoggedIn ?u ''c5'')" by code_simp
  moreover have "fst (snd ?login) = ?cookies" by code_simp
  ultimately have l: "?login = (Inr (LoggedIn ?u ''c5''), ?cookies, snd (snd ?login))" by (simp add: prod_eq_iff)
  have "isProduction (ap_config (sample_api Production))" by code_simp
  moreover have "cfg_SESSION_COOKIE_NAME (ap_config (sample_api Production)) \<noteq>
      ''__Host-'' @ cfg_CSRF_COOKIE_NAME (ap_config (sample_api Production))" by code_simp
  moreover have "rq_cookies (sample_request ''GET'' [(''__Host-fulfillos.sid'', ''70''), (''__Host-fulfillos.csrf'', ''c5'')] [] []) =
      sent_cookies ?cookies" by (auto simp: sample_request_def cookie_defs)
  moreover have "\<not> rt_public (endpoint_route (AuthCall AuthMe))" by code_simp
  ultimately show ?thesis by (rule production_login_unusable [OF l])
qed

end
