(* ===== verification/Session_Properties.thy ===== *)
theory Session_Properties
  imports Http_Samples
begin

text \<open>
  The properties of accounts and sessions: the windows in which a token is accepted, that a logout is
  final, that an active session stays open, what the CSRF check accepts, and registration and login.
\<close>

section \<open>Every service step is a step of the session service\<close>

lemma guarded_sessions:
  assumes "stock_state_ok d"
  shows "sessions (snd (adjustStock sha e g adto key d later)) = sessions d"
    and "sessions (snd (releaseReservation sha e g u oid key d later)) = sessions d"
    and "sessions (snd (fulfillOrder sha e g u oid key d later)) = sessions d"
    and "reservation_valid rdto \<Longrightarrow> sessions (snd (createReservation sha e g u rdto key d later)) = sessions d"
proof -
  show "sessions (snd (adjustStock sha e g adto key d later)) = sessions d"
    using adjust_operation.idempotent_keeps [OF TrueI assms] unfolding adjustStock_def by blast
  show "sessions (snd (releaseReservation sha e g u oid key d later)) = sessions d"
    using release_operation.idempotent_keeps [OF TrueI assms] unfolding releaseReservation_def by blast
  show "sessions (snd (fulfillOrder sha e g u oid key d later)) = sessions d"
    using fulfill_operation.idempotent_keeps [OF TrueI assms] unfolding fulfillOrder_def by blast
  assume v: "reservation_valid rdto"
  show "sessions (snd (createReservation sha e g u rdto key d later)) = sessions d"
  proof (cases rule: createReservation_cases [OF v, of sha e g u key d later])
    case 2
    then show ?thesis using reserve_operation.idempotent_keeps [OF conjI [OF v 2(1)] assms] by simp
  qed simp
qed

lemma api_step_session:
  assumes "api_step sha a d d'" and "api_ok d"
  shows "session_step sha d d'"
  using assms
proof (induction rule: api_step.induct)
  case (register d e dto)
  then show ?case using register_effect [of a e dto d] by (auto intro!: session_step.other)
next
  case (login d e t c ldto)
  then show ?case by (intro login_session_step)
next
  case (logout d now t)
  then show ?case unfolding logout_def by (intro session_step.revoke)
next
  case (rename d e g name)
  then show ?case
    by (intro session_step.other) (simp add: renameOrganization_def update_organizations_def)
next
  case (create_product pdto d e g)
  then show ?case
    using createProduct_effect [of e g pdto d]
    by (auto intro!: session_step.other dest!: create_product_body_Inr(1) simp: with_product_def)
next
  case (adjust d e g adto key later)
  then show ?case using guarded_sessions(1) api_okD(4) by (intro session_step.other) blast
next
  case (reserve rdto d e g u key later)
  then show ?case using guarded_sessions(4) api_okD(4) by (intro session_step.other) blast
next
  case (release d e g u oid key later)
  then show ?case using guarded_sessions(2) api_okD(4) by (intro session_step.other) blast
next
  case (fulfill d e g u oid key later)
  then show ?case using guarded_sessions(3) api_okD(4) by (intro session_step.other) blast
qed (intro session_step.intros)+

lemma api_run_session:
  assumes "api_run sha a d d'" and "api_ok d"
  shows "session_run sha d d'"
  using assms
proof (induction rule: api_run.induct)
  case (step_run d d1 d2)
  then have "api_ok d1" using api_run_keeps by blast
  with step_run show ?case by (auto intro: session_run.run_step api_step_session)
qed (rule session_run.run_refl)

section \<open>Windows\<close>

text \<open>C16. A token is accepted only within eight hours of the login that issued it and within thirty
  minutes of the recorded activity of its session.\<close>

theorem accepted_token_window:
  assumes "reachable h a d" and "fst (validateToken h now t d) = Some (s, u)"
  shows "timestamp_of_date now < ses_createdAt s + 1000 * ABSOLUTE_TIMEOUT_MS \<and>
    timestamp_of_date now < ses_lastActivityAt s + 1000 * IDLE_TIMEOUT_MS \<and> ses_revokedAt s = None"
proof -
  have ok: "api_ok d" using reachable_ok [OF assms(1)] .
  have "s \<in> set (sessions d)" "session_live now s"
    using assms(2) find_session_iff [OF api_okD(1) [OF ok]] by auto
  with api_okD(5) [OF ok] show ?thesis
    by (auto simp: sessions_windowed_def session_windows_def session_live_def)
qed

theorem accepted_token_window_witness:
  "timestamp_of_date 2000 < ses_createdAt owner_session + 1000 * ABSOLUTE_TIMEOUT_MS"
proof -
  have "fst (validateToken sample_sha 2000 ''70'' db_logged_in) = Some (owner_session, hd (users db_logged_in))" by code_simp
  from accepted_token_window [OF reachable_http(2) this] show ?thesis by blast
qed

text \<open>C17. A logout is final: whatever happens afterwards, at whatever time, the token of the session is never
  accepted again.\<close>

theorem logout_is_final:
  assumes "reachable h a d" and "\<exists>s \<in> set (sessions d). ses_tokenHash s = h t"
    and "api_run h a (logout h now t d) d'"
  shows "fst (validateToken h later t d') = None"
proof -
  have ok: "api_ok d" using reachable_ok [OF assms(1)] .
  have ok1: "api_ok (logout h now t d)" using api_step_keeps [OF api_step.logout ok] by blast
  have ok2: "api_ok d'" using api_run_keeps [OF assms(3) ok1] by blast
  obtain s where s: "s \<in> set (sessions d)" "ses_tokenHash s = h t" using assms(2) by blast
  define r where "r = (if ses_revokedAt s = None then s\<lparr>ses_revokedAt := Some (timestamp_of_date now)\<rparr> else s)"
  have r: "r \<in> set (sessions (logout h now t d))" "ses_tokenHash r = h t" "ses_revokedAt r \<noteq> None"
    using s by (auto simp: r_def logout_def revokeByToken_def update_sessions_def set_update_where)
  then have "session_kept r (logout h now t d)" by (auto simp: session_kept_def)
  then have "session_kept r d'" by (rule session_run_kept [OF api_run_session [OF assms(3) ok1]])
  then obtain r' where r': "r' \<in> set (sessions d')" "ses_tokenHash r' = h t" "ses_revokedAt r' \<noteq> None"
    using r by (auto simp: session_kept_def)
  have "\<not> session_live later x" if "x \<in> set (sessions d')" "ses_tokenHash x = h t" for x
  proof -
    have "distinct (map ses_tokenHash (sessions d'))"
      using db_okD(11) [OF api_okD(1) [OF ok2]] by (simp add: sessions_ok_def)
    from distinct_map_inj [OF this that(1) r'(1)] that(2) r' show ?thesis by (auto simp: session_live_def)
  qed
  then show ?thesis using find_session_None_iff [OF api_okD(1) [OF ok2]] by simp
qed

theorem logout_is_final_witness:
  "fst (validateToken sample_sha 3000 ''70'' (logout sample_sha 2000 ''70'' db_logged_in)) = None"
proof -
  have "\<exists>s \<in> set (sessions db_logged_in). ses_tokenHash s = sample_sha ''70''" by code_simp
  from logout_is_final [OF reachable_http(2) this done_run] show ?thesis .
qed

section \<open>Staying logged in\<close>

text \<open>A client that presents its token at the given times.\<close>

fun present_token :: "(string \<Rightarrow> string) \<Rightarrow> string \<Rightarrow> js_date list \<Rightarrow> db \<Rightarrow> bool list" where
  "present_token sha t [] d = []"
| "present_token sha t (now # later) d =
     (let (res, d') = validateToken sha now t d in (res \<noteq> None) # present_token sha t later d')"

text \<open>The times come in order, each at most \<open>gap\<close> after the one before.\<close>

fun paced :: "int \<Rightarrow> js_date \<Rightarrow> js_date list \<Rightarrow> bool" where
  "paced gap t0 [] = True"
| "paced gap t0 (t # ts) = (t0 \<le> t \<and> t \<le> t0 + gap \<and> paced gap t ts)"

lemma present_token_accepted:
  assumes "api_ok d" and "find_session sha now t d = Some (s, u)"
    and "paced (IDLE_TIMEOUT_MS - ACTIVITY_TOUCH_THROTTLE_MS) now ts"
    and "\<forall>x \<in> set ts. timestamp_of_date x < ses_absoluteExpiresAt s"
  shows "\<forall>b \<in> set (present_token sha t (now # ts) d). b"
  using assms
proof (induction ts arbitrary: d now s u)
  case Nil
  then show ?case by (simp add: validateToken_def)
next
  case (Cons x ts)
  let ?d' = "snd (validateToken sha now t d)"
  have v: "validateToken sha now t d = (Some (s, u), ?d')"
    using Cons.prems(2) by (simp add: validateToken_def)
  have ok': "api_ok ?d'" using api_step_keeps [OF api_step.validate Cons.prems(1)] by blast
  obtain s' where s': "s' \<in> set (sessions ?d')" "ses_tokenHash s' = sha t" "ses_revokedAt s' = None"
      "ses_absoluteExpiresAt s' = ses_absoluteExpiresAt s"
      "timestamp_of_date (now + IDLE_TIMEOUT_MS - ACTIVITY_TOUCH_THROTTLE_MS) < ses_idleExpiresAt s'"
    by (rule validate_extends [OF api_okD(1,5) [OF Cons.prems(1)] v])
  have "x \<le> now + IDLE_TIMEOUT_MS - ACTIVITY_TOUCH_THROTTLE_MS" using Cons.prems(3) by simp
  then have "session_live x s'"
    using s' Cons.prems(4) by (auto simp: session_live_def timestamp_of_date_def)
  moreover obtain u' where "u' \<in> set (users ?d')" "ses_userId s' = usr_id u'"
    using db_okD(11) [OF api_okD(1) [OF ok']] s'(1) by (auto simp: sessions_ok_def user_exists_def)
  ultimately have f': "find_session sha x t ?d' = Some (s', u')"
    unfolding find_session_iff [OF api_okD(1) [OF ok']] using s' by simp
  from Cons.IH [OF ok' f'] Cons.prems(3,4) s'(4) have "\<forall>b \<in> set (present_token sha t (x # ts) ?d'). b" by simp
  moreover have "present_token sha t (now # x # ts) d = True # present_token sha t (x # ts) ?d'"
    unfolding present_token.simps(2) [of sha t now] by (subst v) simp
  ultimately show ?case by simp
qed

text \<open>C30. A session in use stays open: a client whose token is accepted once and who presents it again
  and again, each time at most 29 minutes after the last and nothing else happening to the session, is
  accepted every time until the eight hours are over, although the activity time is written at most once
  a minute.\<close>

theorem active_session_stays_open:
  assumes "reachable h a d" and "fst (validateToken h now t d) = Some (s, u)"
    and "paced (IDLE_TIMEOUT_MS - ACTIVITY_TOUCH_THROTTLE_MS) now ts"
    and "\<forall>x \<in> set ts. timestamp_of_date x < ses_absoluteExpiresAt s"
  shows "present_token h t (now # ts) d = replicate (Suc (length ts)) True"
proof -
  have "find_session h now t d = Some (s, u)" using assms(2) by simp
  then have all: "\<forall>b \<in> set (present_token h t (now # ts) d). b"
    using reachable_ok [OF assms(1)] assms(3,4) by (intro present_token_accepted)
  have len: "length (present_token h t xs d) = length xs" for xs d
    by (induction xs arbitrary: d) (simp_all add: split_def)
  have "present_token h t (now # ts) d = replicate (length (now # ts)) True"
    using all len [of "now # ts" d] replicate_length_same [of "present_token h t (now # ts) d" True] by metis
  then show ?thesis by simp
qed

theorem active_session_stays_open_witness:
  "present_token sample_sha ''70'' [2000, 1700000, 3400000] db_logged_in = replicate 3 True"
proof -
  have v: "fst (validateToken sample_sha 2000 ''70'' db_logged_in) = Some (owner_session, hd (users db_logged_in))" by code_simp
  have "paced (IDLE_TIMEOUT_MS - ACTIVITY_TOUCH_THROTTLE_MS) 2000 [1700000, 3400000]" by code_simp
  moreover have "\<forall>x \<in> set [1700000, 3400000]. timestamp_of_date x < ses_absoluteExpiresAt owner_session" by code_simp
  ultimately show ?thesis
    using active_session_stays_open [OF reachable_http(2) v, of "[1700000, 3400000]"] by (simp add: numeral_3_eq_3)
qed

section \<open>The CSRF token\<close>

text \<open>What a SHA-256 digest looks like in hexadecimal.\<close>

definition hex_char :: "char \<Rightarrow> bool" where
  "hex_char c \<longleftrightarrow> c \<in> set ''0123456789abcdef''"

definition digest_text :: "string \<Rightarrow> bool" where
  "digest_text s \<longleftrightarrow> length s = 64 \<and> list_all hex_char s"

lemma hex_value_char: "hex_char c \<Longrightarrow> \<exists>v < 16. Sessions.hex_value c = Some v \<and> hex_digit v = c"
proof -
  have "list_all (\<lambda>c. case Sessions.hex_value c of None \<Rightarrow> False | Some v \<Rightarrow> v < 16 \<and> hex_digit v = c) ''0123456789abcdef''"
    by code_simp
  then show "hex_char c \<Longrightarrow> \<exists>v < 16. Sessions.hex_value c = Some v \<and> hex_digit v = c"
    by (auto simp: hex_char_def list_all_iff split: option.splits)
qed

lemma hex_char_digit: "n < 16 \<Longrightarrow> hex_char (hex_digit n)"
proof -
  have "list_all (\<lambda>n. hex_char (hex_digit n)) [0..<16]" by code_simp
  then show "n < 16 \<Longrightarrow> hex_char (hex_digit n)" by (simp add: list_all_iff)
qed

lemma hex_bytes_inj:
  "list_all hex_char a \<Longrightarrow> list_all hex_char b \<Longrightarrow> length a = length b \<Longrightarrow> even (length a) \<Longrightarrow>
   hex_bytes a = hex_bytes b \<Longrightarrow> a = b"
proof (induction a arbitrary: b rule: hex_bytes.induct)
  case (1 x y xs)
  from 1(4) obtain x' y' ys where b: "b = x' # y' # ys" by (cases b; cases "tl b") auto
  have c: "hex_char x" "hex_char y" "hex_char x'" "hex_char y'" using 1(2,3) by (simp_all add: b)
  from hex_value_char [OF c(1)] hex_value_char [OF c(2)] hex_value_char [OF c(3)] hex_value_char [OF c(4)]
  obtain v w v' w' where h: "v < 16" "w < 16" "v' < 16" "w' < 16"
    "Sessions.hex_value x = Some v" "Sessions.hex_value y = Some w" "Sessions.hex_value x' = Some v'" "Sessions.hex_value y' = Some w'"
    and inv: "hex_digit v = x" "hex_digit w = y" "hex_digit v' = x'" "hex_digit w' = y'" by blast
  have sum: "16 * v + w = 16 * v' + w'" and eq: "hex_bytes xs = hex_bytes ys" using 1(6) h(5-8) by (simp_all add: b)
  from sum have "(16 * v + w) mod 16 = (16 * v' + w') mod 16" by (rule arg_cong)
  with h(1-4) have "w = w'" by simp
  with sum have "v = v'" by simp
  with \<open>w = w'\<close> inv have "x = x'" "y = y'" by simp_all
  moreover have "xs = ys" using 1(1) [OF refl h(5,6)] 1(2-5) eq by (simp add: b)
  ultimately show ?case by (simp add: b)
qed auto

text \<open>After a rotation the CSRF check of the session accepts exactly the token that was issued (up to
  a collision of SHA-256): the candidate of a request passes if and only if its digest is the token's.\<close>

theorem rotated_token_only:
  assumes "\<forall>x. digest_text (h x)" and "r \<in> set (sessions (snd (rotateCsrfToken h c s d)))" and "ses_id r = ses_id s"
  shows "verifyCsrfToken h r x \<longleftrightarrow> h x = h c"
proof -
  have r: "ses_csrfSecretHash r = h c"
    using assms(2,3) by (auto simp: rotateCsrfToken_def update_sessions_def set_update_where split: if_splits)
  have "digest_text (h c)" "digest_text (h x)" using assms(1) by blast+
  then have "hex_bytes (h c) = hex_bytes (h x) \<Longrightarrow> h c = h x"
    by (intro hex_bytes_inj) (simp_all add: digest_text_def)
  then show ?thesis unfolding verifyCsrfToken_def r Let_def by metis
qed

definition sample_digest :: "string \<Rightarrow> string" where
  "sample_digest s = take 64 (concat (map (\<lambda>c. [hex_digit (of_char c div 16), hex_digit (of_char c mod 16)]) s) @ replicate 64 CHR ''0'')"

lemma sample_digest_text: "digest_text (sample_digest s)"
proof -
  have "(of_char c :: nat) < 256" for c :: char using of_char_of [of "of_char c :: nat"] by (simp add: take_bit_eq_mod)
  then have "(of_char c :: nat) div 16 < 16" for c :: char by (simp add: less_mult_imp_div_less)
  then have "list_all hex_char (concat (map (\<lambda>c. [hex_digit (of_char c div 16), hex_digit (of_char c mod 16)]) s))"
    by (induction s) (simp_all add: hex_char_digit)
  moreover have "hex_char CHR ''0''" by code_simp
  ultimately show ?thesis
    unfolding digest_text_def sample_digest_def
    by (auto simp: list_all_iff dest!: in_set_takeD)
qed

theorem rotated_token_only_witness:
  "verifyCsrfToken sample_digest (hd (sessions (snd (rotateCsrfToken sample_digest ''n1'' owner_session db_logged_in)))) ''n1''"
proof -
  have "hd (sessions (snd (rotateCsrfToken sample_digest ''n1'' owner_session db_logged_in))) \<in>
      set (sessions (snd (rotateCsrfToken sample_digest ''n1'' owner_session db_logged_in)))" by code_simp
  moreover have "ses_id (hd (sessions (snd (rotateCsrfToken sample_digest ''n1'' owner_session db_logged_in)))) =
      ses_id owner_session" by code_simp
  ultimately show ?thesis
    using rotated_token_only [of sample_digest _ "''n1''" owner_session db_logged_in "''n1''"] sample_digest_text by blast
qed

section \<open>Registration and login\<close>

lemma js_space_lower: "js_space (ascii_lower c) = js_space c"
proof (cases "65 \<le> (of_char c :: nat) \<and> (of_char c :: nat) \<le> 90")
  case True
  then have "of_char (char_of ((of_char c :: nat) + 32) :: char) = (of_char c :: nat) + 32"
    by (simp add: take_bit_eq_mod)
  with True show ?thesis by (simp add: ascii_lower_def js_space_def)
qed (auto simp: ascii_lower_def)

lemma trims_without_space:
  assumes "list_all (\<lambda>c. \<not> js_space c) s"
  shows "js_trim s = s" and "btrim s = s"
proof -
  have keep: "dropWhile P xs = xs" if "\<forall>x \<in> set xs. \<not> P x" for P and xs :: string
    using that by (cases xs) auto
  have "\<forall>x \<in> set s. \<not> js_space x" using assms by (simp add: list_all_iff)
  moreover have "js_space CHR '' ''" by code_simp
  then have "\<forall>x \<in> set s. x \<noteq> CHR '' ''" using calculation by blast
  ultimately show "js_trim s = s" "btrim s = s" by (simp_all add: js_trim_def btrim_def Let_def keep)
qed

text \<open>C37. Whoever registers can log in: with the registered password and the e-mail address in any case of
  its letters, the login answers the user that registration returned, who is the owner of the
  organization it created.\<close>

theorem register_then_login:
  assumes "reachable h a d" and "fst (register a e dto d) = Inr (pu, g)"
    and "\<forall>p. argon2_verify a (argon2_hash a p) p = Some True"
    and "list_all (\<lambda>c. \<not> js_space c) (rg_email dto)" and "lower (lg_email l) = lower (rg_email dto)"
    and "lg_password l = rg_password dto"
    and "new_uuid e2 0 \<notin> ses_id ` set (sessions d)" and "h t \<notin> ses_tokenHash ` set (sessions d)"
  shows "\<exists>cs m. fst (login a h e2 t c l (snd (register a e dto d))) = Inr (pu, cs) \<and>
    getMembership (snd (register a e dto d)) (pu_id pu) g = Some m \<and> mem_role m = Owner"
proof -
  let ?d = "snd (register a e dto d)"
  from assms(2) obtain ph where ph: "password_hash a (rg_password dto) = Inr ph"
    and b: "register_body e dto ph d = Inr ((pu, g), ?d)"
    by (auto simp: register_cases split: sum.splits if_splits)
  note d' = register_body_Inr [OF b]
  have db: "db_ok ?d" using register_ok api_okD(1) [OF reachable_ok [OF assms(1)]] by blast
  let ?u = "new_user e dto ph"
  have lows: "list_all (\<lambda>c. \<not> js_space c) (lower (rg_email dto))"
    using assms(4) by (simp add: lower_def list_all_iff js_space_lower)
  have key: "js_trim (lower (lg_email l)) = usr_emailNormalized ?u"
    using trims_without_space(1) [OF lows] trims_without_space(2) [OF assms(4)]
    by (simp add: assms(5) new_user_def email_normalized_def)
  have "distinct (map usr_emailNormalized (users ?d))" using db_okD(2) [OF db] by (simp add: users_ok_def)
  moreover have mem: "?u \<in> set (users ?d)" by (simp add: d'(1))
  ultimately have u: "find (\<lambda>u. usr_emailNormalized u = js_trim (lower (lg_email l))) (users ?d) = Some ?u"
    unfolding key by (rule find_distinct)
  have "password_verify a ph (rg_password dto)"
    using ph assms(3) by (auto simp: password_hash_def password_verify_def Let_def split: if_splits)
  moreover have "createSession h e2 t c (usr_id ?u) ?d =
      Inr (\<lparr>crs_session = new_session h e2 t c (usr_id ?u), crs_token = t, crs_csrfToken = c\<rparr>,
        ?d\<lparr>sessions := sessions ?d @ [new_session h e2 t c (usr_id ?u)]\<rparr>)"
    using assms(7,8) mem
    by (auto simp: createSession_def Let_def insert_session_def require.simps new_session_def user_exists_def d'(1))
  ultimately have "fst (login a h e2 t c l ?d) = Inr (pu, \<lparr>crs_session = new_session h e2 t c (usr_id ?u), crs_token = t, crs_csrfToken = c\<rparr>)"
    using u d'(2) by (simp add: login_def Let_def assms(6)) (simp add: new_user_def)
  moreover have "getMembership ?d (pu_id pu) g = Some (owner_membership e)"
    unfolding getMembership_iff [OF db]
    using d'(2) by (simp add: d'(1) owner_membership_def omitPasswordHash_def new_user_def)
  ultimately show ?thesis by (auto simp: owner_membership_def)
qed

theorem register_then_login_witness:
  "\<exists>cs. fst (login sample_argon2 sample_sha (http_env 1) ''70'' ''c5'' sample_login
     (snd (register sample_argon2 (http_env 0) sample_register empty_db))) =
     Inr (omitPasswordHash (hd (users db_registered)), cs)"
proof -
  have "reachable sample_sha sample_argon2 empty_db" by (simp add: reachable_def done_run)
  moreover have "fst (register sample_argon2 (http_env 0) sample_register empty_db) =
      Inr (omitPasswordHash (hd (users db_registered)), http_org)" by code_simp
  moreover have "\<forall>p. argon2_verify sample_argon2 (argon2_hash sample_argon2 p) p = Some True" by (simp add: sample_argon2_def)
  moreover have "list_all (\<lambda>c. \<not> js_space c) (rg_email sample_register)" by code_simp
  moreover have "lower (lg_email sample_login) = lower (rg_email sample_register)" by code_simp
  moreover have "lg_password sample_login = rg_password sample_register" by code_simp
  moreover have "new_uuid (http_env 1) 0 \<notin> ses_id ` set (sessions empty_db)" by code_simp
  moreover have "sample_sha ''70'' \<notin> ses_tokenHash ` set (sessions empty_db)" by code_simp
  ultimately show ?thesis using register_then_login by blast
qed

text \<open>An address that is already registered, in whatever case of its letters and with whatever blanks
  around it, cannot be registered again: the answer is 409 and nothing is stored, not even the
  organization.\<close>

theorem register_taken_rejected:
  assumes "register_valid is_email dto"
    and "email_normalized (rg_email dto) \<in> usr_emailNormalized ` set (users d)"
  shows "register a e dto d = (Inl email_conflict, d)"
proof -
  let ?h = "argon2_hash a (rg_password dto)"
  have "\<exists>c. register_body e dto ?h d = Inl (unique_violation c)"
    using assms(2)
    by (auto simp: register_body_def Let_def insert_organization_def insert_user_def require.simps new_user_def)
  then show ?thesis
    by (auto simp: register_cases valid_password_hashes [OF assms(1)])
qed

theorem register_taken_rejected_witness:
  "register sample_argon2 (http_env 1) (sample_register\<lparr>rg_email := '' O@X''\<rparr>) db_registered = (Inl email_conflict, db_registered)"
proof -
  have "register_valid (\<lambda>s. True) (sample_register\<lparr>rg_email := '' O@X''\<rparr>)" by code_simp
  moreover have "email_normalized (rg_email (sample_register\<lparr>rg_email := '' O@X''\<rparr>)) \<in> usr_emailNormalized ` set (users db_registered)"
    by code_simp
  ultimately show ?thesis by (rule register_taken_rejected)
qed

end
