(* ===== verification/Rate_Limits.thy ===== *)
theory Rate_Limits
  imports Http_Samples
begin

text \<open>
  The fixed windows of \<open>RateLimitGuard\<close>.  \<open>redis_laws\<close> states what the Redis documentation says of INCR
  and EXPIRE in terms of the entry of a key, its count and its deadline; \<open>redis_samples\<close> shows that a
  store can satisfy it.
\<close>

section \<open>The two commands\<close>

definition live_entry :: "js_date \<Rightarrow> (int \<times> js_date option) option \<Rightarrow> (int \<times> js_date option) option" where
  "live_entry now e =
     (case e of
        Some (n, Some t) \<Rightarrow> if now < t then Some (n, Some t) else None
      | v \<Rightarrow> v)"

text \<open>
  INCR counts on from the live entry and keeps its deadline, and starts a missing or expired one at 1
  without a deadline; EXPIRE sets the deadline of a live entry; neither touches another key.
\<close>

definition redis_laws :: "'r redis_commands \<Rightarrow> ('r \<Rightarrow> string \<Rightarrow> (int \<times> js_date option) option) \<Rightarrow> bool" where
  "redis_laws redis entry \<longleftrightarrow>
     (\<forall>now k r. case live_entry now (entry r k) of
        None \<Rightarrow> fst (redis_incr redis now k r) = 1 \<and>
          entry (snd (redis_incr redis now k r)) = (entry r)(k \<mapsto> (1, None))
      | Some (n, t) \<Rightarrow> fst (redis_incr redis now k r) = n + 1 \<and>
          entry (snd (redis_incr redis now k r)) = (entry r)(k \<mapsto> (n + 1, t))) \<and>
     (\<forall>now k secs r. entry (redis_expire redis now k secs r) =
        (case live_entry now (entry r k) of
           None \<Rightarrow> entry r
         | Some (n, t) \<Rightarrow> (entry r)(k \<mapsto> (n, Some (now + 1000 * secs)))))"

lemma redis_samples: "redis_laws sample_redis (\<lambda>r. r)"
  by (auto simp: redis_laws_def sample_redis_def redis_live_def live_entry_def split: option.splits)

lemma redis_incr_laws:
  assumes "redis_laws redis entry"
  shows "live_entry now (entry r k) = None \<Longrightarrow> fst (redis_incr redis now k r) = 1"
    and "live_entry now (entry r k) = None \<Longrightarrow> entry (snd (redis_incr redis now k r)) = (entry r)(k \<mapsto> (1, None))"
    and "live_entry now (entry r k) = Some (n, t) \<Longrightarrow> fst (redis_incr redis now k r) = n + 1"
    and "live_entry now (entry r k) = Some (n, t) \<Longrightarrow> entry (snd (redis_incr redis now k r)) = (entry r)(k \<mapsto> (n + 1, t))"
    and "k' \<noteq> k \<Longrightarrow> entry (snd (redis_incr redis now k r)) k' = entry r k'"
    and "k' \<noteq> k \<Longrightarrow> entry (redis_expire redis now k secs r) k' = entry r k'"
    and "entry r k = Some (n, None) \<Longrightarrow> entry (redis_expire redis now k secs r) k = Some (n, Some (now + 1000 * secs))"
proof -
  have i: "case live_entry now (entry r k) of
      None \<Rightarrow> fst (redis_incr redis now k r) = 1 \<and> entry (snd (redis_incr redis now k r)) = (entry r)(k \<mapsto> (1, None))
    | Some (n, t) \<Rightarrow> fst (redis_incr redis now k r) = n + 1 \<and>
        entry (snd (redis_incr redis now k r)) = (entry r)(k \<mapsto> (n + 1, t))"
    and e: "entry (redis_expire redis now k secs r) =
      (case live_entry now (entry r k) of
         None \<Rightarrow> entry r | Some (n, t) \<Rightarrow> (entry r)(k \<mapsto> (n, Some (now + 1000 * secs))))"
    using assms unfolding redis_laws_def by blast+
  show "live_entry now (entry r k) = None \<Longrightarrow> fst (redis_incr redis now k r) = 1"
    "live_entry now (entry r k) = None \<Longrightarrow> entry (snd (redis_incr redis now k r)) = (entry r)(k \<mapsto> (1, None))"
    "live_entry now (entry r k) = Some (n, t) \<Longrightarrow> fst (redis_incr redis now k r) = n + 1"
    "live_entry now (entry r k) = Some (n, t) \<Longrightarrow> entry (snd (redis_incr redis now k r)) = (entry r)(k \<mapsto> (n + 1, t))"
    "k' \<noteq> k \<Longrightarrow> entry (snd (redis_incr redis now k r)) k' = entry r k'"
    using i by (auto split: option.splits)
  show "k' \<noteq> k \<Longrightarrow> entry (redis_expire redis now k secs r) k' = entry r k'"
    "entry r k = Some (n, None) \<Longrightarrow> entry (redis_expire redis now k secs r) k = Some (n, Some (now + 1000 * secs))"
    using e by (auto simp: live_entry_def split: option.splits)
qed

section \<open>Traffic on a route\<close>

text \<open>The guard's answers to the requests with key \<open>k\<close>, in a traffic with other clients' between them.\<close>

fun answers ::
  "'r redis_commands \<Rightarrow> rate_limit \<Rightarrow> string option \<Rightarrow> string \<Rightarrow> (js_date \<times> http_request) list \<Rightarrow> 'r \<Rightarrow>
     (exn + unit) list" where
  "answers redis opts path k [] r = []"
| "answers redis opts path k ((now, rq) # rqs) r =
     (let (res, r') = RateLimitGuard redis (Some opts) path now rq r
      in (if rate_limit_key rq path = k then [res] else []) @ answers redis opts path k rqs r')"

definition too_many_requests :: exn where
  "too_many_requests = http_error 429 ''Too many requests. Please try again later.''"

text \<open>Of \<open>m\<close> requests the first \<open>n\<close> pass and the others are refused.\<close>

definition limited :: "nat \<Rightarrow> nat \<Rightarrow> (exn + unit) list" where
  "limited n m = replicate (min m n) (Inr ()) @ replicate (m - n) (Inl too_many_requests)"

lemma limited_simps [simp]:
  "limited n 0 = []" "limited 0 (Suc m) = Inl too_many_requests # limited 0 m"
  "limited (Suc n) (Suc m) = Inr () # limited n m"
  by (simp_all add: limited_def)

definition requests_of :: "string option \<Rightarrow> string \<Rightarrow> (js_date \<times> http_request) list \<Rightarrow> nat" where
  "requests_of path k rqs = length (filter (\<lambda>(now, rq). rate_limit_key rq path = k) rqs)"

lemma guard_other:
  assumes "redis_laws redis entry" and "rate_limit_key rq path \<noteq> k"
  shows "entry (snd (RateLimitGuard redis (Some opts) path now rq r)) k = entry r k"
  using redis_incr_laws(5,6) [OF assms(1), of k "rate_limit_key rq path"] assms(2)
  by (simp add: RateLimitGuard_def Let_def split_def)

lemma guard_counted:
  assumes "redis_laws redis entry" and "rate_limit_key rq path = k"
    and "live_entry now (entry r k) = Some (n, t)" and "0 < n"
  shows "fst (RateLimitGuard redis (Some opts) path now rq r) =
      (if n + 1 \<le> rl_limit opts then Inr () else Inl too_many_requests)"
    and "entry (snd (RateLimitGuard redis (Some opts) path now rq r)) k = Some (n + 1, t)"
  using redis_incr_laws(3,4) [OF assms(1,3)] assms(2,4)
  by (auto simp: RateLimitGuard_def Let_def split_def too_many_requests_def)

lemma guard_first:
  assumes "redis_laws redis entry" and "rate_limit_key rq path = k" and "live_entry now (entry r k) = None"
  shows "fst (RateLimitGuard redis (Some opts) path now rq r) =
      (if 1 \<le> rl_limit opts then Inr () else Inl too_many_requests)"
    and "entry (snd (RateLimitGuard redis (Some opts) path now rq r)) k =
      Some (1, Some (now + 1000 * rl_windowSeconds opts))"
proof -
  note i = redis_incr_laws(1,2) [OF assms(1,3)]
  have "entry (redis_expire redis now k (rl_windowSeconds opts) (snd (redis_incr redis now k r))) k =
      Some (1, Some (now + 1000 * rl_windowSeconds opts))"
    by (rule redis_incr_laws(7) [OF assms(1)]) (simp add: i(2))
  then show "fst (RateLimitGuard redis (Some opts) path now rq r) =
      (if 1 \<le> rl_limit opts then Inr () else Inl too_many_requests)"
    and "entry (snd (RateLimitGuard redis (Some opts) path now rq r)) k =
      Some (1, Some (now + 1000 * rl_windowSeconds opts))"
    using i(1) assms(2) by (auto simp: RateLimitGuard_def Let_def split_def too_many_requests_def)
qed

lemma answers_in_window:
  assumes "redis_laws redis entry" and "entry r k = Some (n, Some deadline)" and "0 < n"
    and "\<forall>(now, rq) \<in> set rqs. now < deadline"
  shows "answers redis opts path k rqs r = limited (nat (rl_limit opts - n)) (requests_of path k rqs)"
  using assms(2-4)
proof (induction rqs arbitrary: r n)
  case Nil
  then show ?case by (simp add: requests_of_def)
next
  case (Cons x rqs)
  obtain now rq where x: "x = (now, rq)" by fastforce
  obtain res r' where g: "RateLimitGuard redis (Some opts) path now rq r = (res, r')" by fastforce
  have rest: "\<forall>(now, rq) \<in> set rqs. now < deadline" using Cons.prems(3) by simp
  show ?case
  proof (cases "rate_limit_key rq path = k")
    case True
    have live: "live_entry now (entry r k) = Some (n, Some deadline)"
      using Cons.prems(1,3) by (simp add: x live_entry_def)
    note c = guard_counted [OF assms(1) True live Cons.prems(2), of opts, unfolded g fst_conv snd_conv]
    have later: "answers redis opts path k rqs r' = limited (nat (rl_limit opts - (n + 1))) (requests_of path k rqs)"
      using Cons.IH [OF c(2)] Cons.prems(2) rest by simp
    have split: "nat (rl_limit opts - n) =
        (if n + 1 \<le> rl_limit opts then Suc (nat (rl_limit opts - (n + 1))) else 0)" by auto
    show ?thesis using c(1) True later by (simp add: x g requests_of_def split)
  next
    case False
    have "entry r' k = Some (n, Some deadline)"
      using guard_other [OF assms(1) False, of opts now r] Cons.prems(1) by (simp add: g)
    from Cons.IH [OF this Cons.prems(2) rest] False show ?thesis by (simp add: x g requests_of_def)
  qed
qed

text \<open>C36. A limited route lets at most its limit of requests of a client through in a window: of the requests
  from the first one on and for the seconds of the window, mixed with those of other clients, exactly
  the first ones up to the limit pass, and every later one is answered with 429.\<close>

theorem rate_limit_window:
  assumes "redis_laws redis entry" and "live_entry t0 (entry r (rate_limit_key rq0 path)) = None"
    and "1 \<le> rl_limit opts"
    and "\<forall>(now, rq) \<in> set rqs. now < t0 + 1000 * rl_windowSeconds opts"
  defines "m \<equiv> Suc (requests_of path (rate_limit_key rq0 path) rqs)" and "n \<equiv> nat (rl_limit opts)"
  shows "answers redis opts path (rate_limit_key rq0 path) ((t0, rq0) # rqs) r =
    replicate (min m n) (Inr ()) @
    replicate (m - n) (Inl (http_error 429 ''Too many requests. Please try again later.''))"
proof -
  obtain res r' where g: "RateLimitGuard redis (Some opts) path t0 rq0 r = (res, r')" by fastforce
  note c = guard_first [OF assms(1) refl assms(2), of opts, unfolded g fst_conv snd_conv]
  have "answers redis opts path (rate_limit_key rq0 path) rqs r' =
      limited (nat (rl_limit opts - 1)) (requests_of path (rate_limit_key rq0 path) rqs)"
    using answers_in_window [OF assms(1) c(2)] assms(4) by simp
  moreover have "n = Suc (nat (rl_limit opts - 1))" using assms(3) by (simp add: n_def)
  ultimately have "answers redis opts path (rate_limit_key rq0 path) ((t0, rq0) # rqs) r = limited n m"
    using c(1) assms(3) by (simp add: g m_def)
  then show ?thesis by (simp add: limited_def too_many_requests_def)
qed

definition login_limit :: rate_limit where
  "login_limit = \<lparr>rl_limit = 10, rl_windowSeconds = 15 * 60\<rparr>"

theorem rate_limit_window_witness:
  "rt_rateLimit (auth_route (AuthLogin sample_login)) = Some login_limit \<and>
   answers sample_redis login_limit None (rate_limit_key register_request None)
     ((0, register_request) # replicate 12 (1000, register_request)) (\<lambda>k. None) =
     replicate 10 (Inr ()) @ replicate 3 (Inl (http_error 429 ''Too many requests. Please try again later.''))"
proof
  show "rt_rateLimit (auth_route (AuthLogin sample_login)) = Some login_limit" by code_simp
  have "requests_of None (rate_limit_key register_request None) (replicate 12 (1000, register_request)) = 12"
    by (simp add: requests_of_def)
  then show "answers sample_redis login_limit None (rate_limit_key register_request None)
      ((0, register_request) # replicate 12 (1000, register_request)) (\<lambda>k. None) =
      replicate 10 (Inr ()) @ replicate 3 (Inl (http_error 429 ''Too many requests. Please try again later.''))"
    using rate_limit_window [OF redis_samples, of 0 "\<lambda>k. None" register_request None login_limit
        "replicate 12 (1000, register_request)"]
    by (simp add: live_entry_def login_limit_def del: answers.simps replicate.simps)
qed

text \<open>INCR and EXPIRE are two commands: a counter whose EXPIRE never ran (the process stopped, or the
  connection broke, in between) has no deadline, and once it has reached the limit the client is
  refused on that route for good.\<close>

theorem counter_without_deadline_blocks:
  assumes "redis_laws redis entry" and "entry r k = Some (n, None)" and "0 < n" and "rl_limit opts \<le> n"
  shows "answers redis opts path k rqs r = replicate (requests_of path k rqs) (Inl too_many_requests)"
  using assms(2-4)
proof (induction rqs arbitrary: r n)
  case (Cons x rqs)
  obtain now rq where x: "x = (now, rq)" by fastforce
  obtain res r' where g: "RateLimitGuard redis (Some opts) path now rq r = (res, r')" by fastforce
  show ?case
  proof (cases "rate_limit_key rq path = k")
    case True
    have live: "live_entry now (entry r k) = Some (n, None)" using Cons.prems(1) by (simp add: live_entry_def)
    note c = guard_counted [OF assms(1) True live Cons.prems(2), of opts, unfolded g fst_conv snd_conv]
    from Cons.IH [OF c(2)] Cons.prems(2,3) c(1) True show ?thesis by (simp add: x g requests_of_def)
  next
    case False
    have "entry r' k = Some (n, None)"
      using guard_other [OF assms(1) False, of opts now r] Cons.prems(1) by (simp add: g)
    from Cons.IH [OF this Cons.prems(2,3)] False show ?thesis by (simp add: x g requests_of_def)
  qed
qed (simp add: requests_of_def)

theorem counter_without_deadline_blocks_witness:
  "answers sample_redis login_limit None (rate_limit_key register_request None) [(10 ^ 12, register_request)]
     (\<lambda>k. Some (10, None)) = [Inl too_many_requests]"
  using counter_without_deadline_blocks [OF redis_samples, where n = 10 and opts = login_limit
      and r = "\<lambda>k. Some (10, None)" and k = "rate_limit_key register_request None" and path = None
      and rqs = "[(10 ^ 12, register_request)]"]
  by (simp add: login_limit_def requests_of_def del: answers.simps)

end
