(* ===== verification/Test_Database.thy ===== *)
theory Test_Database
  imports Outcomes "HOL-Library.Sublist"
begin

text \<open>
  The guard of the destructive test scripts (\<open>scripts/lib/test-database-url.ts\<close>) and the redaction of
  connection strings (\<open>scripts/migrate.ts\<close>, \<open>scripts/migrate-test.ts\<close>).  The URL parser of the runtime
  is the parameter \<open>parse\<close>, \<open>None\<close> where it throws.
\<close>

record url_parts =
  url_protocol :: string
  url_username :: string
  url_password :: string
  url_hostname :: string
  url_port :: string
  url_pathname :: string

section \<open>Addresses\<close>

definition KNOWN_NON_TEST_DATABASE_NAMES :: "string list" where
  "KNOWN_NON_TEST_DATABASE_NAMES = [''fulfillos'', ''postgres'', ''template0'', ''template1'']"

definition port_or_default :: "url_parts \<Rightarrow> string" where
  "port_or_default u = (if url_port u = [] then ''5432'' else url_port u)"

definition sameDatabaseTarget :: "(string \<Rightarrow> url_parts option) \<Rightarrow> string \<Rightarrow> string \<Rightarrow> bool" where
  "sameDatabaseTarget parse a b =
     (case (parse a, parse b) of
        (Some ua, Some ub) \<Rightarrow>
          lower (url_hostname ua) = lower (url_hostname ub) \<and> port_or_default ua = port_or_default ub \<and>
          url_pathname ua = url_pathname ub
      | _ \<Rightarrow> a = b)"

definition extractDatabaseName :: "(string \<Rightarrow> url_parts option) \<Rightarrow> string \<Rightarrow> exn + string" where
  "extractDatabaseName parse connectionString =
     (case parse connectionString of
        None \<Rightarrow> Inl (TypeError ''Invalid URL'')
      | Some u \<Rightarrow>
          Inr (case url_pathname u of [] \<Rightarrow> [] | c # cs \<Rightarrow> if c = CHR ''/'' then cs else c # cs))"

text \<open>\<open>s.includes(t)\<close>\<close>

fun js_includes :: "string \<Rightarrow> string \<Rightarrow> bool" where
  "js_includes t [] = (t = [])"
| "js_includes t (c # cs) = (take (length t) (c # cs) = t \<or> js_includes t cs)"

section \<open>Resolving the URL\<close>

record process_env =
  pe_NODE_ENV :: "string option"
  pe_DATABASE_URL_TEST :: "string option"

definition resolveTestDatabaseUrl ::
  "(string \<Rightarrow> url_parts option) \<Rightarrow> string option \<Rightarrow> process_env \<Rightarrow> exn + string" where
  "resolveTestDatabaseUrl parse ORIGINAL_DATABASE_URL env =
     (if pe_NODE_ENV env = Some ''production'' then
        Inl (PlainError ''Refusing to resolve a test database URL with NODE_ENV=production. Test scripts and integration/security test suites must never run against a production environment.'')
      else case pe_DATABASE_URL_TEST env of
        None \<Rightarrow> Inl (PlainError ''DATABASE_URL_TEST must be set to run integration tests or migrate the test database. Refusing to fall back to DATABASE_URL.'')
      | Some testUrl \<Rightarrow>
          if testUrl = [] then
            Inl (PlainError ''DATABASE_URL_TEST must be set to run integration tests or migrate the test database. Refusing to fall back to DATABASE_URL.'')
          else if (case ORIGINAL_DATABASE_URL of None \<Rightarrow> False
                   | Some original \<Rightarrow> original \<noteq> [] \<and> sameDatabaseTarget parse testUrl original) then
            Inl (PlainError ''DATABASE_URL_TEST resolves to the same host/port/database as DATABASE_URL -- integration tests would run destructive operations against the development database.'')
          else (case extractDatabaseName parse testUrl of
              Inl _ \<Rightarrow> Inl (PlainError ''DATABASE_URL_TEST is not a valid connection string.'')
            | Inr databaseName \<Rightarrow>
                if \<not> js_includes ''test'' (lower databaseName) then
                  Inl (PlainError (''Refusing to run integration tests against database \"'' @ databaseName @ ''\": its name must contain \"test\", as a defense-in-depth check against a misconfigured DATABASE_URL_TEST accidentally pointing at a non-test database.''))
                else if lower databaseName \<in> set KNOWN_NON_TEST_DATABASE_NAMES then
                  Inl (PlainError (''Refusing to run integration tests against database \"'' @ databaseName @ ''\": it is a known non-test database name for this project.''))
                else Inr testUrl))"

text \<open>
  The live check; \<open>current_database\<close> is what the connected server answers, \<open>None\<close> for no row.
\<close>

definition assertConnectedToTestDatabase ::
  "(string \<Rightarrow> url_parts option) \<Rightarrow> string option \<Rightarrow> string \<Rightarrow> exn + unit" where
  "assertConnectedToTestDatabase parse current_database expectedConnectionString =
     andThen (extractDatabaseName parse expectedConnectionString) (\<lambda>expectedName.
       (case current_database of
          None \<Rightarrow> Inl (PlainError (''Refusing to proceed: connected to database \"undefined\", but expected \"'' @ expectedName @ ''\" (from DATABASE_URL_TEST). This connection will not be used for any destructive operation.''))
        | Some actualName \<Rightarrow>
            if actualName \<noteq> expectedName then
              Inl (PlainError (''Refusing to proceed: connected to database \"'' @ actualName @ ''\", but expected \"'' @ expectedName @ ''\" (from DATABASE_URL_TEST). This connection will not be used for any destructive operation.''))
            else if \<not> js_includes ''test'' (lower actualName) then
              Inl (PlainError (''Refusing to proceed: connected database \"'' @ actualName @ ''\" does not contain \"test\" in its name.''))
            else if lower actualName \<in> set KNOWN_NON_TEST_DATABASE_NAMES then
              Inl (PlainError (''Refusing to proceed: connected database \"'' @ actualName @ ''\" is a known non-test database name.''))
            else Inr ()))"

section \<open>Redaction\<close>

definition redactConnectionString :: "(string \<Rightarrow> url_parts option) \<Rightarrow> string \<Rightarrow> string" where
  "redactConnectionString parse url =
     (case parse url of
        None \<Rightarrow> ''(unparseable connection string)''
      | Some u \<Rightarrow> url_protocol u @ ''//'' @ url_hostname u @ '':'' @ port_or_default u @ url_pathname u)"

section \<open>Facts\<close>

lemma known_names_no_test: "n \<in> set KNOWN_NON_TEST_DATABASE_NAMES \<Longrightarrow> \<not> js_includes ''test'' n"
proof -
  have "list_all (\<lambda>n. \<not> js_includes ''test'' n) KNOWN_NON_TEST_DATABASE_NAMES" by code_simp
  then show "n \<in> set KNOWN_NON_TEST_DATABASE_NAMES \<Longrightarrow> \<not> js_includes ''test'' n" by (simp add: list_all_iff)
qed

lemma includes_sublist: "js_includes t s \<longleftrightarrow> sublist t s"
proof (induction t s rule: js_includes.induct)
  case (2 t c cs)
  have "take (length t) (c # cs) = t \<longleftrightarrow> prefix t (c # cs)"
    by (metis append_eq_conv_conj append_take_drop_id prefix_def)
  with 2 show ?case by (simp add: sublist_Cons_right)
qed simp

text \<open>The test scripts get a URL only outside production, only the one set for tests, only for a database
  whose name says it is a test database, and never one that addresses the database of \<open>DATABASE_URL\<close>.\<close>

theorem resolved_url_is_for_tests:
  assumes "resolveTestDatabaseUrl parse original env = Inr url"
  shows "pe_NODE_ENV env \<noteq> Some ''production'' \<and> pe_DATABASE_URL_TEST env = Some url \<and>
    (\<exists>name. extractDatabaseName parse url = Inr name \<and> sublist ''test'' (lower name) \<and>
      lower name \<notin> {''fulfillos'', ''postgres'', ''template0'', ''template1''}) \<and>
    (\<forall>o'. original = Some o' \<longrightarrow> o' = [] \<or> \<not> sameDatabaseTarget parse url o')"
  using assms
  by (auto simp: resolveTestDatabaseUrl_def includes_sublist KNOWN_NON_TEST_DATABASE_NAMES_def
      split: if_splits option.splits sum.splits)

definition sample_url :: "string \<Rightarrow> url_parts option" where
  "sample_url s = Some \<lparr>url_protocol = ''postgres:'', url_username = ''u'', url_password = ''p'',
     url_hostname = ''localhost'', url_port = [], url_pathname = CHR ''/'' # s\<rparr>"

theorem resolved_url_is_for_tests_witness:
  "sublist ''test'' (lower ''fulfillos_TEST'')"
proof -
  have "resolveTestDatabaseUrl sample_url (Some ''fulfillos'')
      \<lparr>pe_NODE_ENV = None, pe_DATABASE_URL_TEST = Some ''fulfillos_TEST''\<rparr> = Inr ''fulfillos_TEST''" by code_simp
  from resolved_url_is_for_tests [OF this] show ?thesis by (auto simp: extractDatabaseName_def sample_url_def)
qed

text \<open>The address comparison is an equivalence on connection strings, and neither it nor the redacted
  form that is logged depends on the credentials.\<close>

theorem same_target_equivalence:
  "equivp (sameDatabaseTarget parse) \<and>
   (\<forall>url u name pw. parse url = Some u \<longrightarrow>
      sameDatabaseTarget (parse(url \<mapsto> u\<lparr>url_username := name, url_password := pw\<rparr>)) = sameDatabaseTarget parse \<and>
      redactConnectionString (parse(url \<mapsto> u\<lparr>url_username := name, url_password := pw\<rparr>)) = redactConnectionString parse)"
proof (intro conjI allI impI)
  show "equivp (sameDatabaseTarget parse)"
    by (rule equivpI) (auto simp: reflp_def symp_def transp_def sameDatabaseTarget_def split: option.splits)
  fix url u name pw assume u: "parse url = Some u"
  show "sameDatabaseTarget (parse(url \<mapsto> u\<lparr>url_username := name, url_password := pw\<rparr>)) = sameDatabaseTarget parse"
    using u by (auto simp: fun_eq_iff sameDatabaseTarget_def port_or_default_def split: option.splits)
  show "redactConnectionString (parse(url \<mapsto> u\<lparr>url_username := name, url_password := pw\<rparr>)) = redactConnectionString parse"
    using u by (auto simp: fun_eq_iff redactConnectionString_def port_or_default_def split: option.splits)
qed

theorem same_target_equivalence_witness:
  "sameDatabaseTarget sample_url ''a'' ''a'' \<and> \<not> sameDatabaseTarget sample_url ''a'' ''b''"
proof
  show "sameDatabaseTarget sample_url ''a'' ''a''"
    using same_target_equivalence [of sample_url] equivp_reflp by metis
  show "\<not> sameDatabaseTarget sample_url ''a'' ''b''" by code_simp
qed

text \<open>
  Two names of one server are two targets: the comparison is of the host names as written, so a URL of
  the development database under another name of its host passes, if the database name does.
\<close>

lemma hostname_alias_differs:
  "parse a = Some u \<Longrightarrow> parse b = Some (u\<lparr>url_hostname := ''127.0.0.1''\<rparr>) \<Longrightarrow> url_hostname u = ''localhost'' \<Longrightarrow>
   \<not> sameDatabaseTarget parse a b"
  by (simp add: sameDatabaseTarget_def lower_def) (simp add: ascii_lower_def)

text \<open>The last check of either function cannot fail: a known name does not contain ``test''.\<close>

lemma known_name_check_dead:
  "js_includes ''test'' (lower name) \<Longrightarrow> lower name \<notin> set KNOWN_NON_TEST_DATABASE_NAMES"
  using known_names_no_test by blast

end
