(* ===== verification/Test_Support.thy ===== *)
theory Test_Support
  imports Test_Database Config Auth Sessions
begin

text \<open>
  The scripts and helpers around the tests: \<open>scripts/migrate.ts\<close> and \<open>migrate-test.ts\<close>, and of the
  end-to-end suite of \<open>apps/web\<close> the environment its API instance is started with
  (\<open>playwright.config.ts\<close>), the direct database access of \<open>e2e/db.ts\<close> and the flush of the rate
  limits of \<open>e2e/redis.ts\<close>.  The URL parser is \<open>parse\<close> as in \<open>Test_Database\<close>; drizzle's \<open>migrate\<close> is the
  parameter \<open>migrate\<close>, its error or \<open>None\<close>, and \<open>message\<close> the text of an exception.
\<close>

section \<open>Migrations\<close>

text \<open>The lines a script prints, and its exit code.\<close>

definition apply_migrations ::
  "(string \<Rightarrow> url_parts option) \<Rightarrow> (exn \<Rightarrow> string) \<Rightarrow> (string \<Rightarrow> exn option) \<Rightarrow> string \<Rightarrow> exn + string \<Rightarrow> string list \<times> nat" where
  "apply_migrations parse message migrate heading databaseUrl =
     (case databaseUrl of
        Inl err \<Rightarrow> ([heading @ '' '' @ message err], 1)
      | Inr url \<Rightarrow>
          (let applying = ''Applying migrations to '' @ redactConnectionString parse url @ '' ...'' in
           case migrate url of
             Some err \<Rightarrow> ([applying, heading @ '' '' @ message err], 1)
           | None \<Rightarrow> ([applying, ''Migrations applied successfully.''], 0)))"

definition migrate_main ::
  "(string \<Rightarrow> url_parts option) \<Rightarrow> (exn \<Rightarrow> string) \<Rightarrow> (string \<Rightarrow> exn option) \<Rightarrow> string option \<Rightarrow> string list \<times> nat" where
  "migrate_main parse message migrate DATABASE_URL =
     apply_migrations parse message migrate ''Migration failed:''
       (case DATABASE_URL of
          None \<Rightarrow> Inl (PlainError ''DATABASE_URL must be set to run migrations.'')
        | Some url \<Rightarrow>
            if url = [] then Inl (PlainError ''DATABASE_URL must be set to run migrations.'') else Inr url)"

definition migrate_test_main ::
  "(string \<Rightarrow> url_parts option) \<Rightarrow> (exn \<Rightarrow> string) \<Rightarrow> (string \<Rightarrow> exn option) \<Rightarrow> string option \<Rightarrow> process_env \<Rightarrow>
     string list \<times> nat" where
  "migrate_test_main parse message migrate original env =
     apply_migrations parse message migrate ''Test database migration failed:''
       (resolveTestDatabaseUrl parse original env)"

section \<open>The environment of the end-to-end suite\<close>

definition or_default :: "string option \<Rightarrow> string \<Rightarrow> string" where
  "or_default v dflt = (case v of None \<Rightarrow> dflt | Some s \<Rightarrow> s)"

definition API_PORT :: "(string \<Rightarrow> string option) \<Rightarrow> string" where
  "API_PORT vars = or_default (vars ''PLAYWRIGHT_API_PORT'') ''3011''"

definition WEB_PORT :: "(string \<Rightarrow> string option) \<Rightarrow> string" where
  "WEB_PORT vars = or_default (vars ''PLAYWRIGHT_WEB_PORT'') ''3010''"

definition PLAYWRIGHT_REDIS_URL :: "(string \<Rightarrow> string option) \<Rightarrow> string" where
  "PLAYWRIGHT_REDIS_URL vars = or_default (vars ''PLAYWRIGHT_REDIS_URL'') ''redis://localhost:6379/2''"

definition playwright_api_env ::
  "(string \<Rightarrow> url_parts option) \<Rightarrow> string option \<Rightarrow> process_env \<Rightarrow> (string \<Rightarrow> string option) \<Rightarrow>
     exn + (string \<Rightarrow> string option)" where
  "playwright_api_env parse original env vars =
     andThen (resolveTestDatabaseUrl parse original env) (\<lambda>TEST_DATABASE_URL.
       Inr [''PORT'' \<mapsto> API_PORT vars, ''NODE_ENV'' \<mapsto> ''test'', ''DATABASE_URL'' \<mapsto> TEST_DATABASE_URL,
            ''REDIS_URL'' \<mapsto> PLAYWRIGHT_REDIS_URL vars, ''WEB_ORIGIN'' \<mapsto> ''http://localhost:'' @ WEB_PORT vars])"

section \<open>Direct access to the test database\<close>

text \<open>The pool is made once, for the URL it was made for.\<close>

definition getPool :: "(string \<Rightarrow> url_parts option) \<Rightarrow> string option \<Rightarrow> string option \<Rightarrow> exn + string" where
  "getPool parse DATABASE_URL_TEST pool =
     (case pool of
        Some url \<Rightarrow> Inr url
      | None \<Rightarrow>
          (case DATABASE_URL_TEST of
             None \<Rightarrow> Inl (PlainError ''DATABASE_URL_TEST must be set for E2E database setup helpers.'')
           | Some url \<Rightarrow>
               if url = [] then Inl (PlainError ''DATABASE_URL_TEST must be set for E2E database setup helpers.'')
               else andThen (extractDatabaseName parse url) (\<lambda>databaseName.
                 if \<not> js_includes ''test'' (lower databaseName)
                 then Inl (PlainError (''Refusing to use a database without \"test\" in its name for E2E setup: '' @ databaseName))
                 else Inr url)))"

definition closeE2eDb :: "string option \<Rightarrow> string option" where
  "closeE2eDb pool = None"

definition addStaffMembership :: "timestamptz \<Rightarrow> string \<Rightarrow> string \<Rightarrow> db \<Rightarrow> exn + db" where
  \<comment> \<open>of organizations created at the same time, the query leaves open which one; here it is the last\<close>
  "addStaffMembership now email organizationName d =
     (case (filter (\<lambda>u. usr_emailNormalized u = email_normalized email) (users d),
            rev (sort_key org_createdAt (filter (\<lambda>g. org_name g = organizationName) (organizations d)))) of
        ([], _) \<Rightarrow> Inl (PlainError (''addStaffMembership: no user found for email '' @ email))
      | (_ # _, []) \<Rightarrow> Inl (PlainError (''addStaffMembership: no organization found named '' @ organizationName))
      | (u # _, g # _) \<Rightarrow>
          if (org_id g, usr_id u) \<in> (\<lambda>m. (mem_organizationId m, mem_userId m)) ` set (memberships d) then Inr d
          else insert_membership \<lparr>mem_organizationId = org_id g, mem_userId = usr_id u, mem_role = Staff,
            mem_createdAt = now\<rparr> d)"

definition expireSession :: "timestamptz \<Rightarrow> string \<Rightarrow> db \<Rightarrow> db" where
  "expireSession now email d =
     (case find (\<lambda>u. usr_emailNormalized u = email_normalized email) (users d) of
        None \<Rightarrow> d
      | Some u \<Rightarrow> update_sessions (\<lambda>s. ses_userId s = usr_id u)
          (\<lambda>s. s\<lparr>ses_idleExpiresAt := now - 60 * 1000000\<rparr>) d)"

section \<open>Flushing the rate limits\<close>

definition flush_commands :: "url_parts \<Rightarrow> string" where
  "flush_commands u =
     (let path = (case url_pathname u of [] \<Rightarrow> [] | c # cs \<Rightarrow> if c = CHR ''/'' then cs else c # cs);
          dbIndex = (if path = [] then ''0'' else path)
      in ''SELECT '' @ dbIndex @ [CHR 13, CHR 10] @ ''FLUSHDB'' @ [CHR 13, CHR 10])"

definition redis_address :: "(string \<Rightarrow> js_number) \<Rightarrow> url_parts \<Rightarrow> string \<times> js_number" where
  "redis_address Number u =
     (if url_hostname u = [] then ''127.0.0.1'' else url_hostname u,
      case Number (url_port u) of
        NaN \<Rightarrow> Finite 6379 0
      | Finite n k \<Rightarrow> if n = 0 then Finite 6379 0 else Finite n k
      | v \<Rightarrow> v)"

text \<open>The matches of \<open>/\+OK/g\<close> in a chunk.\<close>

fun ok_matches :: "string \<Rightarrow> nat" where
  "ok_matches (a # b # c # cs) =
     (if [a, b, c] = ''+OK'' then Suc (ok_matches cs) else ok_matches (b # c # cs))"
| "ok_matches _ = 0"

text \<open>
  The socket's events settle the promise once: a timeout and an error reject it, a close resolves it.
  Enough replies make the client end the connection, which the server then closes.
\<close>

datatype socket_event = Chunk string | SocketTimeout | SocketError exn | SocketClose

fun flush_settles :: "string \<Rightarrow> socket_event list \<Rightarrow> (exn + unit) option" where
  "flush_settles dbIndex [] = None"
| "flush_settles dbIndex (Chunk c # es) = flush_settles dbIndex es"
| "flush_settles dbIndex (SocketTimeout # es) =
     Some (Inl (PlainError (''Timed out flushing Redis db '' @ dbIndex @ '' for the Playwright suite.'')))"
| "flush_settles dbIndex (SocketError err # es) = Some (Inl err)"
| "flush_settles dbIndex (SocketClose # es) = Some (Inr ())"

fun ends_connection :: "nat \<Rightarrow> socket_event list \<Rightarrow> bool" where
  "ends_connection replies (Chunk c # es) =
     (let replies' = replies + ok_matches c in replies' \<ge> 2 \<or> ends_connection replies' es)"
| "ends_connection replies _ = False"

section \<open>Facts\<close>

text \<open>The migration scripts print the same whatever the credentials are.\<close>

lemma migrations_hide_credentials:
  assumes "parse url = Some u"
  shows "apply_migrations (parse(url \<mapsto> u\<lparr>url_username := name, url_password := pw\<rparr>)) message migrate heading (Inr url) =
    apply_migrations parse message migrate heading (Inr url)"
  using assms by (simp add: apply_migrations_def redactConnectionString_def port_or_default_def Let_def split: option.split)

text \<open>
  The API of an end-to-end run has a valid configuration, is in test mode, and works on the database of
  \<open>DATABASE_URL_TEST\<close>, which is not the one of \<open>DATABASE_URL\<close>; the direct access goes to the same one.
\<close>

lemma playwright_api_isolated:
  assumes run: "playwright_api_env parse original env vars = Inr e"
    and port: "ep_number ps (API_PORT vars) = Finite n 0" "0 < n"
    and origin: "ep_is_url ps (''http://localhost:'' @ WEB_PORT vars)" and redis: "PLAYWRIGHT_REDIS_URL vars \<noteq> []"
  shows "\<exists>c. validateEnv ps e = Inr c \<and> cfg_NODE_ENV c = TestEnv \<and> cfg_PORT c = n \<and>
    pe_DATABASE_URL_TEST env = Some (cfg_DATABASE_URL c) \<and>
    (\<forall>o'. original = Some o' \<longrightarrow> o' = [] \<or> \<not> sameDatabaseTarget parse (cfg_DATABASE_URL c) o') \<and>
    getPool parse (pe_DATABASE_URL_TEST env) None = Inr (cfg_DATABASE_URL c)"
proof -
  obtain url where url: "resolveTestDatabaseUrl parse original env = Inr url"
    and e: "e = [''PORT'' \<mapsto> API_PORT vars, ''NODE_ENV'' \<mapsto> ''test'', ''DATABASE_URL'' \<mapsto> url,
      ''REDIS_URL'' \<mapsto> PLAYWRIGHT_REDIS_URL vars, ''WEB_ORIGIN'' \<mapsto> ''http://localhost:'' @ WEB_PORT vars]"
    using run by (auto simp: playwright_api_env_def andThen_Inr_iff)
  have guard: "pe_DATABASE_URL_TEST env = Some url" "url \<noteq> []"
    "original = Some o' \<Longrightarrow> o' = [] \<or> \<not> sameDatabaseTarget parse url o'"
    "getPool parse (Some url) None = Inr url" for o'
    using url by (auto simp: resolveTestDatabaseUrl_def getPool_def split: if_splits option.splits sum.splits)
  have "validateEnv ps e = Inr \<lparr>cfg_NODE_ENV = TestEnv, cfg_PORT = n, cfg_WEB_ORIGIN = ''http://localhost:'' @ WEB_PORT vars,
      cfg_DATABASE_URL = url, cfg_REDIS_URL = PLAYWRIGHT_REDIS_URL vars, cfg_SESSION_COOKIE_NAME = ''fulfillos.sid'',
      cfg_CSRF_COOKIE_NAME = ''fulfillos.csrf''\<rparr>"
    using port origin redis guard(2) unfolding e
    by (simp add: validateEnv_def envSchema_def enum_field_def port_field_def url_field_def text_field_def collect_def Let_def)
  with guard show ?thesis by auto
qed

text \<open>The new member is staff; who was a member before keeps the role.\<close>

lemma addStaffMembership_adds:
  assumes "addStaffMembership now email name d = Inr d'"
  obtains u g where "u \<in> set (users d)" "usr_emailNormalized u = email_normalized email"
    and "g \<in> set (organizations d)" "org_name g = name"
    and "if (org_id g, usr_id u) \<in> (\<lambda>m. (mem_organizationId m, mem_userId m)) ` set (memberships d) then d' = d
      else insert_membership \<lparr>mem_organizationId = org_id g, mem_userId = usr_id u, mem_role = Staff, mem_createdAt = now\<rparr> d = Inr d'"
proof -
  obtain u us where u: "filter (\<lambda>u. usr_emailNormalized u = email_normalized email) (users d) = u # us"
    using assms by (auto simp: addStaffMembership_def split: list.splits)
  obtain g gs where g: "rev (sort_key org_createdAt (filter (\<lambda>g. org_name g = name) (organizations d))) = g # gs"
    using assms by (auto simp: addStaffMembership_def split: list.splits)
  have "u \<in> set (filter (\<lambda>u. usr_emailNormalized u = email_normalized email) (users d))" unfolding u by simp
  then have um: "u \<in> set (users d)" "usr_emailNormalized u = email_normalized email" by simp_all
  have "g \<in> set (rev (sort_key org_createdAt (filter (\<lambda>g. org_name g = name) (organizations d))))" unfolding g by simp
  then have gm: "g \<in> set (organizations d)" "org_name g = name" by simp_all
  show ?thesis using um gm assms by (intro that [of u g]) (auto simp: addStaffMembership_def u g)
qed

lemma addStaffMembership_ok:
  assumes "db_ok d" and "addStaffMembership now email name d = Inr d'"
  shows "db_ok d'" and "prefix (memberships d) (memberships d')"
proof -
  from addStaffMembership_adds [OF assms(2)] obtain r where "d' = d \<or> insert_membership r d = Inr d'" by metis
  then show "db_ok d'" and "prefix (memberships d) (memberships d')"
    using assms(1) by (auto simp: insert_membership_def tx_simps intro: insert_membership_ok)
qed

text \<open>Expiring the sessions of a user logs the user out everywhere, and nobody else.\<close>

lemma expireSession_ok: "db_ok d \<Longrightarrow> db_ok (expireSession now email d)"
  by (auto simp: expireSession_def intro: update_sessions_ok split: option.split)

lemma expireSession_ends:
  assumes db: "db_ok d" and u: "u \<in> set (users d)" "usr_emailNormalized u = email_normalized email"
    and now: "now \<le> timestamp_of_date t"
  shows "find_session sha t token (expireSession now email d) =
    (case find_session sha t token d of None \<Rightarrow> None | Some (s, v) \<Rightarrow> if v = u then None else Some (s, v))"
proof -
  let ?d' = "expireSession now email d"
  have "distinct (map usr_emailNormalized (users d))" and ids: "distinct (map usr_id (users d))"
    using db_okD(2) [OF db] by (simp_all add: users_ok_def)
  then have "find (\<lambda>u. usr_emailNormalized u = email_normalized email) (users d) = Some u"
    using u by (intro find_unique [where f = usr_emailNormalized]) auto
  then have sessions: "sessions ?d' = map (\<lambda>s. if ses_userId s = usr_id u
      then s\<lparr>ses_idleExpiresAt := now - 60 * 1000000\<rparr> else s) (sessions d)" and users: "users ?d' = users d"
    by (simp_all add: expireSession_def update_sessions_def update_where_def)
  have found: "find_session sha t token ?d' = Some (s, v) \<longleftrightarrow> find_session sha t token d = Some (s, v) \<and> v \<noteq> u" for s v
    unfolding find_session_iff [OF expireSession_ok [OF db]] find_session_iff [OF db] sessions users
    using now distinct_map_inj [OF ids u(1)]
    by (auto simp: image_iff session_live_def split: if_splits)
  show ?thesis
  proof (cases "find_session sha t token d")
    case None
    with found have "find_session sha t token ?d' \<noteq> Some (s, v)" for s v by simp
    with None show ?thesis by (cases "find_session sha t token ?d'") auto
  next
    case (Some p)
    obtain s v where p: "p = (s, v)" by force
    show ?thesis
    proof (cases "v = u")
      case True
      with found Some p have "find_session sha t token ?d' \<noteq> Some (s', v')" for s' v' by simp
      with Some p True show ?thesis by (cases "find_session sha t token ?d'") auto
    next
      case False
      with found [of s v] Some p show ?thesis by simp
    qed
  qed
qed

text \<open>A connection that is closed before any reply counts as flushed, and a reply that arrives in two
  chunks is not counted, so that the client waits for the timeout of a flush that has been done.\<close>

lemma closed_counts_as_flushed: "flush_settles dbIndex [SocketClose] = Some (Inr ())"
  by simp

lemma split_reply_uncounted:
  "\<not> ends_connection 0 [Chunk (''+OK'' @ [CHR 13, CHR 10] @ ''+O''), Chunk (''K'' @ [CHR 13, CHR 10])]"
  "ends_connection 0 [Chunk (''+OK'' @ [CHR 13, CHR 10] @ ''+OK'' @ [CHR 13, CHR 10])]"
  by code_simp+

end
