(* ===== verification/Seed.thy ===== *)
theory Seed
  imports Books
begin

text \<open>
  The development seed (\<open>scripts/seed.ts\<close>): one organization and three products with stock, every
  statement its own transaction, every insert with \<open>ON CONFLICT DO NOTHING\<close> on the key it names.
\<close>

definition SEED_ORGANIZATION_ID :: uuid where
  "SEED_ORGANIZATION_ID = ''11111111-1111-1111-1111-111111111111''"

record seed_product =
  sp_id :: uuid
  sp_sku :: string
  sp_name :: string
  sp_description :: string
  sp_unitPriceCents :: int
  sp_onHand :: int

definition SEED_PRODUCTS :: "seed_product list" where
  "SEED_PRODUCTS =
     [\<lparr>sp_id = ''00000000-0000-0000-0000-000000000001'', sp_sku = ''TRAIL-BACKPACK-40L'',
       sp_name = ''Trail Backpack 40L'',
       sp_description = ''A 40-liter weatherproof backpack for multi-day hikes.'',
       sp_unitPriceCents = 8999, sp_onHand = 25\<rparr>,
      \<lparr>sp_id = ''00000000-0000-0000-0000-000000000002'', sp_sku = ''INSULATED-BOTTLE-1L'',
       sp_name = ''Insulated Water Bottle 1L'',
       sp_description = ''Vacuum-insulated stainless steel bottle, keeps drinks cold for 24 hours.'',
       sp_unitPriceCents = 2499, sp_onHand = 60\<rparr>,
      \<lparr>sp_id = ''00000000-0000-0000-0000-000000000003'', sp_sku = ''CAMP-STOVE-MINI'',
       sp_name = ''Camp Stove Mini'',
       sp_description = ''Compact folding camp stove for backpacking.'',
       sp_unitPriceCents = 4299, sp_onHand = 15\<rparr>]"

definition seed_organization :: "env \<Rightarrow> organization" where
  "seed_organization e = \<lparr>org_id = SEED_ORGANIZATION_ID, org_name = ''Acme Trail Supply Co.'',
     org_createdAt = env_now e, org_updatedAt = env_now e\<rparr>"

definition seed_product_row :: "env \<Rightarrow> seed_product \<Rightarrow> product" where
  "seed_product_row e p =
     \<lparr>prod_id = sp_id p, prod_organizationId = SEED_ORGANIZATION_ID, prod_sku = sp_sku p,
      prod_skuNormalized = lower (btrim (sp_sku p)), prod_name = sp_name p,
      prod_description = Some (sp_description p), prod_unitPriceCents = sp_unitPriceCents p,
      prod_status = Active, prod_createdAt = env_now e, prod_updatedAt = env_now e\<rparr>"

definition seed_inventory_row :: "env \<Rightarrow> nat \<Rightarrow> seed_product \<Rightarrow> inventory_row" where
  "seed_inventory_row e i p =
     \<lparr>inv_id = new_uuid e i, inv_organizationId = SEED_ORGANIZATION_ID, inv_productId = sp_id p,
      inv_onHand = sp_onHand p, inv_reserved = 0, inv_createdAt = env_now e, inv_updatedAt = env_now e\<rparr>"

text \<open>A conflict on the named key skips the insert; any other violation is an error.\<close>

definition unless :: "bool \<Rightarrow> (db \<Rightarrow> exn + db) \<Rightarrow> db \<Rightarrow> exn + db" where
  "unless conflict ins d = (if conflict then Inr d else ins d)"

fun seed_statements :: "env \<Rightarrow> nat \<Rightarrow> seed_product list \<Rightarrow> (db \<Rightarrow> exn + db) list" where
  "seed_statements e i [] = []"
| "seed_statements e i (p # ps) =
     (\<lambda>d. unless (sp_id p \<in> prod_id ` set (products d)) (insert_product (seed_product_row e p)) d) #
     (\<lambda>d. unless (sp_id p \<in> inv_productId ` set (inventory d)) (insert_inventory (seed_inventory_row e i p)) d) #
     seed_statements e (Suc i) ps"

text \<open>The first error ends the script; what was committed before stays.\<close>

fun run_statements :: "(db \<Rightarrow> exn + db) list \<Rightarrow> db \<Rightarrow> (exn + unit) \<times> db" where
  "run_statements [] d = (Inr (), d)"
| "run_statements (s # ss) d =
     (case s d of Inl e \<Rightarrow> (Inl e, d) | Inr d' \<Rightarrow> run_statements ss d')"

definition seed_main ::
  "string option \<Rightarrow> string option \<Rightarrow> env \<Rightarrow> db \<Rightarrow> (exn + unit) \<times> db" where
  "seed_main NODE_ENV databaseUrl e d =
     (if NODE_ENV = Some ''production'' then
        (Inl (PlainError ''Refusing to run the development seed with NODE_ENV=production.''), d)
      else if databaseUrl = None \<or> databaseUrl = Some [] then
        (Inl (PlainError ''DATABASE_URL must be set to run the seed script.''), d)
      else run_statements
        ((\<lambda>d. unless (SEED_ORGANIZATION_ID \<in> org_id ` set (organizations d))
            (insert_organization (seed_organization e)) d) # seed_statements e 0 SEED_PRODUCTS) d)"

section \<open>Running it again\<close>

text \<open>What a complete run leaves: the organization, every product and its stock row.\<close>

definition seeded :: "seed_product list \<Rightarrow> db \<Rightarrow> bool" where
  "seeded ps d \<longleftrightarrow> (\<forall>p \<in> set ps. sp_id p \<in> prod_id ` set (products d) \<and> sp_id p \<in> inv_productId ` set (inventory d))"

lemma unless_product:
  "unless (x \<in> prod_id ` set (products d)) (insert_product r) d = Inr d' \<Longrightarrow> prod_id r = x \<Longrightarrow>
   prod_id ` set (products d') = insert x (prod_id ` set (products d)) \<and> inventory d' = inventory d \<and>
   organizations d' = organizations d"
  by (auto simp: unless_def insert_product_def require_Inr_iff split: if_splits)

lemma unless_inventory:
  "unless (x \<in> inv_productId ` set (inventory d)) (insert_inventory r) d = Inr d' \<Longrightarrow> inv_productId r = x \<Longrightarrow>
   inv_productId ` set (inventory d') = insert x (inv_productId ` set (inventory d)) \<and> products d' = products d \<and>
   organizations d' = organizations d"
  by (auto simp: unless_def insert_inventory_def require_Inr_iff split: if_splits)

lemma seed_statements_grow:
  "run_statements (seed_statements e i ps) d = (Inr (), d') \<Longrightarrow>
   organizations d' = organizations d \<and> prod_id ` set (products d) \<subseteq> prod_id ` set (products d') \<and>
   inv_productId ` set (inventory d) \<subseteq> inv_productId ` set (inventory d') \<and> seeded ps d'"
proof (induction ps arbitrary: d i)
  case (Cons p ps)
  from Cons.prems obtain d1 d2 where
    p: "unless (sp_id p \<in> prod_id ` set (products d)) (insert_product (seed_product_row e p)) d = Inr d1"
    and r: "unless (sp_id p \<in> inv_productId ` set (inventory d1)) (insert_inventory (seed_inventory_row e i p)) d1 = Inr d2"
    and rest: "run_statements (seed_statements e (Suc i) ps) d2 = (Inr (), d')"
    by (auto split: sum.splits)
  have a: "prod_id ` set (products d1) = insert (sp_id p) (prod_id ` set (products d))"
      "inventory d1 = inventory d" "organizations d1 = organizations d"
    using unless_product [OF p] by (simp_all add: seed_product_row_def)
  have b: "inv_productId ` set (inventory d2) = insert (sp_id p) (inv_productId ` set (inventory d1))"
      "products d2 = products d1" "organizations d2 = organizations d1"
    using unless_inventory [OF r] by (simp_all add: seed_inventory_row_def)
  from Cons.IH [OF rest] a b show ?case by (auto simp: seeded_def)
qed (simp add: seeded_def)

lemma seed_statements_again: "seeded ps d \<Longrightarrow> run_statements (seed_statements e i ps) d = (Inr (), d)"
  by (induction ps arbitrary: i) (auto simp: seeded_def unless_def)

text \<open>The seed is idempotent: once a run has succeeded, another run, at any time and with any generated
  ids, succeeds and changes nothing.\<close>

theorem seed_idempotent:
  assumes "seed_main env url e d = (Inr (), d')" and "env' \<noteq> Some ''production''" and "url' \<noteq> None" and "url' \<noteq> Some []"
  shows "seed_main env' url' e' d' = (Inr (), d')"
proof -
  obtain d1 where o1: "unless (SEED_ORGANIZATION_ID \<in> org_id ` set (organizations d))
      (insert_organization (seed_organization e)) d = Inr d1"
    and rest: "run_statements (seed_statements e 0 SEED_PRODUCTS) d1 = (Inr (), d')"
    using assms(1) by (auto simp: seed_main_def split: if_splits sum.splits)
  have "SEED_ORGANIZATION_ID \<in> org_id ` set (organizations d1)"
    using o1 by (auto simp: unless_def insert_organization_def require_Inr_iff seed_organization_def split: if_splits)
  moreover note g = seed_statements_grow [OF rest]
  ultimately have "SEED_ORGANIZATION_ID \<in> org_id ` set (organizations d')" by simp
  then show ?thesis
    using assms(2-4) seed_statements_again [of SEED_PRODUCTS d' e' 0] g
    by (simp add: seed_main_def unless_def)
qed

definition seed_env :: "nat \<Rightarrow> env" where
  "seed_env n = \<lparr>env_now = int n, env_date = int n, env_uuid = (\<lambda>i. [char_of (97 + n), char_of (97 + i)])\<rparr>"

theorem seed_idempotent_witness:
  "seed_main None (Some ''db'') (seed_env 1) (snd (seed_main None (Some ''db'') (seed_env 0) empty_db)) =
     (Inr (), snd (seed_main None (Some ''db'') (seed_env 0) empty_db))"
proof -
  have "fst (seed_main None (Some ''db'') (seed_env 0) empty_db) = Inr ()" by code_simp
  then have "seed_main None (Some ''db'') (seed_env 0) empty_db =
      (Inr (), snd (seed_main None (Some ''db'') (seed_env 0) empty_db))" by (metis prod.collapse)
  from seed_idempotent [OF this] show ?thesis by simp
qed

text \<open>
  The seeded stock has no movements: the ledger does not explain it, unlike the stock that
  \<open>ProductsService\<close> creates.
\<close>

lemma seed_not_in_ledger: "\<not> ledger_explains (snd (seed_main None (Some ''db'') (seed_env 0) empty_db))"
proof -
  let ?d = "snd (seed_main None (Some ''db'') (seed_env 0) empty_db)"
  have "map inv_onHand (inventory ?d) = [25, 60, 15]" by code_simp
  then have "inv_onHand (hd (inventory ?d)) = 25" "hd (inventory ?d) \<in> set (inventory ?d)"
    by (cases "inventory ?d"; simp)+
  moreover have "inventoryMovements ?d = []" by code_simp
  then have "ledger mov_onHandDelta ?d p = 0" for p by (simp add: ledger_def)
  ultimately show ?thesis unfolding ledger_explains_def by (metis zero_neq_numeral)
qed

end
