(* ===== verification/Catalog_Properties.thy ===== *)
theory Catalog_Properties
  imports Samples Dashboard "HOL-Library.Multiset"
begin

text \<open>
  The properties of the catalog and of the listings: creating a product and reading it back, the
  uniqueness of SKUs, the completeness of the paginated listings and the rows they can lose, the
  dashboard counts, and the fingerprints that decide whether a repeated key is the same request.
\<close>

section \<open>Creating and reading back\<close>

lemma product_ids_fresh:
  assumes "db_ok d" and "i \<notin> prod_id ` set (products d)"
  shows "i \<notin> inv_productId ` set (inventory d)"
  using db_okD(5) [OF assms(1)] assms(2)
  by (force simp: inventory_ok_def product_of_org_def)

lemma create_then_read:
  assumes "db_ok d" and created: "createProduct e g dto d = (Inr detail, d')"
  shows "getProduct d' g (ps_id detail) = Inr detail"
    and "detail = detail_of (new_product e g dto) (initial_stock dto) 0"
proof -
  have body: "create_product_body e g dto d = Inr (detail, d')"
    using created by (auto simp: createProduct_cases split: sum.splits)
  note eff = create_product_body_Inr [OF body] and fresh = create_product_fresh [OF body]
  note inv = product_ids_fresh [OF assms(1) fresh]
  let ?p = "new_product e g dto" and ?r = "new_inventory e g dto"
  have "find (\<lambda>p. prod_id p = new_uuid e 0 \<and> prod_organizationId p = pg_uuid g) (products d @ [?p]) = Some ?p"
    using fresh by (intro find_append_last) (auto simp: new_product_def image_iff)
  moreover have "find (\<lambda>r. inv_productId r = new_uuid e 0) (inventory d @ [?r]) = Some ?r"
    using inv by (intro find_append_last) (auto simp: new_inventory_def image_iff)
  ultimately show "getProduct d' g (ps_id detail) = Inr detail"
    unfolding eff getProduct_def
    by (simp add: with_product_def detail_of_def new_product_def new_inventory_def)
  show "detail = detail_of ?p (initial_stock dto) 0" by (rule eff(2))
qed

text \<open>What creating a product returns is what reading it returns: the detail view of the new id, in
  the database the creation leaves, is the answer of the creation, with all its initial stock
  available and nothing reserved.\<close>

theorem create_then_get:
  assumes "reachable sha a d" and "createProduct e g dto d = (Inr detail, d')"
  shows "getProduct d' g (ps_id detail) = Inr detail \<and>
    pd_onHand detail = initial_stock dto \<and> pd_reserved detail = 0 \<and> pd_available detail = initial_stock dto"
  using create_then_read [OF api_okD(1) [OF reachable_ok [OF assms(1)]] assms(2)]
  by (simp add: detail_of_def)

lemma sample_created:
  "createProduct (sample_env 4) sample_org (sample_product ''C'' 7) db_stocked =
     (Inr (detail_of (new_product (sample_env 4) sample_org (sample_product ''C'' 7)) 7 0),
      with_product (sample_env 4) sample_org (sample_product ''C'' 7) db_stocked)"
  by code_simp

theorem create_then_get_witness:
  "getProduct (with_product (sample_env 4) sample_org (sample_product ''C'' 7) db_stocked) sample_org ''ea'' =
     Inr (detail_of (new_product (sample_env 4) sample_org (sample_product ''C'' 7)) 7 0)"
proof -
  have "ps_id (detail_of (new_product (sample_env 4) sample_org (sample_product ''C'' 7)) 7 0) = ''ea''" by code_simp
  then show ?thesis using create_then_get [OF reachable_stocked sample_created] by simp
qed

text \<open>C38. A SKU names one product of an organization, whatever its letter case and the blanks around it:
  a valid product whose ids are new is created exactly when no product of the organization has its
  normalized SKU, and is otherwise refused with 409 and no effect.\<close>

theorem sku_names_one_product:
  assumes "reachable sha a d" and "create_product_valid dto"
    and "org_exists d (pg_uuid g)" and "fresh_product_ids e d"
  shows "createProduct e g dto d =
    (if sku_taken d g (cp_sku dto) then (Inl sku_conflict, d)
     else (Inr (detail_of (new_product e g dto) (initial_stock dto) 0), with_product e g dto d))"
proof (cases "sku_taken d g (cp_sku dto)")
  case True
  obtain c where "create_product_body e g dto d = Inl (unique_violation c)"
    using create_product_body_taken [OF assms(2) True] by blast
  with True show ?thesis
    by (simp add: createProduct_cases pg_error_defs pgErrorCode_def)
next
  case False
  note ok = api_okD(1) [OF reachable_ok [OF assms(1)]]
  from create_product_body_fresh [OF ok assms(2-4) False] False show ?thesis
    by (simp add: createProduct_cases)
qed

theorem sku_names_one_product_witness:
  "createProduct (sample_env 4) sample_org (sample_product '' b '' 7) db_stocked = (Inl sku_conflict, db_stocked)"
proof -
  have "create_product_valid (sample_product '' b '' 7)" "org_exists db_stocked (pg_uuid sample_org)"
    "fresh_product_ids (sample_env 4) db_stocked"
    "sku_taken db_stocked sample_org (cp_sku (sample_product '' b '' 7))"
    by code_simp+
  then show ?thesis using sku_names_one_product [OF reachable_stocked] by simp
qed

section \<open>Listing the catalog\<close>

lemma listProducts_fetch:
  "(\<lambda>c. listProducts cd d g \<lparr>pq_limit = l, pq_cursor = c\<rparr>) =
   (\<lambda>c. map_page summary_of (fetch_page cd prod_createdAt prod_id (products_of (pg_uuid g) d) l c))"
  by (simp add: fun_eq_iff listProducts_def fetch_page_def)

lemma followed_listing:
  assumes "reachable sha a d"
    and "exact_cursors cd prod_createdAt prod_id (products_of (pg_uuid g) d)"
    and "length (products_of (pg_uuid g) d) < fuel"
  shows "follow (\<lambda>c. listProducts cd d g \<lparr>pq_limit = l, pq_cursor = c\<rparr>) fuel None =
      Some (Inr (map summary_of (listing prod_createdAt prod_id (products_of (pg_uuid g) d))))"
    and "mset (listing prod_createdAt prod_id (products_of (pg_uuid g) d)) = mset (products_of (pg_uuid g) d)"
    and "sorted_wrt (\<lambda>p q. Position (prod_createdAt q) (prod_id q) < Position (prod_createdAt p) (prod_id p))
      (listing prod_createdAt prod_id (products_of (pg_uuid g) d))"
proof -
  let ?rows = "products_of (pg_uuid g) d" and ?L = "listing prod_createdAt prod_id (products_of (pg_uuid g) d)"
  note ok = api_okD(1) [OF reachable_ok [OF assms(1)]]
  show "follow (\<lambda>c. listProducts cd d g \<lparr>pq_limit = l, pq_cursor = c\<rparr>) fuel None = Some (Inr (map summary_of ?L))"
    unfolding listProducts_fetch follow_map_page
    using product_list.follow_complete [OF ok assms(2,3)] by simp
  show "mset ?L = mset ?rows" by (simp add: listing_def)
  show "sorted_wrt (\<lambda>p q. Position (prod_createdAt q) (prod_id q) < Position (prod_createdAt p) (prod_id p)) ?L"
    using listing_descending [OF product_list.distinct_ident [OF ok, of "pg_uuid g"], of prod_createdAt]
    by (simp add: row_key_def)
qed

text \<open>Following the cursors ends and loses nothing: when the creation times are whole milliseconds, a
  client that asks for page after page, with whatever page size, gets after at most one request per
  product and one more each product of the organization exactly once, newest first.\<close>

theorem listing_complete:
  assumes "reachable sha a d"
    and "exact_cursors cd prod_createdAt prod_id (products_of (pg_uuid g) d)"
    and "length (products_of (pg_uuid g) d) < fuel"
  shows "\<exists>ps. follow (\<lambda>c. listProducts cd d g \<lparr>pq_limit = l, pq_cursor = c\<rparr>) fuel None =
      Some (Inr (map summary_of ps)) \<and>
    mset ps = mset (products_of (pg_uuid g) d) \<and>
    sorted_wrt (\<lambda>p q. Position (prod_createdAt q) (prod_id q) < Position (prod_createdAt p) (prod_id p)) ps"
  using followed_listing [OF assms] by blast

text \<open>Two products created in the same millisecond, and a codec that reads the cursor's text.\<close>

definition catalog_env :: "nat \<Rightarrow> timestamptz \<Rightarrow> env" where
  "catalog_env n t = \<lparr>env_now = t, env_date = date_of_timestamp t,
     env_uuid = (\<lambda>i. ''00000000-0000-4000-8000-0000000000'' @ [hex_digit n, hex_digit i])\<rparr>"

definition catalog_codec :: codec where
  "catalog_codec =
     \<lparr>toBase64url = id, fromBase64url = id,
      jsonParse = (\<lambda>s. Some (JObj [(''c'', JStr (take 24 (drop 6 s))), (''i'', JStr (take 36 (drop 37 s)))])),
      dateParse = (\<lambda>s. if s = toISOString 1000 then Some 1000 else if s = toISOString 2000 then Some 2000 else None)\<rparr>"

definition catalog_org :: string where
  "catalog_org = ''00000000-0000-4000-8000-000000000000''"

definition catalog_run :: "timestamptz \<Rightarrow> timestamptz \<Rightarrow> db" where
  "catalog_run t1 t2 =
     snd (createProduct (catalog_env 2 t2) catalog_org (sample_product ''B'' 4)
       (snd (createProduct (catalog_env 1 t1) catalog_org (sample_product ''A'' 10)
         (snd (register sample_argon2 (catalog_env 0 0) sample_register empty_db)))))"

definition catalog_products :: "timestamptz \<Rightarrow> timestamptz \<Rightarrow> product list" where
  "catalog_products t1 t2 =
    [\<lparr>prod_id = ''00000000-0000-4000-8000-000000000010'', prod_organizationId = catalog_org, prod_sku = ''A'',
      prod_skuNormalized = ''a'', prod_name = ''A'', prod_description = None, prod_unitPriceCents = 250,
      prod_status = Active, prod_createdAt = t1, prod_updatedAt = t1\<rparr>,
     \<lparr>prod_id = ''00000000-0000-4000-8000-000000000020'', prod_organizationId = catalog_org, prod_sku = ''B'',
      prod_skuNormalized = ''b'', prod_name = ''B'', prod_description = None, prod_unitPriceCents = 250,
      prod_status = Active, prod_createdAt = t2, prod_updatedAt = t2\<rparr>]"

lemma reachable_catalog: "reachable sample_sha sample_argon2 (catalog_run t1 t2)"
  unfolding reachable_def catalog_run_def
  by (rule step_run [OF step_run [OF step_run [OF done_run api_step.register]
        api_step.create_product [OF sample_valid(1)]] api_step.create_product [OF sample_valid(2)]])

lemma catalog_ids:
  "new_uuid (catalog_env 1 t) 0 = ''00000000-0000-4000-8000-000000000010''"
  "new_uuid (catalog_env 1 t) 1 = ''00000000-0000-4000-8000-000000000011''"
  "new_uuid (catalog_env 2 t) 0 = ''00000000-0000-4000-8000-000000000020''"
  "new_uuid (catalog_env 2 t) 1 = ''00000000-0000-4000-8000-000000000021''"
  "pg_uuid catalog_org = catalog_org"
  unfolding new_uuid_def catalog_env_def env.simps by code_simp+

lemmas catalog_id_simps = catalog_ids catalog_ids(1,2,4) [unfolded One_nat_def]

lemma sample_skus: "sku_normalized ''A'' = ''a''" "sku_normalized ''B'' = ''b''"
  by code_simp+

lemma catalog_new_products:
  "[new_product (catalog_env 1 t1) catalog_org (sample_product ''A'' 10),
    new_product (catalog_env 2 t2) catalog_org (sample_product ''B'' 4)] = catalog_products t1 t2"
  by (simp add: new_product_def catalog_products_def catalog_id_simps sample_product_def sample_skus)
    (simp add: catalog_env_def)

lemma catalog_registered:
  defines "d \<equiv> snd (register sample_argon2 (catalog_env 0 0) sample_register empty_db)"
  shows "products d = []" "inventory d = []" "org_exists d catalog_org"
  unfolding d_def by code_simp+

lemma catalog_created:
  assumes "reachable sample_sha sample_argon2 d" and "create_product_valid dto" and "org_exists d catalog_org"
    and "fresh_product_ids e d" and "\<not> sku_taken d catalog_org (cp_sku dto)"
  shows "snd (createProduct e catalog_org dto d) = with_product e catalog_org dto d"
  using create_product_body_fresh [OF api_okD(1) [OF reachable_ok [OF assms(1)]] assms(2) _ assms(4,5)] assms(3)
  by (simp add: createProduct_cases catalog_ids(5))

lemma catalog_products_of:
  "products_of (pg_uuid catalog_org) (catalog_run t1 t2) = catalog_products t1 t2"
proof -
  let ?d0 = "snd (register sample_argon2 (catalog_env 0 0) sample_register empty_db)"
  let ?d1 = "with_product (catalog_env 1 t1) catalog_org (sample_product ''A'' 10) ?d0"
  note d0 = catalog_registered
  have r0: "reachable sample_sha sample_argon2 ?d0"
    unfolding reachable_def by (rule step_run [OF done_run api_step.register])
  have 1: "snd (createProduct (catalog_env 1 t1) catalog_org (sample_product ''A'' 10) ?d0) = ?d1"
    by (rule catalog_created [OF r0 sample_valid(1) d0(3)])
      (simp_all add: fresh_product_ids_def sku_taken_def d0)
  have r1: "reachable sample_sha sample_argon2 ?d1"
    using r0 api_step.create_product [OF sample_valid(1)] unfolding reachable_def 1 [symmetric] by (rule step_run)
  have 2: "snd (createProduct (catalog_env 2 t2) catalog_org (sample_product ''B'' 4) ?d1) =
      with_product (catalog_env 2 t2) catalog_org (sample_product ''B'' 4) ?d1"
    using d0
    by (intro catalog_created [OF r1 sample_valid(2)])
      (auto simp: fresh_product_ids_def sku_taken_def with_product_def new_product_def new_inventory_def
        catalog_id_simps sample_product_def sample_skus)
  show ?thesis
    unfolding catalog_run_def 1 2 catalog_new_products [symmetric]
    by (simp add: products_of_def with_product_def d0 new_product_def catalog_ids(5))
qed

lemma iso_samples:
  "toISOString 1000 = ''1970-01-01T00:00:01.000Z''" "toISOString 2000 = ''1970-01-01T00:00:02.000Z''" by code_simp+

lemma quoted_samples:
  "stringify_string ''c'' = quote_char # ''c'' @ [quote_char]"
  "stringify_string ''i'' = quote_char # ''i'' @ [quote_char]"
  "stringify_string ''1970-01-01T00:00:01.000Z'' = quote_char # ''1970-01-01T00:00:01.000Z'' @ [quote_char]"
  "stringify_string ''1970-01-01T00:00:02.000Z'' = quote_char # ''1970-01-01T00:00:02.000Z'' @ [quote_char]"
  "stringify_string ''00000000-0000-4000-8000-000000000010'' = quote_char # ''00000000-0000-4000-8000-000000000010'' @ [quote_char]"
  "stringify_string ''00000000-0000-4000-8000-000000000020'' = quote_char # ''00000000-0000-4000-8000-000000000020'' @ [quote_char]"
  by code_simp+

lemma catalog_codec_returns:
  "codec_returns catalog_codec \<lparr>cur_createdAt = 1000, cur_id = ''00000000-0000-4000-8000-000000000010''\<rparr>"
  "codec_returns catalog_codec \<lparr>cur_createdAt = 1000, cur_id = ''00000000-0000-4000-8000-000000000020''\<rparr>"
  "codec_returns catalog_codec \<lparr>cur_createdAt = 2000, cur_id = ''00000000-0000-4000-8000-000000000020''\<rparr>"
  unfolding codec_returns_def
  by (rule decode_encode; simp add: catalog_codec_def cursor_text_def iso_samples quoted_samples)+

lemma catalog_uuids:
  "uuid_in ''00000000-0000-4000-8000-000000000010'' = Some ''00000000-0000-4000-8000-000000000010''"
  "uuid_in ''00000000-0000-4000-8000-000000000020'' = Some ''00000000-0000-4000-8000-000000000020''"
  by code_simp+

lemma catalog_exact: "exact_cursors catalog_codec prod_createdAt prod_id (catalog_products 1000000 2000000)"
  by (simp add: exact_cursors_def catalog_products_def row_cursor_def date_of_timestamp_def ms_aligned_iff
      catalog_codec_returns catalog_uuids)
theorem listing_complete_witness:
  "\<exists>ps. follow (\<lambda>c. listProducts catalog_codec (catalog_run 1000000 2000000) catalog_org
      \<lparr>pq_limit = Some (Finite 1 0), pq_cursor = c\<rparr>) 3 None = Some (Inr (map summary_of ps)) \<and>
    mset ps = mset (catalog_products 1000000 2000000)"
proof -
  have "length (catalog_products 1000000 2000000) < 3" by (simp add: catalog_products_def)
  then show ?thesis
    using listing_complete [OF reachable_catalog, of catalog_codec catalog_org 1000000 2000000 3]
    unfolding catalog_products_of using catalog_exact by blast
qed

text \<open>Without that the listing loses products: the database keeps microseconds and a cursor
  milliseconds, so a product whose creation time is not a whole millisecond is on no page that a
  cursor of the same millisecond leads to, also when it comes after the cursor's product.\<close>

theorem listing_skips:
  assumes "reachable sha a d" and "{x, y} \<subseteq> set (products_of (pg_uuid g) d)"
    and "Position (prod_createdAt y) (prod_id y) < Position (prod_createdAt x) (prod_id x)"
    and "date_of_timestamp (prod_createdAt y) = date_of_timestamp (prod_createdAt x)"
    and "prod_createdAt y mod 1000 \<noteq> 0"
    and "codec_returns cd (row_cursor prod_createdAt prod_id x)" and "uuid_in (prod_id x) = Some (prod_id x)"
  shows "\<exists>page. listProducts cd d g \<lparr>pq_limit = l,
      pq_cursor = Some (encodeCursor cd (row_cursor prod_createdAt prod_id x))\<rparr> = Inr page \<and>
    prod_id y \<notin> ps_id ` set (page_items page)"
proof -
  let ?rows = "products_of (pg_uuid g) d"
  note ok = api_okD(1) [OF reachable_ok [OF assms(1)]]
  obtain page where page: "list_page cd prod_createdAt prod_id ?rows \<lparr>pq_limit = l,
      pq_cursor = Some (encodeCursor cd (row_cursor prod_createdAt prod_id x))\<rparr> = Inr page"
    and y: "y \<notin> set (page_items page)"
    using product_list.page_after_skips [OF assms(6,7,4)] assms(5) unfolding ms_aligned_iff by blast
  have sub: "set (page_items page) \<subseteq> set ?rows"
    using page paginate_subset unfolding list_page_after [OF assms(6,7)] sum.inject
    by (fastforce dest: in_set_takeD)
  have "prod_id y \<notin> prod_id ` set (page_items page)"
  proof
    assume "prod_id y \<in> prod_id ` set (page_items page)"
    then obtain z where z: "z \<in> set (page_items page)" "prod_id y = prod_id z" by blast
    have "y = z"
      by (rule distinct_map_inj [OF product_list.distinct_ident [OF ok, of "pg_uuid g"]])
        (use z sub assms(2) in auto)
    with z(1) y show False by simp
  qed
  then show ?thesis
    by (auto simp: listProducts_def map_page_def page summary_of_def image_iff)
qed

lemma catalog_same_millisecond:
  "let x = catalog_products 1000400 1000500 ! 1; y = catalog_products 1000400 1000500 ! 0 in
     {x, y} \<subseteq> set (products_of (pg_uuid catalog_org) (catalog_run 1000400 1000500)) \<and>
     Position (prod_createdAt y) (prod_id y) < Position (prod_createdAt x) (prod_id x) \<and>
     date_of_timestamp (prod_createdAt y) = date_of_timestamp (prod_createdAt x) \<and> prod_createdAt y mod 1000 \<noteq> 0 \<and>
     codec_returns catalog_codec (row_cursor prod_createdAt prod_id x) \<and> uuid_in (prod_id x) = Some (prod_id x) \<and>
     prod_id y = ''00000000-0000-4000-8000-000000000010''"
  unfolding catalog_products_of
  by (simp add: Let_def catalog_products_def row_cursor_def date_of_timestamp_def catalog_codec_returns catalog_uuids)

theorem listing_skips_witness:
  "\<exists>page. listProducts catalog_codec (catalog_run 1000400 1000500) catalog_org \<lparr>pq_limit = None,
      pq_cursor = Some (encodeCursor catalog_codec
        (row_cursor prod_createdAt prod_id (catalog_products 1000400 1000500 ! 1)))\<rparr> = Inr page \<and>
    ''00000000-0000-4000-8000-000000000010'' \<notin> ps_id ` set (page_items page)"
  using catalog_same_millisecond listing_skips [OF reachable_catalog] unfolding Let_def by metis

section \<open>The dashboard\<close>

lemma length_by_status:
  "length (filter (\<lambda>o'. ord_status o' = Pending) os) + length (filter (\<lambda>o'. ord_status o' = Fulfilled) os) +
     length (filter (\<lambda>o'. ord_status o' = Cancelled) os) = length os"
proof (induction os)
  case (Cons x os)
  then show ?case by (cases "ord_status x") auto
qed simp

text \<open>The dashboard counts what there is: its three order counts, read from a grouped query that has
  no row for a status no order has, are the numbers of orders of the organization in each status and
  add up to all of them, and its product counts are those of the catalog and of its stock.\<close>

theorem summary_counts:
  "let s = getSummary d g; os = orders_of (pg_uuid g) d in
     pendingOrders s = length (filter (\<lambda>o'. ord_status o' = Pending) os) \<and>
     fulfilledOrders s = length (filter (\<lambda>o'. ord_status o' = Fulfilled) os) \<and>
     cancelledOrders s = length (filter (\<lambda>o'. ord_status o' = Cancelled) os) \<and>
     pendingOrders s + fulfilledOrders s + cancelledOrders s = length os \<and>
     totalProducts s = length (products_of (pg_uuid g) d) \<and>
     lowStockProducts s = length (filter (\<lambda>r. inv_organizationId r = pg_uuid g \<and>
       inv_onHand r - inv_reserved r \<le> 5) (inventory d))"
  using length_by_status
  by (simp add: getSummary_def Let_def orders_by_status_count products_of_def LOW_STOCK_THRESHOLD_def)

section \<open>What a repeated key is compared by\<close>

text \<open>C39. Fingerprints compare meaning, not spelling: two payloads whose serializations the digest tells
  apart have the same fingerprint exactly when they are the same up to the order of their objects'
  keys.\<close>

theorem fingerprint_equivalence:
  assumes "inj_on sha {stableStringify a, stableStringify b}" and "json_wf a" and "json_wf b"
  shows "canonicalFingerprint sha a = canonicalFingerprint sha b \<longleftrightarrow> canon a = canon b"
  using stableStringify_eq_iff [OF assms(2,3)] inj_onD [OF assms(1)]
  by (auto simp: canonicalFingerprint_def)

theorem fingerprint_equivalence_witness:
  "canonicalFingerprint id (JObj [(''delta'', JNum 2), (''reason'', JStr ''1'')]) =
     canonicalFingerprint id (JObj [(''reason'', JStr ''1''), (''delta'', JNum 2)]) \<and>
   canonicalFingerprint id (JObj [(''reason'', JStr ''1'')]) \<noteq> canonicalFingerprint id (JObj [(''reason'', JNum 1)])"
proof -
  have eq: "canon (JObj [(''delta'', JNum 2), (''reason'', JStr ''1'')]) = canon (JObj [(''reason'', JStr ''1''), (''delta'', JNum 2)])"
    "canon (JObj [(''reason'', JStr ''1'')]) \<noteq> canon (JObj [(''reason'', JNum 1)])"
    by code_simp+
  have wf: "json_wf (JObj [(''delta'', JNum 2), (''reason'', JStr ''1'')])" "json_wf (JObj [(''reason'', JStr ''1''), (''delta'', JNum 2)])"
    "json_wf (JObj [(''reason'', JStr ''1'')])" "json_wf (JObj [(''reason'', JNum 1)])"
    by simp_all
  show ?thesis
    using eq fingerprint_equivalence [OF inj_on_id wf(1,2)] fingerprint_equivalence [OF inj_on_id wf(3,4)] by blast
qed

lemma adjust_json:
  "json_wf (adjust_dto_json dto)" "canon (adjust_dto_json dto) = canon (adjust_dto_json dto') \<longleftrightarrow> dto = dto'"
  by (auto simp: adjust_dto_json_def intro: adjust_inventory_dto.equality)

text \<open>A key belongs to one payload: after an adjustment claimed it, and any further run of the API, an
  adjustment of the same organization with the same key and another product, delta or reason is
  refused with 409 and has no effect.\<close>

theorem reused_key_rejected:
  assumes "reachable sha a d" and first: "adjustStock sha e g dto key d later = (r, d1)"
    and ran: "key_free d (adjust_request sha g dto key)" "\<not> key_free d1 (adjust_request sha g dto key)"
    and run: "api_run sha a d1 d2" and other: "dto' \<noteq> dto"
    and apart: "inj_on sha {stableStringify (adjust_dto_json dto'), stableStringify (adjust_dto_json dto)}"
  shows "adjustStock sha e' g dto' key d2 d2 = (Inl (HttpException (RejectBody (Message
    ''This idempotency key was already used for a request with a different payload.'')) 409), d2)"
proof -
  have "api_step sha a d d1" using api_step.adjust [of sha a d e g dto key later] by (simp add: first)
  note ok = run_from_reachable [OF assms(1) this run]
  have "canonicalFingerprint sha (adjust_dto_json dto') \<noteq> canonicalFingerprint sha (adjust_dto_json dto)"
    using stableStringify_eq_iff [OF adjust_json(1) adjust_json(1), of dto' dto] adjust_json(2) [of dto' dto] other
      inj_on_eq_iff [OF apart, of "stableStringify (adjust_dto_json dto')" "stableStringify (adjust_dto_json dto)"]
    by (simp add: canonicalFingerprint_def)
  then show ?thesis
    unfolding adjustStock_def
    by (intro adjust_work.reused [OF first [unfolded adjustStock_def] ran keys_kept [OF ok(5,3)]])
      (simp_all add: adjust_request_def request_key_def)
qed

theorem reused_key_rejected_witness:
  "let d1 = snd (adjustStock sample_sha (sample_env 4) sample_org \<lparr>ad_productId = ''ba'', ad_delta = 5, ad_reason = ''r''\<rparr> ''k2''
       db_reserved db_reserved) in
   snd (adjustStock sample_sha (sample_env 9) sample_org \<lparr>ad_productId = ''ba'', ad_delta = 6, ad_reason = ''r''\<rparr> ''k2'' d1 d1) = d1"
proof -
  let ?dto = "\<lparr>ad_productId = ''ba'', ad_delta = 5, ad_reason = ''r''\<rparr>"
  have free: "key_free db_reserved (adjust_request sample_sha sample_org ?dto ''k2'')" by code_simp
  have taken: "\<not> key_free (snd (adjustStock sample_sha (sample_env 4) sample_org ?dto ''k2''
      db_reserved db_reserved)) (adjust_request sample_sha sample_org ?dto ''k2'')" by code_simp
  have apart: "inj_on sample_sha X" for X by (simp add: inj_on_def sample_sha_def)
  then show ?thesis
    using reused_key_rejected [OF reachable_reserved prod.collapse [symmetric] free taken done_run _ apart,
        of "\<lparr>ad_productId = ''ba'', ad_delta = 6, ad_reason = ''r''\<rparr>"]
    by (simp add: Let_def)
qed

end
