(* ===== verification/Web_Client.thy ===== *)
theory Web_Client
  imports Controllers
begin

text \<open>
  The web application's client of the API (\<open>apps/web/lib/api.ts\<close>): reading the CSRF cookie, the
  request \<open>apiFetch\<close> builds, what it makes of the response, and the calls of the \<open>api\<close> object with
  the path, method, body and idempotency key of each.

  Strings are sequences of characters below 256; \<open>fetch\<close> and the browser are what a request is
  handed to and a \<open>fetch_outcome\<close> comes back from.
\<close>

section \<open>What the client uses of JavaScript\<close>

text \<open>\<open>JSON.stringify\<close>: an undefined property is left out of an object and is \<open>null\<close> in an array.\<close>

fun json_stringify :: "json \<Rightarrow> string" where
  "json_stringify JUndefined = ''null''"
| "json_stringify JNull = ''null''"
| "json_stringify (JBool b) = (if b then ''true'' else ''false'')"
| "json_stringify (JNum n) = int_string n"
| "json_stringify (JStr s) = stringify_string s"
| "json_stringify (JArr xs) = ''['' @ join '','' (map json_stringify xs) @ '']''"
| "json_stringify (JObj kvs) =
     ''{'' @ join '','' (map (\<lambda>kv. stringify_string (fst kv) @ '':'' @ json_stringify (snd kv))
        (filter (\<lambda>kv. snd kv \<noteq> JUndefined) kvs)) @ ''}''"

text \<open>\<open>Array.prototype.join\<close> turns its elements into strings.\<close>

fun js_string :: "json \<Rightarrow> string" where
  "js_string JUndefined = []"
| "js_string JNull = []"
| "js_string (JBool b) = (if b then ''true'' else ''false'')"
| "js_string (JNum n) = int_string n"
| "js_string (JStr s) = s"
| "js_string (JArr xs) = join '','' (map js_string xs)"
| "js_string (JObj kvs) = ''[object Object]''"

definition utf8 :: "char \<Rightarrow> nat list" where
  "utf8 c = (let n = (of_char c :: nat) in if n < 128 then [n] else [192 + n div 64, 128 + n mod 64])"

definition upper_hex :: "nat \<Rightarrow> char" where
  "upper_hex n = (if n < 10 then char_of (48 + n) else char_of (55 + n))"

text \<open>\<open>URLSearchParams\<close>: \<open>application/x-www-form-urlencoded\<close>.\<close>

definition form_char :: "char \<Rightarrow> string" where
  "form_char c =
     (let n = (of_char c :: nat) in
      if n \<in> {48..57} \<or> n \<in> {65..90} \<or> n \<in> {97..122} \<or> c \<in> {CHR ''*'', CHR ''-'', CHR ''.'', CHR ''_''} then [c]
      else if n = 32 then ''+''
      else concat (map (\<lambda>b. [CHR ''%'', upper_hex (b div 16), upper_hex (b mod 16)]) (utf8 c)))"

definition form_encode :: "(string \<times> string) list \<Rightarrow> string" where
  "form_encode ps =
     join ''&'' (map (\<lambda>(k, v). concat (map form_char k) @ ''='' @ concat (map form_char v)) ps)"

text \<open>\<open>decodeURIComponent\<close>; \<open>None\<close> is a \<open>URIError\<close>.\<close>

definition hex_nat :: "char \<Rightarrow> nat option" where
  "hex_nat c =
     (let n = of_char c in
      if n \<in> {48..57} then Some (n - 48) else if n \<in> {65..70} then Some (n - 55)
      else if n \<in> {97..102} then Some (n - 87) else None)"

fun percent_bytes :: "string \<Rightarrow> (nat \<times> string) option" where
  "percent_bytes (p # a # b # rest) =
     (if p = CHR ''%'' then (case (hex_nat a, hex_nat b) of (Some x, Some y) \<Rightarrow> Some (16 * x + y, rest) | _ \<Rightarrow> None)
      else None)"
| "percent_bytes _ = None"

lemma percent_bytes_shorter: "percent_bytes s = Some (b, rest) \<Longrightarrow> length rest < length s"
  by (cases s rule: percent_bytes.cases) (auto split: if_splits option.splits)

function decodeURIComponent :: "string \<Rightarrow> string option" where
  "decodeURIComponent [] = Some []"
| "decodeURIComponent (c # cs) =
     (if c \<noteq> CHR ''%'' then map_option ((#) c) (decodeURIComponent cs)
      else (case percent_bytes (c # cs) of
              None \<Rightarrow> None
            | Some (b, rest) \<Rightarrow>
                if b < 128 then map_option ((#) (char_of b)) (decodeURIComponent rest)
                else if b < 194 \<or> 195 < b then None
                else (case percent_bytes rest of
                        None \<Rightarrow> None
                      | Some (b2, rest2) \<Rightarrow>
                          if b2 < 128 \<or> 191 < b2 then None
                          else map_option ((#) (char_of ((b - 192) * 64 + (b2 - 128)))) (decodeURIComponent rest2))))"
  by pat_completeness auto
termination
  by (relation "measure length") (auto dest!: percent_bytes_shorter)

section \<open>The CSRF cookie\<close>

definition CSRF_COOKIE_NAME :: string where
  "CSRF_COOKIE_NAME = ''fulfillos.csrf''"

text \<open>
  \<open>document.cookie.match(new RegExp(`(?:^|; )${name}=([^;]*)`))\<close>: the name is used as a pattern, so
  its dot stands for any character but a line terminator; the leftmost match is taken.
\<close>

fun match_pattern :: "string \<Rightarrow> string \<Rightarrow> string option" where
  "match_pattern [] s = Some s"
| "match_pattern (p # ps) [] = None"
| "match_pattern (p # ps) (c # cs) =
     (if p = c \<or> p = CHR ''.'' \<and> c \<noteq> CHR 0x0A \<and> c \<noteq> CHR 0x0D then match_pattern ps cs else None)"

definition value_at :: "string \<Rightarrow> string \<Rightarrow> string option" where
  "value_at name s = map_option (takeWhile (\<lambda>c. c \<noteq> CHR '';'')) (match_pattern (name @ ''='') s)"

fun match_later :: "string \<Rightarrow> string \<Rightarrow> string option" where
  "match_later name (a # b # s) =
     (case (if a = CHR '';'' \<and> b = CHR '' '' then value_at name s else None) of
        Some v \<Rightarrow> Some v
      | None \<Rightarrow> match_later name (b # s))"
| "match_later name _ = None"

definition match_cookie :: "string \<Rightarrow> string \<Rightarrow> string option" where
  "match_cookie name cookie =
     (case value_at name cookie of Some v \<Rightarrow> Some v | None \<Rightarrow> match_later name cookie)"

datatype web_error = ApiError int string "json option" | AbortError | URIError

text \<open>\<open>None\<close> for the document is rendering on the server, where there is none.\<close>

definition readCookie :: "string \<Rightarrow> string option \<Rightarrow> web_error + string option" where
  "readCookie name document =
     (case document of
        None \<Rightarrow> Inr None
      | Some cookie \<Rightarrow>
          (case match_cookie name cookie of
             None \<Rightarrow> Inr None
           | Some raw \<Rightarrow>
               (case decodeURIComponent raw of None \<Rightarrow> Inl URIError | Some v \<Rightarrow> Inr (Some v))))"

section \<open>\<open>apiFetch\<close>\<close>

record fetch_options =
  fo_method :: "string option"
  fo_body :: "string option"
  fo_idempotencyKey :: "string option"

text \<open>A request with \<open>credentials: 'include'\<close>; the names of its headers are in lower case.\<close>

record fetch_request =
  fq_url :: string
  fq_method :: string
  fq_headers :: "string \<Rightarrow> string option"
  fq_body :: "string option"

definition to_upper :: "string \<Rightarrow> string" where
  "to_upper s = map (\<lambda>c. let n = (of_char c :: nat) in if n \<in> {97..122} then char_of (n - 32) else c) s"

text \<open>
  \<open>Headers.set\<close> strips the blanks around a value.  It rejects a value with a line break or a NUL inside,
  which neither a cookie nor a generated key has.
\<close>

definition http_space :: "char \<Rightarrow> bool" where
  "http_space c \<longleftrightarrow> (of_char c :: nat) \<in> {9, 10, 13, 32}"

definition normalize_header :: "string \<Rightarrow> string" where
  "normalize_header s = rev (dropWhile http_space (rev (dropWhile http_space s)))"

definition fetch_headers :: "string \<Rightarrow> fetch_options \<Rightarrow> string option \<Rightarrow> string \<Rightarrow> string option" where
  "fetch_headers m options csrfToken =
     (\<lambda>_. None)
       (''content-type'' := (case fo_body options of None \<Rightarrow> None | Some b \<Rightarrow> if b = [] then None else Some ''application/json''),
        ''x-csrf-token'' :=
          (if m \<notin> {''GET'', ''HEAD'', ''OPTIONS''}
           then (case csrfToken of None \<Rightarrow> None | Some t \<Rightarrow> if t = [] then None else Some (normalize_header t)) else None),
        ''idempotency-key'' :=
          (case fo_idempotencyKey options of None \<Rightarrow> None | Some k \<Rightarrow> if k = [] then None else Some (normalize_header k)))"

definition apiFetch_request ::
  "string \<Rightarrow> string option \<Rightarrow> string \<Rightarrow> fetch_options \<Rightarrow> web_error + fetch_request" where
  "apiFetch_request API_URL document path options =
     (let m = to_upper (case fo_method options of None \<Rightarrow> ''GET'' | Some m \<Rightarrow> m) in
      case (if m \<notin> {''GET'', ''HEAD'', ''OPTIONS''} then readCookie CSRF_COOKIE_NAME document else Inr None) of
        Inl err \<Rightarrow> Inl err
      | Inr csrfToken \<Rightarrow> Inr
          \<lparr>fq_url = API_URL @ ''/api/v1'' @ path, fq_method = m,
           fq_headers = fetch_headers m options csrfToken, fq_body = fo_body options\<rparr>)"

text \<open>What \<open>fetch\<close> gives: an abort, a failure to reach the server, or a status with the JSON of the
  body (\<open>None\<close>: \<open>response.json()\<close> rejected).\<close>

datatype fetch_outcome = FetchAborted | FetchFailed | FetchResponse int "json option"

definition response_message :: "int \<Rightarrow> json option \<Rightarrow> string" where
  "response_message code json =
     (let default = ''Request failed ('' @ int_string code @ '').'' in
      case json of
        Some (JObj kvs) \<Rightarrow>
          (case map_of kvs ''message'' of
             Some (JStr m) \<Rightarrow> if m = [] then default else m
           | Some (JArr ms) \<Rightarrow> let m = join '', '' (map js_string ms) in if m = [] then default else m
           | _ \<Rightarrow> default)
      | _ \<Rightarrow> default)"

definition apiFetch_result :: "fetch_outcome \<Rightarrow> web_error + json option" where
  "apiFetch_result res =
     (case res of
        FetchAborted \<Rightarrow> Inl AbortError
      | FetchFailed \<Rightarrow> Inl (ApiError 0 ''Could not reach the server. Check your connection and try again.'' None)
      | FetchResponse code json \<Rightarrow>
          if 200 \<le> code \<and> code \<le> 299 then Inr json
          else Inl (ApiError code (response_message code json) json))"

definition isSessionExpired :: "web_error \<Rightarrow> bool" where
  "isSessionExpired error = (case error of ApiError code _ _ \<Rightarrow> code = 401 | _ \<Rightarrow> False)"

section \<open>The calls\<close>

datatype api_call =
  ApiRegister register_dto
| ApiLogin login_dto
| ApiLogout
| ApiMe
| ApiListOrganizations
| ApiGetOrganization string
| ApiRenameOrganization string string
| ApiGetDashboardSummary string
| ApiListProducts string "int option" "string option"
| ApiGetProduct string string
| ApiCreateProduct string create_product_dto
| ApiListInventory string
| ApiAdjustInventory string adjust_inventory_dto string
| ApiListOrders string "int option" "string option"
| ApiGetOrder string string
| ApiCreateReservation string create_reservation_dto string
| ApiFulfillOrder string string string
| ApiCancelOrder string string string

definition toQueryString :: "int option \<Rightarrow> string option \<Rightarrow> string" where
  "toQueryString limit cursor =
     (let qs = form_encode
        ((case limit of None \<Rightarrow> [] | Some n \<Rightarrow> [(''limit'', int_string n)]) @
         (case cursor of None \<Rightarrow> [] | Some c \<Rightarrow> if c = [] then [] else [(''cursor'', c)]))
      in if qs = [] then [] else ''?'' @ qs)"

definition optional :: "('a \<Rightarrow> json) \<Rightarrow> 'a option \<Rightarrow> json" where
  "optional f v = (case v of None \<Rightarrow> JUndefined | Some x \<Rightarrow> f x)"

fun input_json :: "api_call \<Rightarrow> json option" where
  "input_json (ApiRegister dto) = Some (JObj [(''email'', JStr (rg_email dto)), (''password'', JStr (rg_password dto)),
     (''displayName'', JStr (rg_displayName dto)), (''organizationName'', JStr (rg_organizationName dto))])"
| "input_json (ApiLogin dto) = Some (JObj [(''email'', JStr (lg_email dto)), (''password'', JStr (lg_password dto))])"
| "input_json (ApiRenameOrganization g name) = Some (JObj [(''name'', JStr name)])"
| "input_json (ApiCreateProduct g dto) = Some (JObj [(''sku'', JStr (cp_sku dto)), (''name'', JStr (cp_name dto)),
     (''description'', optional JStr (cp_description dto)), (''unitPriceCents'', JNum (cp_unitPriceCents dto)),
     (''initialOnHand'', optional JNum (cp_initialOnHand dto))])"
| "input_json (ApiAdjustInventory g dto key) = Some (adjust_dto_json dto)"
| "input_json (ApiCreateReservation g dto key) = Some (create_dto_json dto)"
| "input_json _ = None"

fun call_path :: "api_call \<Rightarrow> string" where
  "call_path (ApiRegister dto) = ''/auth/register''"
| "call_path (ApiLogin dto) = ''/auth/login''"
| "call_path ApiLogout = ''/auth/logout''"
| "call_path ApiMe = ''/auth/me''"
| "call_path ApiListOrganizations = ''/organizations''"
| "call_path (ApiGetOrganization g) = ''/organizations/'' @ g"
| "call_path (ApiRenameOrganization g name) = ''/organizations/'' @ g"
| "call_path (ApiGetDashboardSummary g) = ''/organizations/'' @ g @ ''/dashboard/summary''"
| "call_path (ApiListProducts g limit cursor) = ''/organizations/'' @ g @ ''/products'' @ toQueryString limit cursor"
| "call_path (ApiGetProduct g p) = ''/organizations/'' @ g @ ''/products/'' @ p"
| "call_path (ApiCreateProduct g dto) = ''/organizations/'' @ g @ ''/products''"
| "call_path (ApiListInventory g) = ''/organizations/'' @ g @ ''/inventory''"
| "call_path (ApiAdjustInventory g dto key) = ''/organizations/'' @ g @ ''/inventory/adjustments''"
| "call_path (ApiListOrders g limit cursor) = ''/organizations/'' @ g @ ''/orders'' @ toQueryString limit cursor"
| "call_path (ApiGetOrder g orderId) = ''/organizations/'' @ g @ ''/orders/'' @ orderId"
| "call_path (ApiCreateReservation g dto key) = ''/organizations/'' @ g @ ''/reservations''"
| "call_path (ApiFulfillOrder g orderId key) = ''/organizations/'' @ g @ ''/orders/'' @ orderId @ ''/fulfill''"
| "call_path (ApiCancelOrder g orderId key) = ''/organizations/'' @ g @ ''/orders/'' @ orderId @ ''/cancel''"

fun call_method :: "api_call \<Rightarrow> string option" where
  "call_method (ApiRegister dto) = Some ''POST''"
| "call_method (ApiLogin dto) = Some ''POST''"
| "call_method ApiLogout = Some ''POST''"
| "call_method (ApiRenameOrganization g name) = Some ''PATCH''"
| "call_method (ApiCreateProduct g dto) = Some ''POST''"
| "call_method (ApiAdjustInventory g dto key) = Some ''POST''"
| "call_method (ApiCreateReservation g dto key) = Some ''POST''"
| "call_method (ApiFulfillOrder g orderId key) = Some ''POST''"
| "call_method (ApiCancelOrder g orderId key) = Some ''POST''"
| "call_method _ = None"

fun call_key :: "api_call \<Rightarrow> string option" where
  "call_key (ApiAdjustInventory g dto key) = Some key"
| "call_key (ApiCreateReservation g dto key) = Some key"
| "call_key (ApiFulfillOrder g orderId key) = Some key"
| "call_key (ApiCancelOrder g orderId key) = Some key"
| "call_key _ = None"

definition call_options :: "api_call \<Rightarrow> fetch_options" where
  "call_options c =
     \<lparr>fo_method = call_method c, fo_body = map_option json_stringify (input_json c), fo_idempotencyKey = call_key c\<rparr>"

definition api_request :: "string \<Rightarrow> string option \<Rightarrow> api_call \<Rightarrow> web_error + fetch_request" where
  "api_request API_URL document c = apiFetch_request API_URL document (call_path c) (call_options c)"

end
