(* ===== verification/Web_Components.thy ===== *)
theory Web_Components
  imports Web_Client
begin

text \<open>
  What the components of the web application share: the idempotency key hook (\<open>lib/idempotency.ts\<close>),
  the state of a page that fetches its data, and components as state machines.

  A component is mounted with its initial state and handles one event after the other, each with the
  state of the last render; an event may send a call of the API, whose answer is a later event.
  Rendering is modelled by what it makes possible: which button is enabled, which choice is offered.
  The source of random keys is a parameter.
\<close>

section \<open>Components\<close>

text \<open>The calls a component sends over a sequence of events.\<close>

fun component_run :: "('e \<Rightarrow> 's \<Rightarrow> 's \<times> 'c option) \<Rightarrow> 'e list \<Rightarrow> 's \<Rightarrow> 's \<times> 'c list" where
  "component_run step [] s = (s, [])"
| "component_run step (ev # evs) s =
     (case step ev s of
        (s1, sent) \<Rightarrow>
          (case component_run step evs s1 of
             (s2, calls) \<Rightarrow> (s2, (case sent of None \<Rightarrow> [] | Some c \<Rightarrow> [c]) @ calls)))"

text \<open>
  The contract of a component: a property of its state that every event keeps, and what it then says
  of every call the component sends.
\<close>

locale component =
  fixes step :: "'e \<Rightarrow> 's \<Rightarrow> 's \<times> 'c option" and state_ok :: "'s \<Rightarrow> bool" and call_ok :: "'c \<Rightarrow> bool"
  assumes keeps: "state_ok s \<Longrightarrow> state_ok (fst (step ev s))"
    and sends: "state_ok s \<Longrightarrow> snd (step ev s) = Some c \<Longrightarrow> call_ok c"
begin

lemma run_ok:
  "state_ok s \<Longrightarrow> component_run step evs s = (s', calls) \<Longrightarrow> state_ok s' \<and> (\<forall>c \<in> set calls. call_ok c)"
proof (induction evs arbitrary: s s' calls)
  case (Cons ev evs)
  obtain s1 sent s2 calls2 where st: "step ev s = (s1, sent)" and run: "component_run step evs s1 = (s2, calls2)"
    by fastforce
  have "state_ok s1" "sent = Some c \<Longrightarrow> call_ok c" for c
    using keeps [OF Cons.prems(1), of ev] sends [OF Cons.prems(1), of ev] by (simp_all add: st)
  with Cons.IH [OF _ run] Cons.prems(2) show ?case
    by (auto simp: st run split: option.splits)
qed simp

end

section \<open>Idempotency keys\<close>

text \<open>\<open>lib/idempotency.ts\<close>: a UUID, or where the browser has none the time and a random text.\<close>

definition generateKey :: "string option \<Rightarrow> int \<Rightarrow> string \<Rightarrow> string" where
  "generateKey randomUUID now random =
     (case randomUUID of Some u \<Rightarrow> u | None \<Rightarrow> int_string now @ ''-'' @ random)"

text \<open>The hook: the key, and how many keys were generated; \<open>keys n\<close> is what the n-th generation gives.\<close>

record key_hook =
  kh_key :: string
  kh_generated :: nat

definition useIdempotencyKey :: "(nat \<Rightarrow> string) \<Rightarrow> nat \<Rightarrow> key_hook" where
  "useIdempotencyKey keys n = \<lparr>kh_key = keys n, kh_generated = Suc n\<rparr>"

definition renew :: "(nat \<Rightarrow> string) \<Rightarrow> key_hook \<Rightarrow> key_hook" where
  "renew keys h = \<lparr>kh_key = keys (kh_generated h), kh_generated = Suc (kh_generated h)\<rparr>"

section \<open>Pages that fetch\<close>

definition error_message :: "string \<Rightarrow> web_error \<Rightarrow> string" where
  \<comment> \<open>\<open>err instanceof ApiError ? err.message : ...\<close>\<close>
  "error_message fallback err = (case err of ApiError _ m _ \<Rightarrow> m | _ \<Rightarrow> fallback)"

text \<open>
  The state every list and detail page keeps of its fetch.  An aborted fetch changes nothing; an expired
  session goes to the login page; any other error is shown with its message.
\<close>

record 'a remote_view =
  rv_data :: "'a option"
  rv_error :: "string option"
  rv_loading :: bool
  rv_pushed :: "string option"

definition remote_mounted :: "'a remote_view" where
  "remote_mounted = \<lparr>rv_data = None, rv_error = None, rv_loading = True, rv_pushed = None\<rparr>"

definition remote_reset :: "('a, 'b) remote_view_scheme \<Rightarrow> ('a, 'b) remote_view_scheme" where
  \<comment> \<open>before a reload, and during render when what is fetched changes\<close>
  "remote_reset v = v\<lparr>rv_loading := True, rv_error := None\<rparr>"

definition remote_settled ::
  "(web_error \<Rightarrow> string) \<Rightarrow> web_error + 'a \<Rightarrow> ('a, 'b) remote_view_scheme \<Rightarrow> ('a, 'b) remote_view_scheme" where
  "remote_settled message_of res v =
     (case res of
        Inr x \<Rightarrow> v\<lparr>rv_data := Some x, rv_loading := False\<rparr>
      | Inl err \<Rightarrow>
          if err = AbortError then v
          else if isSessionExpired err then v\<lparr>rv_pushed := Some ''/login'', rv_loading := False\<rparr>
          else v\<lparr>rv_error := Some (message_of err), rv_loading := False\<rparr>)"

definition not_found_message :: "string \<Rightarrow> string \<Rightarrow> web_error \<Rightarrow> string" where
  \<comment> \<open>\<open>err instanceof ApiError && err.status === 404\<close> has a message of its own\<close>
  "not_found_message missing fallback err =
     (case err of ApiError code m _ \<Rightarrow> if code = 404 then missing else m | _ \<Rightarrow> fallback)"

text \<open>What the page shows: a skeleton, the error, or the data.\<close>

definition remote_shown :: "('a, 'b) remote_view_scheme \<Rightarrow> 'a option" where
  "remote_shown v = (if rv_loading v \<or> rv_error v \<noteq> None then None else rv_data v)"

section \<open>Numbers\<close>

text \<open>\<open>Number.isInteger\<close>\<close>

definition js_integer :: "js_number \<Rightarrow> int option" where
  "js_integer n =
     (case n of Finite m k \<Rightarrow> if m mod int (Suc k) = 0 then Some (m div int (Suc k)) else None | _ \<Rightarrow> None)"

end
