(* ===== verification/Web_Order_Form.thy ===== *)
theory Web_Order_Form
  imports Web_Components
begin

text \<open>
  The page that creates an order (\<open>app/dashboard/orders/new/page.tsx\<close>): the products it offers, the
  draft lines, and the submission.  \<open>Number\<close> is a parameter.
\<close>

section \<open>Creating an order\<close>

text \<open>\<open>app/dashboard/orders/new/page.tsx\<close>.\<close>

record order_form =
  of_products :: "product_summary list option"
  of_loadError :: "string option"
  of_lines :: "reservation_item list"
  of_selected :: string
  of_quantity :: string
  of_addLineError :: "string option"
  of_submitError :: "string option"
  of_submitting :: bool
  of_key :: key_hook
  of_pushed :: "string option"

definition PRODUCT_PICKER_LIMIT :: int where
  "PRODUCT_PICKER_LIMIT = 100"

definition order_form_mounted :: "(nat \<Rightarrow> string) \<Rightarrow> nat \<Rightarrow> order_form" where
  "order_form_mounted keys n =
     \<lparr>of_products = None, of_loadError = None, of_lines = [], of_selected = [], of_quantity = ''1'',
      of_addLineError = None, of_submitError = None, of_submitting = False,
      of_key = useIdempotencyKey keys n, of_pushed = None\<rparr>"

definition load_products :: "string \<Rightarrow> api_call option" where
  "load_products g = (if g = [] then None else Some (ApiListProducts g (Some PRODUCT_PICKER_LIMIT) None))"

definition products_loaded :: "web_error + product_summary list \<Rightarrow> order_form \<Rightarrow> order_form" where
  "products_loaded res f =
     (case res of
        Inr items \<Rightarrow> f\<lparr>of_products := Some items\<rparr>
      | Inl err \<Rightarrow>
          if err = AbortError then f
          else if isSessionExpired err then f\<lparr>of_pushed := Some ''/login''\<rparr>
          else f\<lparr>of_loadError := Some (error_message ''Could not load products.'' err)\<rparr>)"

definition availableProducts :: "order_form \<Rightarrow> product_summary list" where
  "availableProducts f =
     filter (\<lambda>p. \<not> (\<exists>line \<in> set (of_lines f). productId line = ps_id p))
       (case of_products f of None \<Rightarrow> [] | Some ps \<Rightarrow> ps)"

definition productName :: "order_form \<Rightarrow> string \<Rightarrow> string" where
  "productName f pid =
     (case of_products f of
        None \<Rightarrow> pid
      | Some ps \<Rightarrow> (case find (\<lambda>p. ps_id p = pid) ps of None \<Rightarrow> pid | Some p \<Rightarrow> ps_name p))"

definition handleAddLine :: "(string \<Rightarrow> js_number) \<Rightarrow> order_form \<Rightarrow> order_form" where
  "handleAddLine toNumber f =
     (if of_selected f = [] then f\<lparr>of_addLineError := Some ''Choose a product.''\<rparr>
      else (case js_integer (toNumber (of_quantity f)) of
              None \<Rightarrow> f\<lparr>of_addLineError := Some ''Quantity must be a whole number of at least 1.''\<rparr>
            | Some q \<Rightarrow>
                if q < 1 then f\<lparr>of_addLineError := Some ''Quantity must be a whole number of at least 1.''\<rparr>
                else if \<exists>line \<in> set (of_lines f). productId line = of_selected f
                then f\<lparr>of_addLineError := Some ''That product is already on this order.''\<rparr>
                else f\<lparr>of_addLineError := None,
                       of_lines := of_lines f @ [\<lparr>productId = of_selected f, quantity = q\<rparr>],
                       of_selected := [], of_quantity := ''1''\<rparr>))"

definition handleRemoveLine :: "string \<Rightarrow> order_form \<Rightarrow> order_form" where
  "handleRemoveLine pid f = f\<lparr>of_lines := filter (\<lambda>line. productId line \<noteq> pid) (of_lines f)\<rparr>"

text \<open>Submitting up to its \<open>await\<close>, and what follows it.\<close>

definition handleSubmit :: "string \<Rightarrow> order_form \<Rightarrow> order_form \<times> api_call option" where
  "handleSubmit g f =
     (if g = [] \<or> of_lines f = [] then (f, None)
      else (f\<lparr>of_submitting := True, of_submitError := None\<rparr>,
            Some (ApiCreateReservation g \<lparr>cr_items = of_lines f, cr_currency = None\<rparr> (kh_key (of_key f)))))"

definition submit_settled :: "web_error + string \<Rightarrow> order_form \<Rightarrow> order_form" where
  "submit_settled res f =
     (case res of
        Inr orderId \<Rightarrow> f\<lparr>of_pushed := Some (''/dashboard/orders/'' @ orderId), of_submitting := False\<rparr>
      | Inl err \<Rightarrow>
          f\<lparr>of_submitError := Some (error_message ''Could not create this order. Please try again.'' err),
            of_submitting := False\<rparr>)"

datatype order_event =
  ProductsLoaded "web_error + product_summary list"
| SelectProduct string
| TypeQuantity string
| ClickAddLine
| ClickRemoveLine string
| ClickSubmit
| SubmitSettled "web_error + string"

text \<open>
  The form is shown once the products were fetched.  A control that is not shown, a disabled button and
  a choice that is not offered do nothing.
\<close>

definition form_shown :: "order_form \<Rightarrow> bool" where
  "form_shown f \<longleftrightarrow> (case (of_loadError f, of_products f) of (None, Some ps) \<Rightarrow> True | _ \<Rightarrow> False)"

fun order_form_step ::
  "(string \<Rightarrow> js_number) \<Rightarrow> string \<Rightarrow> order_event \<Rightarrow> order_form \<Rightarrow> order_form \<times> api_call option" where
  "order_form_step toNumber g (ProductsLoaded res) f = (products_loaded res f, None)"
| "order_form_step toNumber g (SelectProduct p) f =
     (if form_shown f \<and> p \<in> ps_id ` set (availableProducts f) then f\<lparr>of_selected := p\<rparr> else f, None)"
| "order_form_step toNumber g (TypeQuantity s) f = (if form_shown f then f\<lparr>of_quantity := s\<rparr> else f, None)"
| "order_form_step toNumber g ClickAddLine f =
     (if form_shown f \<and> availableProducts f \<noteq> [] then handleAddLine toNumber f else f, None)"
| "order_form_step toNumber g (ClickRemoveLine p) f = (if form_shown f then handleRemoveLine p f else f, None)"
| "order_form_step toNumber g ClickSubmit f =
     (if \<not> form_shown f \<or> of_lines f = [] \<or> of_submitting f then (f, None) else handleSubmit g f)"
| "order_form_step toNumber g (SubmitSettled res) f = (submit_settled res f, None)"

section \<open>What the form sends\<close>

text \<open>A draft line is on the order once, with a quantity of at least one.\<close>

definition draft_ok :: "reservation_item list \<Rightarrow> bool" where
  "draft_ok ls \<longleftrightarrow> distinct (map productId ls) \<and> (\<forall>i \<in> set ls. 1 \<le> quantity i)"

definition draft_call :: "string \<Rightarrow> string \<Rightarrow> api_call \<Rightarrow> bool" where
  "draft_call g key c \<longleftrightarrow>
     (\<exists>ls. c = ApiCreateReservation g \<lparr>cr_items = ls, cr_currency = None\<rparr> key \<and> ls \<noteq> [] \<and> draft_ok ls)"

lemma handleAddLine_draft:
  "draft_ok (of_lines f) \<Longrightarrow> draft_ok (of_lines (handleAddLine toNumber f))"
  by (auto simp: handleAddLine_def draft_ok_def split: option.split)

lemma handleAddLine_key: "of_key (handleAddLine toNumber f) = of_key f"
  and handleAddLine_submitting: "of_submitting (handleAddLine toNumber f) = of_submitting f"
  by (simp_all add: handleAddLine_def split: option.split)

lemma products_loaded_frame:
  "of_lines (products_loaded res f) = of_lines f" "of_key (products_loaded res f) = of_key f"
  "of_submitting (products_loaded res f) = of_submitting f"
  by (simp_all add: products_loaded_def split: sum.split)

lemma submit_settled_frame:
  "of_lines (submit_settled res f) = of_lines f" "of_key (submit_settled res f) = of_key f"
  by (simp_all add: submit_settled_def split: sum.split)

lemmas order_form_frames = handleAddLine_key handleAddLine_submitting products_loaded_frame submit_settled_frame

interpretation order_form:
  component "order_form_step toNumber g" "\<lambda>f. draft_ok (of_lines f) \<and> kh_key (of_key f) = key" "draft_call g key"
proof
  fix f :: order_form and ev
  assume f: "draft_ok (of_lines f) \<and> kh_key (of_key f) = key"
  show "draft_ok (of_lines (fst (order_form_step toNumber g ev f))) \<and>
      kh_key (of_key (fst (order_form_step toNumber g ev f))) = key"
    using f handleAddLine_draft [of f toNumber]
    by (cases ev)
      (auto simp: order_form_frames handleSubmit_def handleRemoveLine_def, auto simp: draft_ok_def distinct_map_filter)
  show "draft_call g key c" if "snd (order_form_step toNumber g ev f) = Some c" for c
    using f that by (cases ev) (auto simp: handleSubmit_def draft_call_def split: if_splits)
qed

fun submit_answered :: "order_event \<Rightarrow> bool" where
  "submit_answered (SubmitSettled res) = True"
| "submit_answered _ = False"

lemma one_submission_at_a_time:
  "component_run (order_form_step toNumber g) evs f = (f', calls) \<Longrightarrow>
   length calls + (if of_submitting f then 1 else 0) \<le> length (filter submit_answered evs) + 1"
proof (induction evs arbitrary: f f' calls)
  case (Cons ev evs)
  obtain f1 sent f2 calls2 where st: "order_form_step toNumber g ev f = (f1, sent)"
    and run: "component_run (order_form_step toNumber g) evs f1 = (f2, calls2)" by fastforce
  have calls: "length calls = (if sent = None then 0 else 1) + length calls2"
    using Cons.prems by (auto simp: st run split: option.splits)
  have "(if sent = None then 0 else 1) + (if of_submitting f then 1 else 0) \<le>
      (if submit_answered ev then 1 else 0) + (if of_submitting f1 then 1 else (0::nat))"
    using st by (cases ev) (auto simp: order_form_frames handleSubmit_def handleRemoveLine_def split: if_splits)
  with Cons.IH [OF run] calls show ?case by (auto split: if_splits)
qed simp

text \<open>C33. The order form sends well-formed orders: whatever the user does, and whenever answers arrive, every
  call of a mounted form is a reservation in its organization, of at least one line, no product twice,
  every quantity a whole number of at least one, and always under the key of the mount; and it never
  sends a second call before the first is answered.\<close>

theorem order_form_valid:
  assumes "component_run (order_form_step toNumber g) evs (order_form_mounted keys n) = (f, calls)"
  shows "(\<forall>c \<in> set calls. \<exists>ls. c = ApiCreateReservation g \<lparr>cr_items = ls, cr_currency = None\<rparr> (keys n) \<and>
      ls \<noteq> [] \<and> distinct (map productId ls) \<and> (\<forall>i \<in> set ls. 1 \<le> quantity i)) \<and>
    length calls \<le> length (filter submit_answered evs) + 1"
proof
  have "draft_ok (of_lines (order_form_mounted keys n)) \<and> kh_key (of_key (order_form_mounted keys n)) = keys n"
    by (simp add: order_form_mounted_def draft_ok_def useIdempotencyKey_def)
  from order_form.run_ok [OF this assms]
  show "\<forall>c \<in> set calls. \<exists>ls. c = ApiCreateReservation g \<lparr>cr_items = ls, cr_currency = None\<rparr> (keys n) \<and>
      ls \<noteq> [] \<and> distinct (map productId ls) \<and> (\<forall>i \<in> set ls. 1 \<le> quantity i)"
    by (auto simp: draft_call_def draft_ok_def)
  show "length calls \<le> length (filter submit_answered evs) + 1"
    using one_submission_at_a_time [OF assms] by (simp add: order_form_mounted_def)
qed

text \<open>A form whose user adds two lines, tries the first product again, and submits twice.\<close>

definition sample_number :: "string \<Rightarrow> js_number" where
  "sample_number s = (if s = ''2'' then Finite 2 0 else if s = ''1'' then Finite 1 0 else NaN)"

definition offered :: "string \<Rightarrow> string \<Rightarrow> product_summary" where
  "offered pid name =
     \<lparr>ps_id = pid, ps_sku = name, ps_name = name, ps_unitPriceCents = 100, ps_status = Active, ps_createdAt = 0\<rparr>"

definition sample_form_events :: "order_event list" where
  "sample_form_events =
     [ProductsLoaded (Inr [offered ''pa'' ''A'', offered ''pb'' ''B'']), SelectProduct ''pa'', TypeQuantity ''2'', ClickAddLine,
      SelectProduct ''pa'', ClickAddLine, SelectProduct ''pb'', TypeQuantity ''x'', ClickAddLine, TypeQuantity ''1'',
      ClickAddLine, ClickSubmit, ClickSubmit]"

definition sample_form_calls :: "api_call list" where
  "sample_form_calls = snd (component_run (order_form_step sample_number ''ga'') sample_form_events
     (order_form_mounted (\<lambda>i. if i = 0 then ''k0'' else ''k1'') 0))"

theorem order_form_valid_witness:
  "sample_form_calls = [ApiCreateReservation ''ga''
      \<lparr>cr_items = [\<lparr>productId = ''pa'', quantity = 2\<rparr>, \<lparr>productId = ''pb'', quantity = 1\<rparr>], cr_currency = None\<rparr> ''k0''] \<and>
   length sample_form_calls \<le> 1"
proof -
  have "sample_form_calls = [ApiCreateReservation ''ga''
      \<lparr>cr_items = [\<lparr>productId = ''pa'', quantity = 2\<rparr>, \<lparr>productId = ''pb'', quantity = 1\<rparr>], cr_currency = None\<rparr> ''k0'']"
    by code_simp
  moreover have "filter submit_answered sample_form_events = []" by code_simp
  then have "length sample_form_calls \<le> 1"
    using order_form_valid [OF prod.collapse [symmetric], of sample_number "''ga''" sample_form_events
        "\<lambda>i. if i = 0 then ''k0'' else ''k1''" 0]
    by (simp add: sample_form_calls_def)
  ultimately show ?thesis ..
qed

end
