(* ===== verification/Web_Submissions.thy ===== *)
theory Web_Submissions
  imports Web_Order_Form Stock_Properties
begin

text \<open>
  The order form against the API: what a form can still do after one of its submissions was rejected,
  given that the key is the mount's and the API stores a rejection under the key.
\<close>

lemma createReservation_checked:
  "createReservation sha e g u dto key d later \<in>
     {(Inl (bad_request ''Duplicate product lines are not allowed in a single reservation request.''), d),
      (Inl (bad_request ''One or more products do not exist in this organization.''), d),
      idempotent e (create_request sha g dto key) (reserveStock e g u dto) d later}"
  by (simp add: createReservation_def Let_def)

lemma stored_rejection:
  assumes "reachable sha a d" and "reservation_valid dto"
    and first: "createReservation sha e g u dto key d later = (Inl err, d1)"
    and ran: "key_free d (create_request sha g dto key)" "\<not> key_free d1 (create_request sha g dto key)"
    and run: "api_run sha a d1 d2"
  shows "\<exists>err'. createReservation sha e' g u' dto' key d2 d2 = (Inl err', d2) \<and>
    err' \<in> {err, bad_request ''Duplicate product lines are not allowed in a single reservation request.'',
      bad_request ''One or more products do not exist in this organization.'',
      HttpException (RejectBody (Message ''This idempotency key was already used for a request with a different payload.'')) 409}"
proof -
  let ?rq = "create_request sha g dto key" and ?rq' = "create_request sha g dto' key"
  have "api_step sha a d d1"
    using api_step.reserve [OF assms(2), of sha a d e g u key later] by (simp add: first)
  note ok = run_from_reachable [OF assms(1) this run]
  have once: "idempotent e ?rq (reserveStock e g u dto) d later = (Inl err, d1)"
    using first ran by (auto simp: createReservation_def Let_def split: if_splits)
  consider (duplicate) "createReservation sha e' g u' dto' key d2 d2 =
      (Inl (bad_request ''Duplicate product lines are not allowed in a single reservation request.''), d2)"
    | (unknown) "createReservation sha e' g u' dto' key d2 d2 =
      (Inl (bad_request ''One or more products do not exist in this organization.''), d2)"
    | (tried) "createReservation sha e' g u' dto' key d2 d2 = idempotent e' ?rq' (reserveStock e' g u' dto') d2 d2"
    using createReservation_checked by blast
  then show ?thesis
  proof cases
    case tried
    show ?thesis
    proof (cases "req_requestFingerprint ?rq' = req_requestFingerprint ?rq")
      case True
      then have "?rq' = ?rq" by (simp add: create_request_def)
      then have "createReservation sha e' g u' dto' key d2 d2 = (Inl err, d2)"
        unfolding tried using reserve_work.replay [OF once ran keys_kept [OF ok(5,3)]] by simp
      then show ?thesis by blast
    next
      case False
      have "request_key ?rq' = request_key ?rq" by (simp add: request_key_def create_request_def)
      from reserve_work.reused [OF once ran keys_kept [OF ok(5,3)] this False] show ?thesis
        unfolding tried by blast
    qed
  qed auto
qed

text \<open>C23. A rejected order form stays rejected: once a submission of a mounted form was refused under its key,
  for want of stock for instance, every later submission of that form is refused and changes nothing,
  whatever lines the user has changed and whatever stock has arrived since, until the page is left and
  its key with it.\<close>

theorem rejected_order_form_stuck:
  assumes "component_run (order_form_step toNumber g) evs (order_form_mounted keys n) = (f, calls)"
    and "ApiCreateReservation g1 dto key1 \<in> set calls" and "ApiCreateReservation g2 dto' key2 \<in> set calls"
    and "reachable sha a d" and "reservation_valid dto"
    and "createReservation sha e g1 u dto key1 d later = (Inl err, d1)"
    and "key_free d (create_request sha g1 dto key1)" and "\<not> key_free d1 (create_request sha g1 dto key1)"
    and "api_run sha a d1 d2"
  shows "\<exists>err'. createReservation sha e' g2 u' dto' key2 d2 d2 = (Inl err', d2) \<and>
    err' \<in> {err, bad_request ''Duplicate product lines are not allowed in a single reservation request.'',
      bad_request ''One or more products do not exist in this organization.'',
      HttpException (RejectBody (Message ''This idempotency key was already used for a request with a different payload.'')) 409}"
proof -
  have "draft_ok (of_lines (order_form_mounted keys n)) \<and> kh_key (of_key (order_form_mounted keys n)) = keys n"
    by (simp add: order_form_mounted_def draft_ok_def useIdempotencyKey_def)
  from order_form.run_ok [OF this assms(1)] have "draft_call g (keys n) c" if "c \<in> set calls" for c using that by blast
  from this [OF assms(2)] this [OF assms(3)] have "g2 = g1" "key2 = key1" by (auto simp: draft_call_def)
  then show ?thesis using stored_rejection [OF assms(4-9)] by simp
qed

text \<open>A form that asks for more than the stock, is refused, and then asks for one unit.\<close>

definition eleven :: "string \<Rightarrow> js_number" where
  "eleven s = (if s = ''11'' then Finite 11 0 else Finite 1 0)"

definition stuck_form :: "order_form \<times> api_call list" where
  "stuck_form = component_run (order_form_step eleven sample_org)
     [ProductsLoaded (Inr [offered ''ba'' ''A'']), SelectProduct ''ba'', TypeQuantity ''11'', ClickAddLine, ClickSubmit,
      SubmitSettled (Inl (ApiError 409 ''Insufficient stock'' None)), ClickRemoveLine ''ba'', SelectProduct ''ba'',
      TypeQuantity ''1'', ClickAddLine, ClickSubmit] (order_form_mounted (\<lambda>n. ''k9'') 0)"

definition units_of_ba :: "int \<Rightarrow> create_reservation_dto" where
  "units_of_ba n = \<lparr>cr_items = [\<lparr>productId = ''ba'', quantity = n\<rparr>], cr_currency = None\<rparr>"

theorem rejected_order_form_stuck_witness:
  "snd stuck_form = [ApiCreateReservation sample_org (units_of_ba 11) ''k9'', ApiCreateReservation sample_org (units_of_ba 1) ''k9''] \<and>
   (let d1 = snd (createReservation sample_sha (sample_env 3) sample_org sample_user (units_of_ba 11) ''k9'' db_stocked db_stocked) in
    \<exists>err. createReservation sample_sha (sample_env 4) sample_org sample_user (units_of_ba 1) ''k9'' d1 d1 = (Inl err, d1))"
proof -
  let ?first = "createReservation sample_sha (sample_env 3) sample_org sample_user (units_of_ba 11) ''k9'' db_stocked db_stocked"
  let ?rq = "create_request sample_sha sample_org (units_of_ba 11) ''k9''"
  have calls: "snd stuck_form = [ApiCreateReservation sample_org (units_of_ba 11) ''k9'', ApiCreateReservation sample_org (units_of_ba 1) ''k9'']"
    by code_simp
  have run: "component_run (order_form_step eleven sample_org)
     [ProductsLoaded (Inr [offered ''ba'' ''A'']), SelectProduct ''ba'', TypeQuantity ''11'', ClickAddLine, ClickSubmit,
      SubmitSettled (Inl (ApiError 409 ''Insufficient stock'' None)), ClickRemoveLine ''ba'', SelectProduct ''ba'',
      TypeQuantity ''1'', ClickAddLine, ClickSubmit] (order_form_mounted (\<lambda>n. ''k9'') 0) = (fst stuck_form, snd stuck_form)"
    by (simp only: stuck_form_def prod.collapse)
  have "isl (fst ?first)" by code_simp
  then obtain err where first: "?first = (Inl err, snd ?first)" by (metis isl_def prod.collapse)
  have valid: "reservation_valid (units_of_ba 11)" by code_simp
  have free: "key_free db_stocked ?rq" "\<not> key_free (snd ?first) ?rq" by code_simp+
  have sent: "ApiCreateReservation sample_org (units_of_ba 11) ''k9'' \<in> set (snd stuck_form)"
    "ApiCreateReservation sample_org (units_of_ba 1) ''k9'' \<in> set (snd stuck_form)" by (simp_all add: calls)
  from rejected_order_form_stuck [OF run sent reachable_stocked valid first free done_run]
  have "\<exists>err'. createReservation sample_sha (sample_env 4) sample_org sample_user (units_of_ba 1) ''k9'' (snd ?first) (snd ?first) =
      (Inl err', snd ?first)" by blast
  with calls show ?thesis by (simp add: Let_def)
qed

end
