(* ===== verification/Web_Inventory.thy ===== *)
theory Web_Inventory
  imports Web_Components
begin

text \<open>
  The inventory page and its dialog (\<open>app/dashboard/inventory/page.tsx\<close>,
  \<open>app/dashboard/inventory/adjust-inventory-dialog.tsx\<close>): the stock lines, the adjustment of one of
  them, the confirmation a decrease needs, and the idempotency key of each opening of the dialog.
  \<open>Number\<close> is a parameter.
\<close>

section \<open>The dialog\<close>

record adjust_dialog =
  adj_key :: key_hook
  adj_delta :: string
  adj_reason :: string
  adj_error :: "string option"
  adj_submitting :: bool
  adj_confirmingDecrease :: bool
  adj_trackedOpen :: bool

definition adjust_mounted :: "(nat \<Rightarrow> string) \<Rightarrow> nat \<Rightarrow> bool \<Rightarrow> adjust_dialog" where
  "adjust_mounted keys n opened =
     \<lparr>adj_key = useIdempotencyKey keys n, adj_delta = [], adj_reason = [], adj_error = None, adj_submitting = False,
      adj_confirmingDecrease = False, adj_trackedOpen = opened\<rparr>"

text \<open>The reset during render when \<open>open\<close> changes.\<close>

definition adjust_render :: "(nat \<Rightarrow> string) \<Rightarrow> bool \<Rightarrow> adjust_dialog \<Rightarrow> adjust_dialog" where
  "adjust_render keys opened w =
     (if adj_trackedOpen w \<noteq> opened
      then (if opened
            then w\<lparr>adj_trackedOpen := opened, adj_key := renew keys (adj_key w), adj_delta := [], adj_reason := [],
                   adj_error := None, adj_confirmingDecrease := False\<rparr>
            else w\<lparr>adj_trackedOpen := opened\<rparr>)
      else w)"

text \<open>\<open>isValidDelta\<close>, with the delta it allows.\<close>

definition valid_delta :: "(string \<Rightarrow> js_number) \<Rightarrow> adjust_dialog \<Rightarrow> int option" where
  "valid_delta toNumber w =
     (if js_trim (adj_delta w) = [] then None
      else (case js_integer (toNumber (adj_delta w)) of
              None \<Rightarrow> None
            | Some n \<Rightarrow> if n = 0 then None else Some n))"

definition adjust_submit :: "string \<Rightarrow> inventory_line \<Rightarrow> int \<Rightarrow> adjust_dialog \<Rightarrow> adjust_dialog \<times> api_call option" where
  "adjust_submit g line delta w =
     (w\<lparr>adj_submitting := True, adj_error := None\<rparr>,
      Some (ApiAdjustInventory g \<lparr>ad_productId = il_productId line, ad_delta = delta, ad_reason = adj_reason w\<rparr>
        (kh_key (adj_key w))))"

definition adjust_handleSubmit ::
  "(string \<Rightarrow> js_number) \<Rightarrow> string \<Rightarrow> inventory_line \<Rightarrow> adjust_dialog \<Rightarrow> adjust_dialog \<times> api_call option" where
  "adjust_handleSubmit toNumber g line w =
     (case valid_delta toNumber w of
        None \<Rightarrow> (w, None)
      | Some delta \<Rightarrow>
          if js_trim (adj_reason w) = [] then (w, None)
          else if delta < 0 \<and> \<not> adj_confirmingDecrease w then (w\<lparr>adj_confirmingDecrease := True\<rparr>, None)
          else adjust_submit g line delta w)"

definition adjust_failed :: "web_error \<Rightarrow> adjust_dialog \<Rightarrow> adjust_dialog" where
  "adjust_failed err w =
     w\<lparr>adj_error := Some (error_message ''Could not apply this adjustment.'' err), adj_submitting := False\<rparr>"

text \<open>
  What the open dialog offers: the form with its two inputs and its button, or the confirmation with
  Back and Confirm.  A disabled button does nothing, nor does a form whose button is disabled.
\<close>

datatype dialog_event =
  TypeDelta string | TypeReason string | SubmitAdjustment | ClickBack | ConfirmDecrease | AdjustmentFailed web_error

fun dialog_step ::
  "(string \<Rightarrow> js_number) \<Rightarrow> string \<Rightarrow> inventory_line \<Rightarrow> dialog_event \<Rightarrow> adjust_dialog \<Rightarrow> adjust_dialog \<times> api_call option" where
  "dialog_step toNumber g line (TypeDelta s) w = (if adj_confirmingDecrease w then w else w\<lparr>adj_delta := s\<rparr>, None)"
| "dialog_step toNumber g line (TypeReason s) w = (if adj_confirmingDecrease w then w else w\<lparr>adj_reason := s\<rparr>, None)"
| "dialog_step toNumber g line SubmitAdjustment w =
     (if adj_confirmingDecrease w \<or> adj_submitting w then (w, None) else adjust_handleSubmit toNumber g line w)"
| "dialog_step toNumber g line ClickBack w =
     (if adj_confirmingDecrease w \<and> \<not> adj_submitting w then w\<lparr>adj_confirmingDecrease := False\<rparr> else w, None)"
| "dialog_step toNumber g line ConfirmDecrease w =
     (if adj_confirmingDecrease w \<and> \<not> adj_submitting w
      then (case valid_delta toNumber w of None \<Rightarrow> (w, None) | Some delta \<Rightarrow> adjust_submit g line delta w)
      else (w, None))"
| "dialog_step toNumber g line (AdjustmentFailed err) w = (adjust_failed err w, None)"

section \<open>The page\<close>

text \<open>The dialog is mounted while a line is being adjusted; \<open>iv_opened\<close> counts its mounts.\<close>

record inventory_view = "inventory_line list remote_view" +
  iv_adjusting :: "(inventory_line \<times> adjust_dialog) option"
  iv_opened :: nat

definition inventory_mounted :: inventory_view where
  "inventory_mounted =
     \<lparr>rv_data = None, rv_error = None, rv_loading = True, rv_pushed = None, iv_adjusting = None, iv_opened = 0\<rparr>"

definition fetchInventory :: "string \<Rightarrow> api_call option" where
  "fetchInventory g = (if g = [] then None else Some (ApiListInventory g))"

datatype inventory_event =
  InventorySettled "web_error + inventory_line list"
| ClickRetryInventory
| ClickAdjust inventory_line
| InDialog dialog_event
| DismissAdjustment
| Adjusted

fun inventory_page_step ::
  "(string \<Rightarrow> js_number) \<Rightarrow> (nat \<Rightarrow> string) \<Rightarrow> string \<Rightarrow> bool \<Rightarrow> inventory_event \<Rightarrow> inventory_view \<Rightarrow>
   inventory_view \<times> api_call option" where
  "inventory_page_step toNumber keys g canAdjust (InventorySettled res) v =
     (remote_settled (error_message ''Could not load inventory.'') res v, None)"
| "inventory_page_step toNumber keys g canAdjust ClickRetryInventory v =
     (if \<not> rv_loading v \<and> rv_error v \<noteq> None then (remote_reset v, fetchInventory g) else (v, None))"
| "inventory_page_step toNumber keys g canAdjust (ClickAdjust line) v =
     (case remote_shown v of
        None \<Rightarrow> (v, None)
      | Some ls \<Rightarrow>
          if canAdjust \<and> g \<noteq> [] \<and> line \<in> set ls \<and> iv_adjusting v = None
          then (v\<lparr>iv_adjusting := Some (line, adjust_mounted keys (iv_opened v) True), iv_opened := Suc (iv_opened v)\<rparr>, None)
          else (v, None))"
| "inventory_page_step toNumber keys g canAdjust (InDialog ev) v =
     (case iv_adjusting v of
        None \<Rightarrow> (v, None)
      | Some (line, w) \<Rightarrow>
          (let (w1, sent) = dialog_step toNumber g line ev w
           in (v\<lparr>iv_adjusting := Some (line, adjust_render keys True w1)\<rparr>, sent)))"
| "inventory_page_step toNumber keys g canAdjust DismissAdjustment v =
     (case iv_adjusting v of
        None \<Rightarrow> (v, None)
      | Some (line, w) \<Rightarrow> (if adj_submitting w then v else v\<lparr>iv_adjusting := None\<rparr>, None))"
| "inventory_page_step toNumber keys g canAdjust Adjusted v =
     ((remote_reset v)\<lparr>iv_adjusting := None\<rparr>, fetchInventory g)"

section \<open>A decrease is confirmed\<close>

text \<open>
  The dialog in its page: open, with the key of its mount, and asking for confirmation only of a
  decrease with a reason.
\<close>

definition dialog_ok :: "(string \<Rightarrow> js_number) \<Rightarrow> string \<Rightarrow> adjust_dialog \<Rightarrow> bool" where
  "dialog_ok toNumber key w \<longleftrightarrow>
     adj_trackedOpen w \<and> kh_key (adj_key w) = key \<and>
     (adj_confirmingDecrease w \<longrightarrow>
        (\<exists>delta < 0. valid_delta toNumber w = Some delta) \<and> js_trim (adj_reason w) \<noteq> [])"

definition adjustment_ok :: "string \<Rightarrow> inventory_line \<Rightarrow> string \<Rightarrow> api_call \<Rightarrow> bool" where
  "adjustment_ok g line key c \<longleftrightarrow>
     (\<exists>delta reason. c = ApiAdjustInventory g \<lparr>ad_productId = il_productId line, ad_delta = delta, ad_reason = reason\<rparr> key \<and>
        delta \<noteq> 0 \<and> js_trim reason \<noteq> [])"

lemma valid_delta_cong: "adj_delta w' = adj_delta w \<Longrightarrow> valid_delta toNumber w' = valid_delta toNumber w"
  by (simp add: valid_delta_def)

lemma valid_delta_nonzero: "valid_delta toNumber w = Some delta \<Longrightarrow> delta \<noteq> 0"
  by (auto simp: valid_delta_def split: if_splits option.splits)

lemma dialog_ok_cong:
  "dialog_ok toNumber key w \<Longrightarrow> adj_trackedOpen w' = adj_trackedOpen w \<Longrightarrow> adj_key w' = adj_key w \<Longrightarrow>
   adj_delta w' = adj_delta w \<Longrightarrow> adj_reason w' = adj_reason w \<Longrightarrow>
   adj_confirmingDecrease w' = adj_confirmingDecrease w \<or> \<not> adj_confirmingDecrease w' \<Longrightarrow> dialog_ok toNumber key w'"
  using valid_delta_cong [of w' w toNumber] by (auto simp: dialog_ok_def)

lemma adjust_submit_ok: "dialog_ok toNumber key w \<Longrightarrow> dialog_ok toNumber key (fst (adjust_submit g line delta w))"
  by (rule dialog_ok_cong [where w = w]) (simp_all add: adjust_submit_def)

lemma adjust_submit_call:
  "dialog_ok toNumber key w \<Longrightarrow> snd (adjust_submit g line delta w) = Some c \<Longrightarrow>
   c = ApiAdjustInventory g \<lparr>ad_productId = il_productId line, ad_delta = delta, ad_reason = adj_reason w\<rparr> key"
  by (simp add: adjust_submit_def dialog_ok_def)

lemma adjust_handleSubmit_ok:
  assumes "dialog_ok toNumber key w"
  shows "dialog_ok toNumber key (fst (adjust_handleSubmit toNumber g line w))"
proof -
  have "dialog_ok toNumber key (w\<lparr>adj_confirmingDecrease := True\<rparr>)"
    if "valid_delta toNumber w = Some delta" "delta < 0" "js_trim (adj_reason w) \<noteq> []" for delta
    using assms that valid_delta_cong [of "w\<lparr>adj_confirmingDecrease := True\<rparr>" w toNumber] by (simp add: dialog_ok_def)
  then show ?thesis
    using assms adjust_submit_ok [OF assms] by (simp add: adjust_handleSubmit_def split: option.split)
qed

lemma dialog_step_call:
  assumes "dialog_ok toNumber key w" and "snd (dialog_step toNumber g line ev w) = Some c"
  obtains delta where "delta \<noteq> 0" "js_trim (adj_reason w) \<noteq> []" "delta < 0 \<longleftrightarrow> ev = ConfirmDecrease"
    "ev = ConfirmDecrease \<or> ev = SubmitAdjustment"
    "c = ApiAdjustInventory g \<lparr>ad_productId = il_productId line, ad_delta = delta, ad_reason = adj_reason w\<rparr> key"
proof -
  note call = adjust_submit_call [OF assms(1), of g line]
  have ev: "ev = ConfirmDecrease \<or> ev = SubmitAdjustment" using assms(2) by (cases ev) auto
  then obtain delta where d: "valid_delta toNumber w = Some delta"
    "c = ApiAdjustInventory g \<lparr>ad_productId = il_productId line, ad_delta = delta, ad_reason = adj_reason w\<rparr> key"
    "js_trim (adj_reason w) \<noteq> []" "delta < 0 \<longleftrightarrow> ev = ConfirmDecrease"
  proof (cases "ev = ConfirmDecrease")
    case True
    with assms that call show ?thesis by (auto simp: dialog_ok_def split: if_splits option.splits)
  next
    case False
    with ev assms(2) that call show ?thesis
      by (auto simp: adjust_handleSubmit_def split: if_splits option.splits)
  qed
  with that ev valid_delta_nonzero [OF d(1)] show thesis by blast
qed

interpretation adjust_dialog:
  component "dialog_step toNumber g line" "dialog_ok toNumber key" "adjustment_ok g line key"
proof
  fix w ev c
  assume w: "dialog_ok toNumber key w"
  show "dialog_ok toNumber key (fst (dialog_step toNumber g line ev w))"
  proof (cases ev)
    case SubmitAdjustment
    then show ?thesis using w adjust_handleSubmit_ok [OF w] by simp
  next
    case ConfirmDecrease
    then show ?thesis using w adjust_submit_ok [OF w] by (simp split: option.split)
  next
    case (AdjustmentFailed err)
    then show ?thesis by (auto intro!: dialog_ok_cong [OF w] simp: adjust_failed_def)
  qed (use w in \<open>auto simp: dialog_ok_def valid_delta_def\<close>)
  show "adjustment_ok g line key c" if "snd (dialog_step toNumber g line ev w) = Some c"
    using dialog_step_call [OF w that] unfolding adjustment_ok_def by metis
qed

definition inventory_view_ok :: "(string \<Rightarrow> js_number) \<Rightarrow> (nat \<Rightarrow> string) \<Rightarrow> bool \<Rightarrow> inventory_view \<Rightarrow> bool" where
  "inventory_view_ok toNumber keys canAdjust v \<longleftrightarrow>
     (case iv_adjusting v of
        None \<Rightarrow> True
      | Some (line, w) \<Rightarrow> canAdjust \<and> 0 < iv_opened v \<and> dialog_ok toNumber (keys (iv_opened v - 1)) w)"

definition inventory_call_ok :: "(nat \<Rightarrow> string) \<Rightarrow> string \<Rightarrow> api_call \<Rightarrow> bool" where
  "inventory_call_ok keys g c \<longleftrightarrow> c = ApiListInventory g \<or> (\<exists>line n. adjustment_ok g line (keys n) c)"

lemma dialog_ok_render: "dialog_ok toNumber key w \<Longrightarrow> adjust_render keys True w = w"
  by (simp add: dialog_ok_def adjust_render_def)

lemma inventory_frames:
  "iv_adjusting (remote_reset v) = iv_adjusting v" "iv_opened (remote_reset v) = iv_opened v"
  "iv_adjusting (remote_settled message_of res v) = iv_adjusting v"
  "iv_opened (remote_settled message_of res v) = iv_opened v"
  by (simp_all add: remote_reset_def remote_settled_def split: sum.split)

lemma adjust_mounted_ok: "dialog_ok toNumber (keys n) (adjust_mounted keys n True)"
  by (simp add: dialog_ok_def adjust_mounted_def useIdempotencyKey_def)

interpretation inventory_page:
  component "inventory_page_step toNumber keys g canAdjust" "inventory_view_ok toNumber keys canAdjust" "inventory_call_ok keys g"
proof
  fix v :: inventory_view and ev c
  assume v: "inventory_view_ok toNumber keys canAdjust v"
  note ok = adjust_dialog.keeps adjust_dialog.sends
  show "inventory_view_ok toNumber keys canAdjust (fst (inventory_page_step toNumber keys g canAdjust ev v))"
  proof (cases ev)
    case (InDialog dev)
    then show ?thesis
      using v by (auto simp: inventory_view_ok_def dialog_ok_render ok(1) split: option.splits prod.splits)
        (metis dialog_ok_render fst_conv ok(1))
  qed (use v adjust_mounted_ok in \<open>auto simp: inventory_view_ok_def inventory_frames split: option.splits\<close>)
  show "inventory_call_ok keys g c" if sent: "snd (inventory_page_step toNumber keys g canAdjust ev v) = Some c"
  proof (cases ev)
    case (InDialog dev)
    with sent obtain line w where w: "iv_adjusting v = Some (line, w)" "snd (dialog_step toNumber g line dev w) = Some c"
      by (auto split: option.splits prod.splits)
    from v w(1) have "dialog_ok toNumber (keys (iv_opened v - 1)) w" by (simp add: inventory_view_ok_def)
    from ok(2) [OF this w(2)] show ?thesis unfolding inventory_call_ok_def by blast
  qed (use sent in \<open>auto simp: inventory_call_ok_def fetchInventory_def split: option.splits if_splits prod.splits\<close>)
qed

text \<open>C28. Stock is only adjusted on purpose: whatever the user does, every adjustment the inventory page sends
  is an owner's, of the product whose dialog is open, by a nonzero whole number and with a reason; a
  decrease is only ever sent by its confirmation, an increase never needs one; and the key is that
  of the dialog's opening, so that a retry in the open dialog repeats it and a new opening does not.\<close>

theorem decrease_confirmed:
  assumes "component_run (inventory_page_step toNumber keys g canAdjust) evs inventory_mounted = (v, calls)"
    and "snd (inventory_page_step toNumber keys g canAdjust ev v) = Some (ApiAdjustInventory g' dto key)"
  shows "canAdjust \<and> g' = g \<and> ad_productId dto = il_productId (fst (the (iv_adjusting v))) \<and>
    ad_delta dto \<noteq> 0 \<and> js_trim (ad_reason dto) \<noteq> [] \<and>
    (ad_delta dto < 0 \<longleftrightarrow> ev = InDialog ConfirmDecrease) \<and>
    0 < iv_opened v \<and> key = keys (iv_opened v - 1)"
proof -
  have "inventory_view_ok toNumber keys canAdjust inventory_mounted"
    by (simp add: inventory_view_ok_def inventory_mounted_def)
  from inventory_page.run_ok [OF this assms(1)] have v: "inventory_view_ok toNumber keys canAdjust v" by blast
  obtain dev line w where w: "ev = InDialog dev" "iv_adjusting v = Some (line, w)"
      "snd (dialog_step toNumber g line dev w) = Some (ApiAdjustInventory g' dto key)"
    using assms(2) by (cases ev) (auto simp: fetchInventory_def split: option.splits prod.splits if_splits)
  from v w(2) have ok: "canAdjust" "0 < iv_opened v" "dialog_ok toNumber (keys (iv_opened v - 1)) w"
    by (simp_all add: inventory_view_ok_def)
  show ?thesis
    by (rule dialog_step_call [OF ok(3) w(3)]) (simp add: ok(1,2) w(1,2))
qed

definition sample_line :: inventory_line where
  "sample_line = \<lparr>il_productId = ''pa'', il_sku = ''A'', il_name = ''A'', il_onHand = 5, il_reserved = 0, il_available = 5\<rparr>"

definition sample_adjustment :: "inventory_event list" where
  "sample_adjustment =
     [InventorySettled (Inr [sample_line]), ClickAdjust sample_line, InDialog (TypeDelta ''-2''),
      InDialog (TypeReason ''broken''), InDialog SubmitAdjustment]"

definition sample_negative :: "string \<Rightarrow> js_number" where
  "sample_negative s = (if s = ''-2'' then Finite (- 2) 0 else NaN)"

theorem decrease_confirmed_witness:
  "let run = component_run (inventory_page_step sample_negative (\<lambda>n. replicate n CHR ''k'') ''ga'' True)
       sample_adjustment inventory_mounted;
     sent = snd (inventory_page_step sample_negative (\<lambda>n. replicate n CHR ''k'') ''ga'' True (InDialog ConfirmDecrease) (fst run))
   in snd run = [] \<and>
     sent = Some (ApiAdjustInventory ''ga'' \<lparr>ad_productId = ''pa'', ad_delta = - 2, ad_reason = ''broken''\<rparr> []) \<and>
     ad_delta \<lparr>ad_productId = ''pa'', ad_delta = - 2, ad_reason = ''broken''\<rparr> \<noteq> 0"
proof -
  let ?step = "inventory_page_step sample_negative (\<lambda>n. replicate n CHR ''k'') ''ga'' True"
  have none: "snd (component_run ?step sample_adjustment inventory_mounted) = []" by code_simp
  have sent: "snd (?step (InDialog ConfirmDecrease) (fst (component_run ?step sample_adjustment inventory_mounted))) =
      Some (ApiAdjustInventory ''ga'' \<lparr>ad_productId = ''pa'', ad_delta = - 2, ad_reason = ''broken''\<rparr> [])" by code_simp
  note shown = decrease_confirmed [OF prod.collapse [symmetric] sent]
  show ?thesis unfolding Let_def using none sent shown by blast
qed

end
