(* ===== verification/Web_Contract.thy ===== *)
theory Web_Contract
  imports Web_Client
begin

text \<open>
  The contract between the web client and the API: which route each call of the client means, that the
  request it builds is one for that route, and what the client reads of the CSRF cookie in
  \<open>document.cookie\<close>.
\<close>

section \<open>The route a call means\<close>

definition page_query_of :: "int option \<Rightarrow> string option \<Rightarrow> page_query" where
  "page_query_of limit cursor =
     \<lparr>pq_limit = map_option (\<lambda>n. Finite n 0) limit, pq_cursor = (if cursor = Some [] then None else cursor)\<rparr>"

fun call_endpoint :: "api_call \<Rightarrow> endpoint" where
  "call_endpoint (ApiRegister dto) = AuthCall (AuthRegister dto)"
| "call_endpoint (ApiLogin dto) = AuthCall (AuthLogin dto)"
| "call_endpoint ApiLogout = AuthCall AuthLogout"
| "call_endpoint ApiMe = AuthCall AuthMe"
| "call_endpoint ApiListOrganizations = OrganizationsCall OrgList"
| "call_endpoint (ApiGetOrganization g) = OrganizationsCall OrgGetOne"
| "call_endpoint (ApiRenameOrganization g name) = OrganizationsCall (OrgRename name)"
| "call_endpoint (ApiGetDashboardSummary g) = DashboardCall"
| "call_endpoint (ApiListProducts g limit cursor) = ProductsCall (ProdList (page_query_of limit cursor))"
| "call_endpoint (ApiGetProduct g p) = ProductsCall ProdGetOne"
| "call_endpoint (ApiCreateProduct g dto) = ProductsCall (ProdCreate dto)"
| "call_endpoint (ApiListInventory g) = InventoryCall InvList"
| "call_endpoint (ApiAdjustInventory g dto key) = InventoryCall (InvAdjust dto)"
| "call_endpoint (ApiListOrders g limit cursor) = OrdersCall (OrdList (page_query_of limit cursor))"
| "call_endpoint (ApiGetOrder g orderId) = OrdersCall OrdGetOne"
| "call_endpoint (ApiCreateReservation g dto key) = ReservationsCall (ResCreate dto)"
| "call_endpoint (ApiFulfillOrder g orderId key) = OrdersCall OrdFulfill"
| "call_endpoint (ApiCancelOrder g orderId key) = OrdersCall OrdCancel"

fun call_organization :: "api_call \<Rightarrow> string option" where
  "call_organization (ApiRegister dto) = None"
| "call_organization (ApiLogin dto) = None"
| "call_organization ApiLogout = None"
| "call_organization ApiMe = None"
| "call_organization ApiListOrganizations = None"
| "call_organization (ApiGetOrganization g) = Some g"
| "call_organization (ApiRenameOrganization g name) = Some g"
| "call_organization (ApiGetDashboardSummary g) = Some g"
| "call_organization (ApiListProducts g limit cursor) = Some g"
| "call_organization (ApiGetProduct g p) = Some g"
| "call_organization (ApiCreateProduct g dto) = Some g"
| "call_organization (ApiListInventory g) = Some g"
| "call_organization (ApiAdjustInventory g dto key) = Some g"
| "call_organization (ApiListOrders g limit cursor) = Some g"
| "call_organization (ApiGetOrder g orderId) = Some g"
| "call_organization (ApiCreateReservation g dto key) = Some g"
| "call_organization (ApiFulfillOrder g orderId key) = Some g"
| "call_organization (ApiCancelOrder g orderId key) = Some g"

fun call_resource :: "api_call \<Rightarrow> (string \<times> string) list" where
  "call_resource (ApiGetProduct g p) = [(''productId'', p)]"
| "call_resource (ApiGetOrder g orderId) = [(''orderId'', orderId)]"
| "call_resource (ApiFulfillOrder g orderId key) = [(''orderId'', orderId)]"
| "call_resource (ApiCancelOrder g orderId key) = [(''orderId'', orderId)]"
| "call_resource _ = []"

definition call_params :: "api_call \<Rightarrow> string \<Rightarrow> string option" where
  "call_params c = map_of
     ((case call_organization c of None \<Rightarrow> [] | Some g \<Rightarrow> [(''organizationId'', g)]) @ call_resource c)"

fun call_query :: "api_call \<Rightarrow> string" where
  "call_query (ApiListProducts g limit cursor) = toQueryString limit cursor"
| "call_query (ApiListOrders g limit cursor) = toQueryString limit cursor"
| "call_query _ = []"

text \<open>A route's path with its parameters filled in.\<close>

function fill_route :: "(string \<Rightarrow> string option) \<Rightarrow> string \<Rightarrow> string" where
  "fill_route params [] = []"
| "fill_route params (c # cs) =
     (if c = CHR '':''
      then (case params (takeWhile (\<lambda>x. x \<noteq> CHR ''/'') cs) of None \<Rightarrow> [] | Some v \<Rightarrow> v) @
        fill_route params (dropWhile (\<lambda>x. x \<noteq> CHR ''/'') cs)
      else c # fill_route params cs)"
  by pat_completeness auto
termination
  by (relation "measure (\<lambda>(params, s). length s)") (auto simp: le_imp_less_Suc length_dropWhile_le)

section \<open>Requests are for their routes\<close>

lemma call_path_route:
  "''/api/v1'' @ call_path c =
     fill_route (call_params c) (rt_path (endpoint_route (call_endpoint c))) @ call_query c"
  by (cases c)
    (simp_all add: route_with_def full_path_def configureApp_def Let_def call_params_def dashboard_route_def)

lemma call_method_route:
  "to_upper (case call_method c of None \<Rightarrow> ''GET'' | Some m \<Rightarrow> m) = rt_method (endpoint_route (call_endpoint c))"
proof -
  have "to_upper ''GET'' = ''GET''" "to_upper ''POST'' = ''POST''" "to_upper ''PATCH'' = ''PATCH''" by code_simp+
  then show ?thesis by (cases c) (simp_all add: route_with_def dashboard_route_def)
qed

text \<open>The request as the API receives it: the router has bound the parameters of the route.\<close>

definition received :: "(string \<Rightarrow> cookie_value option) \<Rightarrow> (string \<Rightarrow> string option) \<Rightarrow> fetch_request \<Rightarrow> http_request" where
  "received cookies params fq =
     \<lparr>rq_method = fq_method fq, rq_path = fq_url fq, rq_ip = None, rq_cookies = cookies,
      rq_headers = (\<lambda>h. map_option OneHeader (fq_headers fq h)), rq_params = params\<rparr>"

lemma call_method_unsafe:
  "call_method c \<noteq> None \<longleftrightarrow> rt_method (endpoint_route (call_endpoint c)) \<notin> set SAFE_METHODS"
  by (cases c) (simp_all add: route_with_def dashboard_route_def SAFE_METHODS_def)

lemma api_request_Inr:
  assumes "api_request API_URL document c = Inr fq"
  shows "fq_url fq = API_URL @ ''/api/v1'' @ call_path c"
    and "fq_method fq = rt_method (endpoint_route (call_endpoint c))"
    and "\<exists>t. fq_headers fq = fetch_headers (fq_method fq) (call_options c) t"
  using assms
  by (auto simp: api_request_def apiFetch_request_def Let_def call_options_def call_method_route
      split: sum.splits if_splits)

text \<open>C26. The client speaks the API's language: each of its calls is sent to the path of a route of the API,
  with the organization and resource of the call in the place of the route's parameters, with the
  method of that route, with headers that the API's CORS settings allow, and with an idempotency key
  that the API takes as the caller gave it.\<close>

theorem client_calls_match_routes:
  assumes "api_request API_URL document c = Inr fq"
    and "\<forall>k. call_key c = Some k \<longrightarrow> normalize_header k = k \<and> js_trim k \<noteq> [] \<and> length k \<le> 200"
  shows "fq_url fq = API_URL @ fill_route (call_params c) (rt_path (endpoint_route (call_endpoint c))) @ call_query c \<and>
    routed (received cookies (call_params c) fq) (call_endpoint c) \<and>
    (\<forall>h. fq_headers fq h \<noteq> None \<longrightarrow> h \<in> lower ` set (as_corsAllowedHeaders (configureApp origin))) \<and>
    (\<forall>k. call_key c = Some k \<longrightarrow> IdempotencyKey (received cookies (call_params c) fq) = Inr k)"
proof (intro conjI allI impI)
  note req = api_request_Inr [OF assms(1)]
  show "fq_url fq = API_URL @ fill_route (call_params c) (rt_path (endpoint_route (call_endpoint c))) @ call_query c"
    using req(1) call_path_route [of c] by simp
  show "routed (received cookies (call_params c) fq) (call_endpoint c)"
    using req(2) by (simp add: routed_def received_def)
  obtain t where t: "fq_headers fq = fetch_headers (fq_method fq) (call_options c) t" using req(3) by blast
  have names: "lower ` set (as_corsAllowedHeaders (configureApp origin)) = {''content-type'', ''x-csrf-token'', ''idempotency-key''}"
  proof -
    have "lower ''Content-Type'' = ''content-type''" "lower ''X-CSRF-Token'' = ''x-csrf-token''"
      "lower ''Idempotency-Key'' = ''idempotency-key''" by code_simp+
    then show ?thesis by (simp add: configureApp_def)
  qed
  show "h \<in> lower ` set (as_corsAllowedHeaders (configureApp origin))" if "fq_headers fq h \<noteq> None" for h
    using that unfolding names t fetch_headers_def fun_upd_apply by (auto split: if_splits)
  show "IdempotencyKey (received cookies (call_params c) fq) = Inr k" if k: "call_key c = Some k" for k
  proof -
    have *: "normalize_header k = k" "js_trim k \<noteq> []" "length k \<le> 200" using assms(2) k by blast+
    then have "k \<noteq> []" by (auto simp: js_trim_def)
    with *(1) have "fq_headers fq ''idempotency-key'' = Some k"
      unfolding t fetch_headers_def using k by (simp add: call_options_def)
    with * show ?thesis
      by (simp add: IdempotencyKey_def received_def IDEMPOTENCY_HEADER_def IDEMPOTENCY_MAX_LENGTH_def first_header_def)
  qed
qed

theorem client_calls_match_routes_witness:
  "\<exists>fq. api_request ''http://localhost:3001'' (Some []) (ApiCancelOrder ''g'' ''x'' ''k'') = Inr fq \<and>
     fq_url fq = ''http://localhost:3001/api/v1/organizations/g/orders/x/cancel''"
proof -
  obtain fq where fq: "api_request ''http://localhost:3001'' (Some []) (ApiCancelOrder ''g'' ''x'' ''k'') = Inr fq"
    by (cases "api_request ''http://localhost:3001'' (Some []) (ApiCancelOrder ''g'' ''x'' ''k'')")
      (auto simp: api_request_def apiFetch_request_def Let_def readCookie_def match_cookie_def value_at_def
        CSRF_COOKIE_NAME_def split: if_splits)
  have "normalize_header ''k'' = ''k'' \<and> js_trim ''k'' \<noteq> [] \<and> length ''k'' \<le> 200" by code_simp
  then have "fq_url fq = ''http://localhost:3001'' @
      fill_route (call_params (ApiCancelOrder ''g'' ''x'' ''k''))
        (rt_path (endpoint_route (call_endpoint (ApiCancelOrder ''g'' ''x'' ''k'')))) @ call_query (ApiCancelOrder ''g'' ''x'' ''k'')"
    using client_calls_match_routes [OF fq] by simp
  with fq show ?thesis
    by (simp add: route_with_def full_path_def configureApp_def Let_def call_params_def)
qed

section \<open>The CSRF cookie as the client reads it\<close>

text \<open>
  The cookies of an answer that scripts can read, as \<open>document.cookie\<close> prints them; the value of a
  token of base64url characters is printed as it is.
\<close>

fun readable :: "cookie_op \<Rightarrow> (string \<times> string) list" where
  "readable (SetCookie name v opts) = (if co_httpOnly opts then [] else [(name, v)])"
| "readable (ClearCookie name opts) = []"

definition document_cookie :: "cookie_op list \<Rightarrow> string" where
  "document_cookie ops = join ''; '' (map (\<lambda>(n, v). n @ ''='' @ v) (concat (map readable ops)))"

definition base64url_char :: "char \<Rightarrow> bool" where
  "base64url_char c \<longleftrightarrow>
     (let n = (of_char c :: nat) in n \<in> {48..57} \<or> n \<in> {65..90} \<or> n \<in> {97..122} \<or> n \<in> {45, 95})"

lemma match_pattern_self: "match_pattern p (p @ s) = Some s"
  by (induction p) auto

lemma match_later_none: "CHR '';'' \<notin> set s \<Longrightarrow> match_later name s = None"
  by (induction name s rule: match_later.induct) auto

lemma base64url_plain:
  assumes "base64url_char c"
  shows "c \<noteq> CHR '';'' \<and> c \<noteq> CHR ''%'' \<and> \<not> http_space c"
  using assms by (auto simp: base64url_char_def http_space_def Let_def)

lemma decode_plain: "CHR ''%'' \<notin> set s \<Longrightarrow> decodeURIComponent s = Some s"
  by (induction s) auto

lemma normalize_plain: "\<forall>c \<in> set s. \<not> http_space c \<Longrightarrow> normalize_header s = s"
proof -
  assume s: "\<forall>c \<in> set s. \<not> http_space c"
  then have "dropWhile http_space s = s" by (cases s) auto
  moreover have "dropWhile http_space (rev s) = rev s" using s by (cases s rule: rev_cases) auto
  ultimately show ?thesis by (simp add: normalize_header_def)
qed

lemma readCookie_csrf:
  assumes "\<forall>c \<in> set token. base64url_char c"
  shows "readCookie CSRF_COOKIE_NAME (Some (''fulfillos.csrf='' @ token)) = Inr (Some token)"
    and "readCookie CSRF_COOKIE_NAME (Some (''__Host-fulfillos.csrf='' @ token)) = Inr None"
proof -
  have tok: "CHR '';'' \<notin> set token" "CHR ''%'' \<notin> set token" using assms base64url_plain by blast+
  have take: "takeWhile (\<lambda>c. c \<noteq> CHR '';'') token = token"
    using tok(1) unfolding takeWhile_eq_all_conv by blast
  have "match_pattern (CSRF_COOKIE_NAME @ ''='') (''fulfillos.csrf='' @ token) = Some token"
    using match_pattern_self [of "''fulfillos.csrf=''" token] by (simp add: CSRF_COOKIE_NAME_def)
  then show "readCookie CSRF_COOKIE_NAME (Some (''fulfillos.csrf='' @ token)) = Inr (Some token)"
    using decode_plain [OF tok(2)] by (simp add: readCookie_def match_cookie_def value_at_def take del: takeWhile_eq_all_conv)
  have "match_later CSRF_COOKIE_NAME (''__Host-fulfillos.csrf='' @ token) = None"
    using tok(1) by (intro match_later_none) auto
  moreover have "value_at CSRF_COOKIE_NAME (''__Host-fulfillos.csrf='' @ token) = None"
    by (simp add: value_at_def CSRF_COOKIE_NAME_def)
  ultimately show "readCookie CSRF_COOKIE_NAME (Some (''__Host-fulfillos.csrf='' @ token)) = Inr None"
    by (simp only: readCookie_def match_cookie_def option.case)
qed

text \<open>The dot of the cookie's name is a pattern's dot.\<close>

lemma csrf_name_is_a_pattern:
  "readCookie CSRF_COOKIE_NAME (Some ''fulfillosXcsrf=v; fulfillos.csrf=w'') = Inr (Some ''v'')"
  by code_simp

end
