(* ===== verification/Web_Account.thy ===== *)
theory Web_Account
  imports Web_Components Web_Contract Http_Samples Organizations
begin

text \<open>
  Who is signed in and for which organization: the contexts \<open>lib/auth-context.tsx\<close> and
  \<open>lib/organization-context.tsx\<close>, the pages \<open>app/login/page.tsx\<close> and \<open>app/register/page.tsx\<close>, the
  logout of \<open>components/layout/user-menu.tsx\<close>, the organization switcher, the redirect of
  \<open>app/dashboard/layout.tsx\<close>, and the settings form.
\<close>

section \<open>The signed-in user\<close>

record auth_state =
  au_user :: "public_user option"
  au_loading :: bool

definition auth_mounted :: auth_state where
  "auth_mounted = \<lparr>au_user = None, au_loading = True\<rparr>"

text \<open>The answer to \<open>/auth/me\<close>, on mount and on \<open>refresh\<close>: any error is nobody.\<close>

definition me_settled :: "web_error + public_user \<Rightarrow> auth_state \<Rightarrow> auth_state" where
  "me_settled res st =
     (case res of Inr user \<Rightarrow> \<lparr>au_user = Some user, au_loading = False\<rparr> | Inl err \<Rightarrow> \<lparr>au_user = None, au_loading = False\<rparr>)"

text \<open>\<open>logout\<close> forgets the user whatever the answer, and throws what the call threw.\<close>

definition logout_settled :: "web_error + unit \<Rightarrow> auth_state \<Rightarrow> auth_state \<times> (web_error + unit)" where
  "logout_settled res st = (st\<lparr>au_user := None\<rparr>, res)"

definition handleLogout :: "web_error + unit \<Rightarrow> auth_state \<Rightarrow> auth_state \<times> string option" where
  \<comment> \<open>the user menu: the push is not reached when \<open>logout\<close> throws\<close>
  "handleLogout res st =
     (let (st1, thrown) = logout_settled res st in (st1, case thrown of Inr u \<Rightarrow> Some ''/login'' | Inl err \<Rightarrow> None))"

text \<open>The dashboard's layout: where it redirects to, and whether it renders its pages.\<close>

definition layout_redirect :: "auth_state \<Rightarrow> string option" where
  "layout_redirect st = (if \<not> au_loading st \<and> au_user st = None then Some ''/login'' else None)"

definition layout_shows_pages :: "auth_state \<Rightarrow> bool" where
  "layout_shows_pages st \<longleftrightarrow> \<not> (au_loading st \<or> au_user st = None)"

section \<open>The login and register pages\<close>

record credentials_form =
  cf_displayName :: string
  cf_organizationName :: string
  cf_email :: string
  cf_password :: string
  cf_sent :: "string \<times> string"
  cf_error :: "string option"
  cf_submitting :: bool
  cf_pushed :: "string option"

definition credentials_mounted :: credentials_form where
  "credentials_mounted =
     \<lparr>cf_displayName = [], cf_organizationName = [], cf_email = [], cf_password = [], cf_sent = ([], []), cf_error = None,
      cf_submitting = False, cf_pushed = None\<rparr>"

text \<open>\<open>handleSubmit\<close> of either page, one call after the other; \<open>Refreshed\<close> is the end of \<open>refresh\<close>, which never throws.\<close>

datatype credentials_event =
  TypeCredentials string string string string
| SubmitCredentials
| RegisterSettled "web_error option"
| LoginSettled "web_error option"
| Refreshed

definition credentials_failed :: "web_error \<Rightarrow> credentials_form \<Rightarrow> credentials_form" where
  "credentials_failed err f =
     f\<lparr>cf_error := Some (error_message ''Something went wrong. Please try again.'' err), cf_submitting := False\<rparr>"

fun login_page_step :: "credentials_event \<Rightarrow> credentials_form \<Rightarrow> credentials_form \<times> api_call option" where
  "login_page_step (TypeCredentials n org e p) f = (f\<lparr>cf_email := e, cf_password := p\<rparr>, None)"
| "login_page_step SubmitCredentials f =
     (if cf_submitting f then (f, None)
      else (f\<lparr>cf_error := None, cf_submitting := True\<rparr>,
            Some (ApiLogin \<lparr>lg_email = cf_email f, lg_password = cf_password f\<rparr>)))"
| "login_page_step (RegisterSettled res) f = (f, None)"
| "login_page_step (LoginSettled res) f =
     (case res of Some err \<Rightarrow> (credentials_failed err f, None) | None \<Rightarrow> (f, Some ApiMe))"
| "login_page_step Refreshed f = (f\<lparr>cf_pushed := Some ''/dashboard'', cf_submitting := False\<rparr>, None)"

text \<open>
  The second call of a registration has the credentials of its first, those of the render it was
  submitted in: \<open>cf_sent\<close>.
\<close>

fun register_page_step ::
  "credentials_event \<Rightarrow> credentials_form \<Rightarrow> credentials_form \<times> api_call option" where
  "register_page_step (TypeCredentials n org e p) f =
     (f\<lparr>cf_displayName := n, cf_organizationName := org, cf_email := e, cf_password := p\<rparr>, None)"
| "register_page_step SubmitCredentials f =
     (if cf_submitting f then (f, None)
      else (f\<lparr>cf_error := None, cf_submitting := True, cf_sent := (cf_email f, cf_password f)\<rparr>,
            Some (ApiRegister \<lparr>rg_email = cf_email f, rg_password = cf_password f, rg_displayName = cf_displayName f,
              rg_organizationName = cf_organizationName f\<rparr>)))"
| "register_page_step (RegisterSettled res) f =
     (case res of
        Some err \<Rightarrow> (credentials_failed err f, None)
      | None \<Rightarrow> (f, Some (ApiLogin \<lparr>lg_email = fst (cf_sent f), lg_password = snd (cf_sent f)\<rparr>)))"
| "register_page_step (LoginSettled res) f =
     (case res of Some err \<Rightarrow> (credentials_failed err f, None) | None \<Rightarrow> (f, Some ApiMe))"
| "register_page_step Refreshed f = (f\<lparr>cf_pushed := Some ''/dashboard'', cf_submitting := False\<rparr>, None)"

section \<open>The current organization\<close>

text \<open>
  After the organizations were fetched, the current one is kept if it is still among them, else the
  stored one is taken, else the first; \<open>stored\<close> is what \<open>localStorage\<close> holds, or \<open>None\<close> where it holds
  nothing or throws.  An organization is its id, its name and the user's role in it.
\<close>

record organization_state =
  or_organizations :: "(uuid \<times> string \<times> membership_role) list option"
  or_error :: "string option"
  or_current :: "uuid option"

definition LAST_ORG_STORAGE_KEY :: string where
  "LAST_ORG_STORAGE_KEY = ''fulfillos.lastOrganizationId''"

definition organization_mounted :: organization_state where
  "organization_mounted = \<lparr>or_organizations = None, or_error = None, or_current = None\<rparr>"

definition choose_organization :: "uuid list \<Rightarrow> string option \<Rightarrow> uuid option \<Rightarrow> uuid option" where
  "choose_organization fetched stored previous =
     (let known = (\<lambda>v. case v of None \<Rightarrow> False | Some g \<Rightarrow> g \<noteq> [] \<and> g \<in> set fetched) in
      if known previous then previous
      else if known stored then stored
      else (case fetched of [] \<Rightarrow> None | g # _ \<Rightarrow> Some g))"

definition loadOrganizations ::
  "web_error + (uuid \<times> string \<times> membership_role) list \<Rightarrow> string option \<Rightarrow> organization_state \<Rightarrow> organization_state" where
  "loadOrganizations res stored st =
     (case res of
        Inr fetched \<Rightarrow>
          \<lparr>or_organizations = Some fetched, or_error = None,
           or_current = choose_organization (map fst fetched) stored (or_current st)\<rparr>
      | Inl err \<Rightarrow>
          st\<lparr>or_organizations := None, or_error := Some (error_message ''Could not load your organizations.'' err)\<rparr>)"

definition user_changed :: "public_user option \<Rightarrow> organization_state \<Rightarrow> organization_state" where
  \<comment> \<open>the reset during render when the user changes\<close>
  "user_changed user st = (if user = None then \<lparr>or_organizations = None, or_error = None, or_current = None\<rparr> else st)"

text \<open>\<open>switchOrganization\<close>, with what it stores; the switcher is shown from two organizations on and offers those.\<close>

definition switchOrganization :: "uuid \<Rightarrow> organization_state \<Rightarrow> organization_state \<times> (string \<times> string)" where
  "switchOrganization g st = (st\<lparr>or_current := Some g\<rparr>, (LAST_ORG_STORAGE_KEY, g))"

definition currentOrganization :: "organization_state \<Rightarrow> (uuid \<times> string \<times> membership_role) option" where
  "currentOrganization st =
     (case or_organizations st of
        None \<Rightarrow> None
      | Some gs \<Rightarrow> find (\<lambda>g. Some (fst g) = or_current st) gs)"

definition switcher_choices :: "organization_state \<Rightarrow> uuid list" where
  "switcher_choices st =
     (case or_organizations st of None \<Rightarrow> [] | Some gs \<Rightarrow> if length gs \<le> 1 then [] else map fst gs)"

datatype organization_event =
  OrganizationsSettled "web_error + (uuid \<times> string \<times> membership_role) list" "string option"
| UserChanged "public_user option"
| SwitchTo uuid

fun organization_step :: "organization_event \<Rightarrow> organization_state \<Rightarrow> organization_state \<times> (string \<times> string) option" where
  "organization_step (OrganizationsSettled res stored) st = (loadOrganizations res stored st, None)"
| "organization_step (UserChanged user) st = (user_changed user st, None)"
| "organization_step (SwitchTo g) st =
     (if g \<in> set (switcher_choices st) \<and> g \<noteq> [] then apsnd Some (switchOrganization g st) else (st, None))"

section \<open>The settings form\<close>

record settings_form =
  sf_name :: string
  sf_loadError :: "string option"
  sf_loaded :: bool
  sf_saveError :: "string option"
  sf_saveSuccess :: bool
  sf_saving :: bool

definition settings_mounted :: settings_form where
  "settings_mounted =
     \<lparr>sf_name = [], sf_loadError = None, sf_loaded = False, sf_saveError = None, sf_saveSuccess = False, sf_saving = False\<rparr>"

datatype settings_event =
  OrganizationSettled "web_error + string"
| TypeName string
| SubmitName
| RenameSettled "web_error option"

text \<open>A rename that succeeded calls \<open>onRenamed\<close>, which fetches the organizations again.\<close>

fun settings_step :: "string \<Rightarrow> membership_role \<Rightarrow> settings_event \<Rightarrow> settings_form \<Rightarrow> settings_form \<times> api_call option" where
  "settings_step g role (OrganizationSettled res) f =
     (case res of
        Inr name \<Rightarrow> f\<lparr>sf_name := name, sf_loaded := True\<rparr>
      | Inl err \<Rightarrow> if err = AbortError then f
          else f\<lparr>sf_loadError := Some (error_message ''Could not load this organization.'' err)\<rparr>, None)"
| "settings_step g role (TypeName s) f =
     (if sf_loadError f = None \<and> sf_loaded f \<and> role = Owner \<and> \<not> sf_saving f then f\<lparr>sf_name := s\<rparr> else f, None)"
| "settings_step g role SubmitName f =
     (if sf_loadError f = None \<and> sf_loaded f \<and> role = Owner \<and> \<not> sf_saving f
      then (f\<lparr>sf_saveError := None, sf_saveSuccess := False, sf_saving := True\<rparr>, Some (ApiRenameOrganization g (sf_name f)))
      else (f, None))"
| "settings_step g role (RenameSettled res) f =
     (case res of
        None \<Rightarrow> (f\<lparr>sf_saveSuccess := True, sf_saving := False\<rparr>, Some ApiListOrganizations)
      | Some err \<Rightarrow>
          (f\<lparr>sf_saveError := Some (error_message ''Could not rename this organization.'' err), sf_saving := False\<rparr>, None))"

section \<open>The current organization is the user's\<close>

definition my_organizations :: "db \<Rightarrow> uuid \<Rightarrow> (uuid \<times> string \<times> membership_role) list" where
  \<comment> \<open>the answer of \<open>GET /organizations\<close>\<close>
  "my_organizations d u = map (\<lambda>(m, g). (org_id g, org_name g, mem_role m)) (listForUser d u)"

text \<open>The current organization is one of those fetched, and once they are fetched there is one.\<close>

definition organization_ok :: "(uuid \<times> string \<times> membership_role) list \<Rightarrow> organization_state \<Rightarrow> bool" where
  "organization_ok gs st \<longleftrightarrow>
     (case or_current st of None \<Rightarrow> True | Some g \<Rightarrow> g \<in> fst ` set gs) \<and>
     (case or_organizations st of None \<Rightarrow> True | Some gs' \<Rightarrow> gs' = gs \<and> (or_current st = None \<longrightarrow> gs = []))"

lemma choose_organization_known:
  "choose_organization fetched stored previous = Some g \<Longrightarrow> g \<in> set fetched"
  "choose_organization fetched stored previous = None \<Longrightarrow> fetched = []"
  by (auto simp: choose_organization_def Let_def split: if_splits list.splits option.splits)

lemma switcher_choices_known:
  "organization_ok gs st \<Longrightarrow> g \<in> set (switcher_choices st) \<Longrightarrow> g \<in> fst ` set gs"
  by (auto simp: organization_ok_def switcher_choices_def split: option.splits if_splits)

definition fetched_as :: "(uuid \<times> string \<times> membership_role) list \<Rightarrow> organization_event \<Rightarrow> bool" where
  "fetched_as gs ev \<longleftrightarrow> (case ev of OrganizationsSettled (Inr fetched) stored \<Rightarrow> fetched = gs | _ \<Rightarrow> True)"

lemma organization_step_ok:
  assumes "organization_ok gs st" and "fetched_as gs ev"
  shows "organization_ok gs (fst (organization_step ev st))"
proof (cases ev)
  case (OrganizationsSettled res stored)
  show ?thesis
  proof (cases res)
    case (Inl err)
    then show ?thesis using assms(1) OrganizationsSettled by (simp add: organization_ok_def loadOrganizations_def)
  next
    case (Inr fetched)
    then have "fetched = gs" using assms(2) OrganizationsSettled by (simp add: fetched_as_def)
    then show ?thesis
      using OrganizationsSettled Inr choose_organization_known [of "map fst gs" stored "or_current st"]
      by (auto simp: organization_ok_def loadOrganizations_def split: option.split)
  qed
next
  case (UserChanged user)
  then show ?thesis using assms(1) by (simp add: organization_ok_def user_changed_def)
next
  case (SwitchTo g)
  then show ?thesis
    using assms(1) switcher_choices_known [OF assms(1), of g]
    by (auto simp: organization_ok_def switchOrganization_def split: option.splits)
qed

lemma organization_run_ok:
  "organization_ok gs st \<Longrightarrow> \<forall>ev \<in> set evs. fetched_as gs ev \<Longrightarrow> component_run organization_step evs st = (st', out) \<Longrightarrow>
   organization_ok gs st'"
proof (induction evs arbitrary: st out)
  case (Cons ev evs)
  obtain st1 sent st2 out2 where 1: "organization_step ev st = (st1, sent)" "component_run organization_step evs st1 = (st2, out2)"
    by fastforce
  have ok: "organization_ok gs st1" using organization_step_ok [of gs st ev] Cons.prems(1,2) 1 by simp
  have "component_run organization_step evs st1 = (st', out2)" using Cons.prems(3) by (simp add: 1)
  from Cons.IH [OF ok _ this] show ?case using Cons.prems(2) by simp
qed simp

text \<open>C34. The dashboard acts for an organization of the user: whatever is stored in the browser, and however the
  user switches and the organizations are fetched again, with the same answer, the current organization
  is one the user is a member of, so the API's membership check finds it, and when the list is there the
  role shown is the role of that membership.\<close>

theorem current_organization_member:
  assumes "reachable sha a d" and "\<forall>g \<in> set (organizations d). pg_uuid (org_id g) = org_id g"
    and "\<forall>ev \<in> set evs. fetched_as (my_organizations d u) ev"
    and "component_run organization_step evs organization_mounted = (st, out)"
    and "or_current st = Some g"
  shows "\<exists>m. getMembership d u g = Some m \<and>
    (or_organizations st \<noteq> None \<longrightarrow> (\<exists>name. currentOrganization st = Some (g, name, mem_role m)))"
proof -
  note db = api_okD(1) [OF reachable_ok [OF assms(1)]]
  have "organization_ok (my_organizations d u) organization_mounted"
    by (simp add: organization_ok_def organization_mounted_def)
  from organization_run_ok [OF this assms(3,4)] have ok: "organization_ok (my_organizations d u) st" .
  have member: "getMembership d u g' = Some m" if "(g', name, r) \<in> set (my_organizations d u)" "r = mem_role m"
      "m \<in> set (memberships d)" "mem_userId m = u" "mem_organizationId m = g'" for g' name r m
    using that assms(2) unfolding getMembership_iff [OF db] by (auto simp: my_organizations_def listForUser_iff)
  have listed: "\<exists>m. r = mem_role m \<and> getMembership d u g' = Some m" if "(g', name, r) \<in> set (my_organizations d u)" for g' name r
    using that member [OF that] by (auto simp: my_organizations_def listForUser_iff)
  from ok assms(5) obtain name r where found: "(g, name, r) \<in> set (my_organizations d u)"
    by (auto simp: organization_ok_def)
  then obtain m where m: "getMembership d u g = Some m" using listed by blast
  moreover have "\<exists>name. currentOrganization st = Some (g, name, mem_role m)" if "or_organizations st \<noteq> None"
  proof -
    have gs: "or_organizations st = Some (my_organizations d u)" using ok that by (auto simp: organization_ok_def split: option.splits)
    have "find (\<lambda>g'. Some (fst g') = or_current st) (my_organizations d u) \<noteq> None"
      using found assms(5) unfolding find_None_iff by force
    then obtain x where x: "find (\<lambda>g'. Some (fst g') = or_current st) (my_organizations d u) = Some x" by auto
    then have in_x: "x \<in> set (my_organizations d u)" "fst x = g" using assms(5) by (auto dest: find_Some_in)
    obtain name' r' where x': "x = (g, name', r')" using in_x(2) by (metis prod.collapse)
    then have "r' = mem_role m" using listed [of g name' r'] in_x(1) m by auto
    with x x' gs show ?thesis by (simp add: currentOrganization_def)
  qed
  ultimately show ?thesis by blast
qed

theorem current_organization_member_witness:
  "\<exists>st out m. component_run organization_step
      [UserChanged None, OrganizationsSettled (Inr (my_organizations db_reserved sample_user)) (Some ''zz''),
       OrganizationsSettled (Inl (ApiError 0 ''offline'' None)) None] organization_mounted = (st, out) \<and>
    or_current st = Some sample_org \<and> getMembership db_reserved sample_user sample_org = Some m"
proof -
  let ?evs = "[UserChanged None, OrganizationsSettled (Inr (my_organizations db_reserved sample_user)) (Some ''zz''),
       OrganizationsSettled (Inl (ApiError 0 ''offline'' None)) None]"
  let ?run = "component_run organization_step ?evs organization_mounted"
  have canonical: "\<forall>g \<in> set (organizations db_reserved). pg_uuid (org_id g) = org_id g" by code_simp
  have fetched: "\<forall>ev \<in> set ?evs. fetched_as (my_organizations db_reserved sample_user) ev" by (simp add: fetched_as_def)
  have current: "or_current (fst ?run) = Some sample_org" by code_simp
  show ?thesis
    using current_organization_member [OF reachable_reserved canonical fetched prod.collapse [symmetric] current] current
    by (metis prod.collapse)
qed

end
