(* ===== verification/Web_Pages.thy ===== *)
theory Web_Pages
  imports Web_Components Stock_Properties Dashboard
begin

text \<open>
  The pages that only show data: the overview (\<open>app/dashboard/overview/page.tsx\<close>), a product
  (\<open>app/dashboard/products/[productId]/product-detail-view.tsx\<close>), the badges
  (\<open>components/shared/status-badge.tsx\<close>) and the navigation (\<open>components/layout\<close>); and that the
  overview counts what the inventory page marks.
\<close>

section \<open>Badges\<close>

datatype badge_variant = DefaultBadge | SecondaryBadge | OutlineBadge | DestructiveBadge

definition ORDER_STATUS_LABEL :: "order_status \<Rightarrow> string" where
  "ORDER_STATUS_LABEL s = (case s of Pending \<Rightarrow> ''Pending'' | Fulfilled \<Rightarrow> ''Fulfilled'' | Cancelled \<Rightarrow> ''Cancelled'')"

definition ORDER_STATUS_VARIANT :: "order_status \<Rightarrow> badge_variant" where
  "ORDER_STATUS_VARIANT s =
     (case s of Pending \<Rightarrow> DefaultBadge | Fulfilled \<Rightarrow> SecondaryBadge | Cancelled \<Rightarrow> OutlineBadge)"

definition OrderStatusBadge :: "order_status \<Rightarrow> badge_variant \<times> string" where
  "OrderStatusBadge s = (ORDER_STATUS_VARIANT s, ORDER_STATUS_LABEL s)"

definition PRODUCT_STATUS_LABEL :: "product_status \<Rightarrow> string" where
  "PRODUCT_STATUS_LABEL s = (case s of Active \<Rightarrow> ''Active'' | Archived \<Rightarrow> ''Archived'')"

definition ProductStatusBadge :: "product_status \<Rightarrow> badge_variant \<times> string" where
  "ProductStatusBadge s = (if s = Active then SecondaryBadge else OutlineBadge, PRODUCT_STATUS_LABEL s)"

definition BADGE_LOW_STOCK_THRESHOLD :: int where
  "BADGE_LOW_STOCK_THRESHOLD = 5"

definition AvailabilityBadge :: "int \<Rightarrow> badge_variant \<times> string" where
  "AvailabilityBadge n =
     (if n \<le> 0 then (DestructiveBadge, ''Out of stock'')
      else if n \<le> BADGE_LOW_STOCK_THRESHOLD then (OutlineBadge, ''Low stock'')
      else (SecondaryBadge, ''In stock''))"

section \<open>The overview\<close>

definition fetchSummary :: "string \<Rightarrow> api_call option" where
  "fetchSummary g = (if g = [] then None else Some (ApiGetDashboardSummary g))"

datatype 'a page_event = DataSettled "web_error + 'a" | ClickRetryPage

fun overview_step :: "string \<Rightarrow> dashboard_summary page_event \<Rightarrow> dashboard_summary remote_view \<Rightarrow>
    dashboard_summary remote_view \<times> api_call option" where
  "overview_step g (DataSettled res) v =
     (remote_settled (error_message ''Could not load the dashboard summary.'') res v, None)"
| "overview_step g ClickRetryPage v =
     (if \<not> rv_loading v \<and> rv_error v \<noteq> None then (remote_reset v, fetchSummary g) else (v, None))"

definition metricsFrom :: "dashboard_summary \<Rightarrow> (string \<times> nat) list" where
  "metricsFrom s =
     [(''Total products'', totalProducts s), (''Pending orders'', pendingOrders s),
      (''Fulfilled orders'', fulfilledOrders s), (''Cancelled orders'', cancelledOrders s),
      (''Low-stock products'', lowStockProducts s)]"

text \<open>The cards of the overview; an organization without products is shown an invitation instead.\<close>

definition overview_cards :: "dashboard_summary remote_view \<Rightarrow> (string \<times> nat) list option" where
  "overview_cards v =
     (case remote_shown v of None \<Rightarrow> None | Some s \<Rightarrow> if totalProducts s > 0 then Some (metricsFrom s) else None)"

section \<open>A product\<close>

definition fetchProduct :: "string \<Rightarrow> string \<Rightarrow> api_call option" where
  "fetchProduct g pid = (if g = [] then None else Some (ApiGetProduct g pid))"

definition product_settled :: "web_error + product_detail \<Rightarrow> product_detail remote_view \<Rightarrow> product_detail remote_view" where
  "product_settled res v =
     remote_settled (not_found_message ''Product not found in this organization.'' ''Could not load this product.'') res v"

definition product_content :: "product_detail remote_view \<Rightarrow> (string + product_detail) option" where
  \<comment> \<open>\<open>None\<close> is the skeleton, \<open>Inl\<close> the error\<close>
  "product_content v =
     (if rv_loading v then None
      else (case (rv_error v, rv_data v) of
              (None, Some p) \<Rightarrow> Some (Inr p)
            | (Some m, _) \<Rightarrow> Some (Inl m)
            | (None, None) \<Rightarrow> Some (Inl ''Could not load this product.'')))"

section \<open>Navigation\<close>

definition NAV_ITEMS :: "(string \<times> string) list" where
  "NAV_ITEMS =
     [(''/dashboard/overview'', ''Overview''), (''/dashboard/products'', ''Products''),
      (''/dashboard/inventory'', ''Inventory''), (''/dashboard/orders'', ''Orders''),
      (''/dashboard/settings'', ''Settings'')]"

definition starts_with :: "string \<Rightarrow> string \<Rightarrow> bool" where
  "starts_with s p \<longleftrightarrow> take (length p) s = p"

definition nav_active :: "string \<Rightarrow> string \<Rightarrow> bool" where
  "nav_active pathname href \<longleftrightarrow> pathname = href \<or> starts_with pathname (href @ ''/'')"

section \<open>The overview counts what the inventory page marks\<close>

lemma one_product_per_row:
  assumes "db_ok d" and "r \<in> set (inventory d)"
  shows "\<exists>p. filter (\<lambda>p. inv_productId r = prod_id p) (products d) = [p]"
proof -
  have "distinct (map prod_id (products d))" using db_okD(4) [OF assms(1)] by (simp add: products_ok_def)
  moreover obtain p where "p \<in> set (products d)" "prod_id p = inv_productId r"
    using db_okD(5) [OF assms(1)] assms(2) by (auto simp: inventory_ok_def product_of_org_def)
  ultimately have "filter (\<lambda>p. inv_productId r = prod_id p) (products d) = [p]" by (intro filter_unique [where f = prod_id]) auto
  then show ?thesis ..
qed

lemma concat_singletons: "(\<And>x. x \<in> set xs \<Longrightarrow> f x = [h x]) \<Longrightarrow> concat (map f xs) = map h xs"
  by (induction xs) auto

lemma listInventory_rows:
  fixes collation :: "string \<Rightarrow> 'k::linorder"
  assumes "db_ok d"
  shows "length (filter P (map il_available (listInventory collation d g))) =
    length (filter (\<lambda>r. inv_organizationId r = pg_uuid g \<and> P (inv_onHand r - inv_reserved r)) (inventory d))"
proof -
  let ?rows = "filter (\<lambda>r. inv_organizationId r = pg_uuid g) (inventory d)"
  let ?join = "\<lambda>r. map (Pair r) (filter (\<lambda>p. inv_productId r = prod_id p) (products d))"
  let ?pair = "\<lambda>r. (r, hd (filter (\<lambda>p. inv_productId r = prod_id p) (products d)))"
  let ?available = "\<lambda>(r, p::product). inv_onHand r - inv_reserved r"
  have "?join r = [?pair r]" if "r \<in> set ?rows" for r
    using one_product_per_row [OF assms, of r] that by auto
  then have pairs: "concat (map ?join ?rows) = map ?pair ?rows" by (rule concat_singletons)
  have avail: "map il_available (listInventory collation d g) =
      map ?available (sort_key (\<lambda>(r, p). collation (prod_sku p)) (map ?pair ?rows))"
    unfolding listInventory_def pairs by (simp add: case_prod_unfold)
  have "length (filter P (map il_available (listInventory collation d g))) = length (filter (P \<circ> ?available) (map ?pair ?rows))"
    unfolding avail by (simp add: filter_map filter_sort)
  also have "\<dots> = length (filter (\<lambda>r. inv_organizationId r = pg_uuid g \<and> P (inv_onHand r - inv_reserved r)) (inventory d))"
    by (simp add: filter_map comp_def conj_commute)
  finally show ?thesis .
qed

lemma rows_of_products:
  assumes "books_ok d"
  shows "length (filter (\<lambda>r. inv_organizationId r = g) (inventory d)) = length (filter (\<lambda>p. prod_organizationId p = g) (products d))"
proof -
  note db = books_okD(1) [OF assms]
  let ?rows = "filter (\<lambda>r. inv_organizationId r = g) (inventory d)" and ?prods = "filter (\<lambda>p. prod_organizationId p = g) (products d)"
  have dist: "distinct (map inv_productId ?rows)" "distinct (map prod_id ?prods)"
    using db_okD(4,5) [OF db] by (simp_all add: inventory_ok_def products_ok_def distinct_map_filter)
  have "set (map inv_productId ?rows) = set (map prod_id ?prods)"
  proof (intro set_eqI iffI)
    fix i assume "i \<in> set (map inv_productId ?rows)"
    then show "i \<in> set (map prod_id ?prods)"
      using db_okD(5) [OF db] by (force simp: inventory_ok_def product_of_org_def)
  next
    fix i assume "i \<in> set (map prod_id ?prods)"
    then have "product_of_org d i g" by (auto simp: product_of_org_def)
    then show "i \<in> set (map inv_productId ?rows)" using stocked_row [OF assms] by force
  qed
  with dist show ?thesis by (metis distinct_card length_map)
qed

text \<open>C35. The overview and the inventory page agree: in every reachable database the summary's low-stock count
  is the number of inventory lines whose badge is not In stock, and its product count the number of
  lines, so the threshold of the badge is the API's.\<close>

theorem overview_matches_inventory:
  fixes collation :: "string \<Rightarrow> 'k::linorder"
  assumes "reachable sha a d"
  shows "lowStockProducts (getSummary d g) =
      length (filter (\<lambda>n. snd (AvailabilityBadge n) \<noteq> ''In stock'') (map il_available (listInventory collation d g))) \<and>
    totalProducts (getSummary d g) = length (listInventory collation d g)"
proof
  note books = api_okD(2) [OF reachable_ok [OF assms]]
  note db = books_okD(1) [OF books]
  have "snd (AvailabilityBadge n) \<noteq> ''In stock'' \<longleftrightarrow> n \<le> 5" for n
    by (simp add: AvailabilityBadge_def BADGE_LOW_STOCK_THRESHOLD_def)
  then show "lowStockProducts (getSummary d g) =
      length (filter (\<lambda>n. snd (AvailabilityBadge n) \<noteq> ''In stock'') (map il_available (listInventory collation d g)))"
    by (simp only: listInventory_rows [OF db]) (simp add: getSummary_def Let_def LOW_STOCK_THRESHOLD_def)
  have "length (listInventory collation d g) = length (filter (\<lambda>r. inv_organizationId r = pg_uuid g) (inventory d))"
    using listInventory_rows [OF db, of "\<lambda>_. True" collation g] by simp
  then show "totalProducts (getSummary d g) = length (listInventory collation d g)"
    using rows_of_products [OF books, of "pg_uuid g"] by (simp add: getSummary_def Let_def)
qed

theorem overview_matches_inventory_witness:
  "lowStockProducts (getSummary db_reserved sample_org) = 1 \<and>
   length (filter (\<lambda>n. snd (AvailabilityBadge n) \<noteq> ''In stock'') (map il_available (listInventory id db_reserved sample_org))) = 1"
proof -
  have "lowStockProducts (getSummary db_reserved sample_org) = 1" by code_simp
  with overview_matches_inventory [OF reachable_reserved, of sample_org id] show ?thesis by simp
qed

end
