(* ===== verification/Js_Number.thy ===== *)
theory Js_Number
  imports Complex_Main "HOL-Library.Log_Nat"
begin

text \<open>
  JavaScript's numbers where rounding matters: a rational rounded to the nearest double (53 significant
  bits, ties to even; the range of the exponent is left aside, which a price does not leave), and
  \<open>Math.round\<close>.
\<close>

definition round_even :: "rat \<Rightarrow> int" where
  "round_even m =
     (let f = \<lfloor>m\<rfloor>; r = m - of_int f
      in if r < 1 / 2 then f else if r > 1 / 2 then f + 1 else if even f then f else f + 1)"

text \<open>The exponent of a positive number: \<open>2 powi e \<le> x < 2 powi (e + 1)\<close>.\<close>

definition binary_exponent :: "rat \<Rightarrow> int" where
  "binary_exponent x =
     (let (n, d) = quotient_of x; e = bitlen n - bitlen d in if x < 2 powi e then e - 1 else e)"

definition round_double :: "rat \<Rightarrow> rat" where
  "round_double x =
     (if x = 0 then 0
      else let e = binary_exponent \<bar>x\<bar> - 52 in sgn x * of_int (round_even (\<bar>x\<bar> / 2 powi e)) * 2 powi e)"

definition Math_round :: "rat \<Rightarrow> int" where
  "Math_round x = \<lfloor>x + 1 / 2\<rfloor>"

lemma round_even_error: "\<bar>of_int (round_even m) - m\<bar> \<le> 1 / 2"
proof -
  have "of_int \<lfloor>m\<rfloor> \<le> m" "m < of_int \<lfloor>m\<rfloor> + 1" by linarith+
  then show ?thesis by (auto simp: round_even_def Let_def)
qed

lemma round_even_int: "round_even (of_int n) = n"
  by (simp add: round_even_def)

lemma bitlen_power:
  assumes "0 < n"
  shows "(2 :: rat) powi (bitlen n - 1) \<le> of_int n" and "of_int n < (2 :: rat) powi bitlen n"
proof -
  note b = bitlen_bounds [OF assms]
  have pos: "0 < bitlen n" using assms bitlen_nonneg [of n] bitlen_eq_zero_iff [of n] by linarith
  have "(2 :: rat) powi (bitlen n - 1) = of_int (2 ^ nat (bitlen n - 1))"
    using pos by (simp add: power_int_def)
  then show "(2 :: rat) powi (bitlen n - 1) \<le> of_int n" using b by (simp only: of_int_le_iff)
  have "(2 :: rat) powi bitlen n = of_int (2 ^ nat (bitlen n))" using pos by (simp add: power_int_def)
  then show "of_int n < (2 :: rat) powi bitlen n" using b by (simp only: of_int_less_iff)
qed

lemma binary_exponent_le:
  assumes "0 < x"
  shows "2 powi binary_exponent x \<le> x"
proof -
  obtain n d where q: "quotient_of x = (n, d)" by fastforce
  have d: "0 < d" using quotient_of_denom_pos [OF q] .
  have x: "x = of_int n / of_int d" using quotient_of_div [OF q] .
  then have n: "0 < n" using assms d by (simp add: zero_less_divide_iff)
  let ?e = "bitlen n - bitlen d"
  have "(2 :: rat) powi (?e - 1) * of_int d \<le> 2 powi (?e - 1) * 2 powi bitlen d"
    using bitlen_power(2) [OF d] by (intro mult_left_mono) auto
  also have "\<dots> = 2 powi (bitlen n - 1)" by (simp add: power_int_add [symmetric])
  also have "\<dots> \<le> of_int n" using bitlen_power(1) [OF n] .
  finally have "2 powi (?e - 1) \<le> x" using d by (simp add: x pos_le_divide_eq)
  then show ?thesis by (auto simp: binary_exponent_def q Let_def)
qed

text \<open>Rounding has a relative error of at most \<open>2 ^ - 53\<close>, and none on the integers up to \<open>2 ^ 53\<close>.\<close>

lemma round_double_error:
  assumes "0 \<le> x"
  shows "\<bar>round_double x - x\<bar> \<le> x / 2 ^ 53"
proof (cases "x = 0")
  case False
  let ?e = "binary_exponent x - 52"
  let ?m = "x / 2 powi ?e"
  from False assms have x: "0 < x" by simp
  have "2 powi binary_exponent x = (2 :: rat) powi ?e * 2 ^ 52"
    by (simp add: power_int_diff)
  then have "2 ^ 52 * 2 powi ?e \<le> x" using binary_exponent_le [OF x] by (simp only: mult.commute)
  then have m: "2 ^ 52 \<le> ?m" by (simp add: pos_le_divide_eq)
  have "round_double x - x = (of_int (round_even ?m) - ?m) * 2 powi ?e"
    using x by (simp add: round_double_def Let_def left_diff_distrib)
  then have "\<bar>round_double x - x\<bar> = \<bar>of_int (round_even ?m) - ?m\<bar> * 2 powi ?e" by (simp add: abs_mult)
  also have "\<dots> \<le> 1 / 2 * 2 powi ?e" using round_even_error by (intro mult_right_mono) auto
  also have "\<dots> \<le> ?m / 2 ^ 53 * 2 powi ?e"
  proof (rule mult_right_mono)
    show "1 / 2 \<le> ?m / 2 ^ 53" using divide_right_mono [OF m, of "2 ^ 53"] by simp
  qed simp
  also have "\<dots> = x / 2 ^ 53" by simp
  finally show ?thesis .
qed (simp add: round_double_def)

lemma round_double_nat:
  assumes "n \<le> 2 ^ 53"
  shows "round_double (of_nat n) = of_nat n"
proof (cases "n = 0")
  case False
  define e where "e = binary_exponent (of_nat n) - 52"
  have "0 < (of_nat n :: rat)" using False by simp
  then have low: "(2 :: rat) powi (e + 52) \<le> of_nat n" unfolding e_def using binary_exponent_le by simp
  have "\<exists>k. (of_nat n :: rat) / 2 powi e = of_int k"
  proof (cases "e \<le> 0")
    case True
    then have "(2 :: rat) powi (- e) = 2 ^ nat (- e)" by (simp add: power_int_def)
    moreover have "(of_nat n :: rat) / 2 powi e = of_nat n * 2 powi (- e)"
      by (simp only: power_int_minus divide_inverse)
    ultimately have "(of_nat n :: rat) / 2 powi e = of_int (int n * 2 ^ nat (- e))" by simp
    then show ?thesis ..
  next
    case False
    then have "(2 :: rat) powi 53 \<le> 2 powi (e + 52)" by (intro power_int_increasing) auto
    with low have "(2 :: rat) ^ 53 \<le> of_nat n" by simp
    then have "(of_nat (2 ^ 53) :: rat) \<le> of_nat n" by simp
    then have n: "n = 2 ^ 53" using assms by (simp only: of_nat_le_iff)
    have "e < 2"
    proof (rule ccontr)
      assume "\<not> e < 2"
      then have "(2 :: rat) powi 54 \<le> 2 powi (e + 52)" by (intro power_int_increasing) auto
      with low show False unfolding n by simp
    qed
    with False have "e = 1" by simp
    with n have "(of_nat n :: rat) / 2 powi e = of_int (2 ^ 52)" by simp
    then show ?thesis ..
  qed
  then obtain k where k: "(of_nat n :: rat) / 2 powi e = of_int k" ..
  have "round_double (of_nat n) = of_int k * 2 powi e"
    using False by (simp add: round_double_def Let_def e_def [symmetric] k round_even_int)
  also have "\<dots> = of_nat n" unfolding k [symmetric] by simp
  finally show ?thesis .
qed (simp add: round_double_def)

text \<open>Cents read from dollars: two roundings stay within half a cent up to any 32-bit amount.\<close>

lemma cents_exact:
  assumes "c < 2 ^ 32"
  shows "Math_round (round_double (round_double (of_nat c / 100) * 100)) = int c"
proof -
  let ?x = "of_nat c / 100 :: rat"
  let ?y = "round_double ?x" and ?z = "round_double (round_double ?x * 100)" and ?c = "of_nat c :: rat"
  have c: "0 \<le> ?c" "?c < 2 ^ 32" using assms by (simp_all flip: of_nat_power)
  have two: "(2 :: rat) ^ 53 = 9007199254740992" "(2 :: rat) ^ 32 = 4294967296" by simp_all
  have y: "?y - ?x \<le> ?x / 2 ^ 53" "?x - ?y \<le> ?x / 2 ^ 53"
    using round_double_error [of ?x] by (simp_all only: abs_le_iff minus_diff_eq)
  then have y0: "0 \<le> ?y" using c unfolding two by linarith
  have z: "?z - ?y * 100 \<le> ?y * 100 / 2 ^ 53" "?y * 100 - ?z \<le> ?y * 100 / 2 ^ 53"
    using round_double_error [of "?y * 100"] y0 by (simp_all only: abs_le_iff minus_diff_eq)
  have "?z - ?c < 1 / 2" "?c - ?z < 1 / 2" using y z c unfolding two by linarith+
  then have "?c \<le> ?z + 1 / 2" "?z + 1 / 2 < ?c + 1" by linarith+
  then have "\<lfloor>?z + 1 / 2\<rfloor> = int c" by (simp add: floor_eq_iff)
  then show ?thesis by (simp only: Math_round_def)
qed

end
