(* ===== verification/Web_Elements.thy ===== *)
theory Web_Elements
  imports Web_Pages Web_Account Js_Number
begin

text \<open>
  What a page of the web application renders, without its styling: the components of
  \<open>components/shared\<close> and \<open>components/ui\<close> a page puts together, the controls among them, and the parts
  every page has around it (\<open>app/nav-bar.tsx\<close>, \<open>app/dashboard/layout.tsx\<close>, \<open>components/layout\<close>).

  A control is a link with its target, a button with whether it is enabled, an input with its value, or
  a choice with its options.  The locale's number and date formats are the record \<open>locale_format\<close>.
\<close>

section \<open>Elements\<close>

datatype control =
  Link string string
| Button string bool
| Input string string bool
| Select string "(string \<times> string) list"

datatype cell = Text string | Badge "badge_variant \<times> string" | Act control

datatype element =
  PageHeader string "string option" "control list"
| Skeleton
| ErrorState string bool
| EmptyState string "string option" "control option"
| Table "string list" "cell list list"
| AlertBox string string
| Paragraph string
| Facts "(string \<times> string) list"
| Controls "control list"
| Card "string option" "string option" "(badge_variant \<times> string) option" "element list"
| Dialog string string "element list"

text \<open>The controls an element offers; \<open>ErrorState\<close> has a button where it was given \<open>onRetry\<close>.\<close>

definition cell_controls :: "cell \<Rightarrow> control list" where
  "cell_controls c = (case c of Act k \<Rightarrow> [k] | _ \<Rightarrow> [])"

fun offered_by :: "element \<Rightarrow> control list" where
  "offered_by (PageHeader t s actions) = actions"
| "offered_by (ErrorState m retry) = (if retry then [Button ''Try again'' True] else [])"
| "offered_by (EmptyState t s action) = (case action of None \<Rightarrow> [] | Some k \<Rightarrow> [k])"
| "offered_by (Table heads rows) = concat (map cell_controls (concat rows))"
| "offered_by (Controls ks) = ks"
| "offered_by (Card t s badge es) = concat (map offered_by es)"
| "offered_by (Dialog t s es) = concat (map offered_by es)"
| "offered_by _ = []"

definition offers :: "element list \<Rightarrow> control \<Rightarrow> bool" where
  "offers es k \<longleftrightarrow> k \<in> set (concat (map offered_by es))"

lemma offers_simps [simp]:
  "\<not> offers [] k" "offers (e # es) k \<longleftrightarrow> k \<in> set (offered_by e) \<or> offers es k"
  "offers (es @ fs) k \<longleftrightarrow> offers es k \<or> offers fs k"
  by (auto simp: offers_def)

lemma cell_controls_simps [simp]:
  "cell_controls (Text s) = []" "cell_controls (Badge b) = []" "cell_controls (Act k) = [k]"
  by (simp_all add: cell_controls_def)

text \<open>\<open>{condition && element}\<close>, and the paragraph of an error or another text that may be absent.\<close>

definition shown_if :: "bool \<Rightarrow> element \<Rightarrow> element list" where
  "shown_if b e = (if b then [e] else [])"

definition optional_paragraph :: "string option \<Rightarrow> element list" where
  "optional_paragraph m = (case m of None \<Rightarrow> [] | Some s \<Rightarrow> shown_if (s \<noteq> []) (Paragraph s))"

lemma offers_shown_if [simp]: "offers (shown_if b e) k \<longleftrightarrow> b \<and> k \<in> set (offered_by e)"
  by (simp add: shown_if_def)

lemma set_shown_if [simp]: "set (shown_if b e) = (if b then {e} else {})"
  by (simp add: shown_if_def)

lemma offers_optional_paragraph [simp]: "\<not> offers (optional_paragraph m) k"
  by (simp add: optional_paragraph_def split: option.split)

lemma optional_paragraph_inert: "e \<in> set (optional_paragraph m) \<Longrightarrow> offered_by e = []"
  by (auto simp: optional_paragraph_def split: option.splits if_splits)

definition PaginationControls :: "bool \<Rightarrow> bool \<Rightarrow> element list" where
  "PaginationControls hasPrevious hasNext =
     shown_if (hasPrevious \<or> hasNext) (Controls [Button ''Previous'' hasPrevious, Button ''Next'' hasNext])"

section \<open>Formats\<close>

record locale_format =
  lf_currency :: "rat \<Rightarrow> string"
  lf_date :: "js_date \<Rightarrow> string"

definition formatPrice :: "locale_format \<Rightarrow> int \<Rightarrow> string" where
  "formatPrice lf cents = lf_currency lf (round_double (of_int cents / 100))"

definition formatDate :: "locale_format \<Rightarrow> js_date \<Rightarrow> string" where
  "formatDate lf date = lf_date lf date"

text \<open>
  A message of the API is never empty, so \<open>error && ...\<close> shows every error: the text a failed call
  throws falls back to the status code.
\<close>

lemma response_message_nonempty: "response_message code json \<noteq> []"
  by (auto simp: response_message_def Let_def split: option.splits json.splits)

section \<open>Around every page\<close>

definition NavBar :: "string \<Rightarrow> auth_state \<Rightarrow> element list" where
  \<comment> \<open>the public pages' bar; the dashboard has a header of its own\<close>
  "NavBar pathname st =
     (if starts_with pathname ''/dashboard'' then []
      else Controls [Link ''/'' ''FulfillOS''] #
        (if au_loading st then []
         else (case au_user st of
                 Some user \<Rightarrow>
                   [Controls [Link ''/dashboard'' ''Dashboard''], Paragraph (pu_displayName user),
                    Controls [Button ''Log out'' True]]
               | None \<Rightarrow> [Controls [Link ''/login'' ''Log in'', Link ''/register'' ''Get started'']])))"

definition SidebarNav :: "string \<Rightarrow> (control \<times> bool) list" where
  \<comment> \<open>the links, each with whether it is the current page\<close>
  "SidebarNav pathname = map (\<lambda>(href, label). (Link href label, nav_active pathname href)) NAV_ITEMS"

definition OrgSwitcher :: "organization_state \<Rightarrow> element list" where
  "OrgSwitcher st =
     (case or_organizations st of
        None \<Rightarrow> []
      | Some gs \<Rightarrow>
          if length gs = 0 then []
          else if length gs = 1 then [Paragraph (fst (snd (hd gs)))]
          else [Controls [Select (case or_current st of None \<Rightarrow> [] | Some g \<Rightarrow> g) (map (\<lambda>g. (fst g, fst (snd g))) gs)]])"

definition UserMenu :: "auth_state \<Rightarrow> element list" where
  "UserMenu st =
     (case au_user st of
        None \<Rightarrow> []
      | Some user \<Rightarrow>
          [Paragraph (to_upper (take 1 (pu_displayName user))), Paragraph (pu_displayName user),
           Paragraph (pu_displayName user), Paragraph (pu_email user),
           Controls [Button ''Organization settings'' True, Button ''Log out'' True]])"

definition DashboardHeader :: "string \<Rightarrow> bool \<Rightarrow> organization_state \<Rightarrow> auth_state \<Rightarrow> element list" where
  \<comment> \<open>\<open>mobileNavOpen\<close> is the sheet's state; its navigation closes it\<close>
  "DashboardHeader pathname mobileNavOpen org st =
     Controls [Button ''Open navigation menu'' True] #
     shown_if mobileNavOpen (Dialog ''FulfillOS'' [] [Controls (map fst (SidebarNav pathname))]) @
     [Controls [Link ''/dashboard/overview'' ''FulfillOS'']] @ OrgSwitcher org @ UserMenu st"

definition DesktopSidebar :: "string \<Rightarrow> element list" where
  "DesktopSidebar pathname =
     [Controls [Link ''/dashboard/overview'' ''FulfillOS''], Controls (map fst (SidebarNav pathname))]"

definition DashboardLayout ::
  "string \<Rightarrow> bool \<Rightarrow> organization_state \<Rightarrow> auth_state \<Rightarrow> element list \<Rightarrow> element list" where
  "DashboardLayout pathname mobileNavOpen org st children =
     (if layout_shows_pages st
      then DesktopSidebar pathname @ DashboardHeader pathname mobileNavOpen org st @ children
      else [Paragraph ''Loading...''])"

text \<open>The static pages, and the index of the dashboard, which only redirects.\<close>

definition Home :: "element list" where
  "Home =
     [PageHeader ''Multi-tenant inventory & order management''
        (Some ''Organizations manage their own products, stock, and orders with strict tenant isolation.'') [],
      Controls [Link ''/register'' ''Create an organization'', Link ''/login'' ''Log in'']]"

definition ForbiddenPage :: "element list" where
  "ForbiddenPage =
     [PageHeader ''You don't have access to that''
        (Some (''Either this organization doesn't exist, or you're not a member of it. If you '' @
          ''believe this is a mistake, contact the organization's owner.'')) [],
      Controls [Link ''/dashboard'' ''Back to dashboard'']]"

definition DashboardIndexPage :: string where
  "DashboardIndexPage = ''/dashboard/overview''"

text \<open>A path is of one section of the dashboard at most.\<close>

lemma active_section:
  assumes "h \<in> fst ` set NAV_ITEMS" and "nav_active p h"
  shows "takeWhile (\<lambda>c. c \<noteq> CHR ''/'') (drop 11 p) = drop 11 h"
proof -
  have "p = h \<or> (\<exists>u. p = h @ ''/'' @ u)"
    using assms(2) unfolding nav_active_def starts_with_def by (metis append.assoc append_take_drop_id)
  then show ?thesis using assms(1) by (auto simp: NAV_ITEMS_def)
qed

lemma filter_key_le_one: "distinct (map f xs) \<Longrightarrow> length (filter (\<lambda>x. f x = c) xs) \<le> 1"
  by (induction xs) (auto simp: filter_empty_conv image_iff)

lemma one_active_item: "length (filter snd (SidebarNav pathname)) \<le> 1"
proof -
  let ?section = "takeWhile (\<lambda>c. c \<noteq> CHR ''/'') (drop 11 pathname)"
  have "length (filter snd (SidebarNav pathname)) = length (filter (\<lambda>i. nav_active pathname (fst i)) NAV_ITEMS)"
    by (simp add: SidebarNav_def filter_map comp_def case_prod_unfold)
  also have "\<dots> \<le> length (filter (\<lambda>i. drop 11 (fst i) = ?section) NAV_ITEMS)"
  proof -
    have "filter (\<lambda>i. nav_active pathname (fst i)) NAV_ITEMS =
        filter (\<lambda>i. nav_active pathname (fst i)) (filter (\<lambda>i. drop 11 (fst i) = ?section) NAV_ITEMS)"
      unfolding filter_filter by (intro filter_cong) (metis active_section imageI)+
    then show ?thesis by (metis length_filter_le)
  qed
  also have "\<dots> \<le> 1" by (rule filter_key_le_one) (simp add: NAV_ITEMS_def)
  finally show ?thesis .
qed

end
