(* ===== verification/Web_Listing.thy ===== *)
theory Web_Listing
  imports Web_Components
begin

text \<open>
  The listing pages (\<open>app/dashboard/products/page.tsx\<close>, \<open>app/dashboard/orders/page.tsx\<close>) and their
  pagination controls (\<open>components/shared/pagination-controls.tsx\<close>): a page of the listing, the
  stack of cursors that leads to it, and the buttons; then what browsing shows of a server's pages.

  The two pages differ in the call they send and in the message of an error that is not the API's,
  which are arguments here.
\<close>

section \<open>The state and its events\<close>

record 'a list_view = "'a cursor_page remote_view" +
  lv_cursorStack :: "string option list"

definition PAGE_SIZE :: int where
  "PAGE_SIZE = 20"

definition list_mounted :: "'a list_view" where
  "list_mounted = \<lparr>rv_data = None, rv_error = None, rv_loading = True, rv_pushed = None, lv_cursorStack = [None]\<rparr>"

definition currentCursor :: "'a list_view \<Rightarrow> string option" where
  "currentCursor v = (case rev (lv_cursorStack v) of [] \<Rightarrow> None | c # _ \<Rightarrow> c)"

definition cursor_key :: "string option \<Rightarrow> string" where
  \<comment> \<open>\<open>currentCursor ?? ''\<close>, what the cursor is in the request key\<close>
  "cursor_key c = (case c of None \<Rightarrow> [] | Some s \<Rightarrow> s)"

definition fetch_list ::
  "(string \<Rightarrow> int option \<Rightarrow> string option \<Rightarrow> api_call) \<Rightarrow> string \<Rightarrow> 'a list_view \<Rightarrow> api_call option" where
  "fetch_list list_call g v = (if g = [] then None else Some (list_call g (Some PAGE_SIZE) (currentCursor v)))"

text \<open>Changing the stack: the reset during render, and the effect that fetches again.\<close>

definition with_stack ::
  "(string \<Rightarrow> int option \<Rightarrow> string option \<Rightarrow> api_call) \<Rightarrow> string \<Rightarrow> string option list \<Rightarrow> 'a list_view \<Rightarrow>
   'a list_view \<times> api_call option" where
  "with_stack list_call g st v =
     (let v1 = v\<lparr>lv_cursorStack := st\<rparr>;
          v2 = (if cursor_key (currentCursor v1) \<noteq> cursor_key (currentCursor v) then remote_reset v1 else v1)
      in (v2, if currentCursor v1 \<noteq> currentCursor v then fetch_list list_call g v2 else None))"

definition reload ::
  "(string \<Rightarrow> int option \<Rightarrow> string option \<Rightarrow> api_call) \<Rightarrow> string \<Rightarrow> 'a list_view \<Rightarrow> 'a list_view \<times> api_call option" where
  "reload list_call g v = (let v1 = remote_reset v in (v1, fetch_list list_call g v1))"

text \<open>\<open>PaginationControls\<close>, shown with a page that has items.\<close>

definition has_previous :: "'a list_view \<Rightarrow> bool" where
  "has_previous v \<longleftrightarrow> length (lv_cursorStack v) > 1"

definition next_cursor :: "'a list_view \<Rightarrow> string option" where
  \<comment> \<open>a cursor that is not truthy is none\<close>
  "next_cursor v =
     (case rv_data v of None \<Rightarrow> None | Some page \<Rightarrow> if nextCursor page = Some [] then None else nextCursor page)"

definition controls_shown :: "'a list_view \<Rightarrow> bool" where
  "controls_shown v \<longleftrightarrow>
     (case remote_shown v of None \<Rightarrow> False | Some page \<Rightarrow> page_items page \<noteq> []) \<and>
     (has_previous v \<or> next_cursor v \<noteq> None)"

datatype 'a list_event = PageSettled "web_error + 'a cursor_page" | ClickNext | ClickPrevious | ClickRetry

fun list_step ::
  "(string \<Rightarrow> int option \<Rightarrow> string option \<Rightarrow> api_call) \<Rightarrow> string \<Rightarrow> string \<Rightarrow> 'a list_event \<Rightarrow> 'a list_view \<Rightarrow>
   'a list_view \<times> api_call option" where
  "list_step list_call fallback g (PageSettled res) v = (remote_settled (error_message fallback) res v, None)"
| "list_step list_call fallback g ClickNext v =
     (case (if controls_shown v then next_cursor v else None) of
        None \<Rightarrow> (v, None)
      | Some c \<Rightarrow> with_stack list_call g (lv_cursorStack v @ [Some c]) v)"
| "list_step list_call fallback g ClickPrevious v =
     (if controls_shown v \<and> has_previous v
      then with_stack list_call g (butlast (lv_cursorStack v)) v else (v, None))"
| "list_step list_call fallback g ClickRetry v =
     (if \<not> rv_loading v \<and> rv_error v \<noteq> None then reload list_call g v else (v, None))"

abbreviation products_page_step :: "string \<Rightarrow> product_summary list_event \<Rightarrow> product_summary list_view \<Rightarrow> product_summary list_view \<times> api_call option" where
  "products_page_step \<equiv> list_step ApiListProducts ''Could not load products.''"

abbreviation orders_page_step :: "string \<Rightarrow> order_summary list_event \<Rightarrow> order_summary list_view \<Rightarrow> order_summary list_view \<times> api_call option" where
  "orders_page_step \<equiv> list_step ApiListOrders ''Could not load orders.''"

section \<open>What the pages request\<close>

text \<open>The stack starts at the first page and never holds an empty cursor.\<close>

definition stack_ok :: "'a list_view \<Rightarrow> bool" where
  "stack_ok v \<longleftrightarrow> (\<exists>cs. lv_cursorStack v = None # map Some cs \<and> [] \<notin> set cs)"

lemma remote_frames:
  "lv_cursorStack (remote_reset v) = lv_cursorStack v"
  "lv_cursorStack (remote_settled message_of res v) = lv_cursorStack v"
  by (simp_all add: remote_reset_def remote_settled_def split: sum.split)

lemma with_stack_stack: "lv_cursorStack (fst (with_stack list_call g st v)) = st"
  by (simp add: with_stack_def Let_def remote_frames)

lemma currentCursor_reset [simp]: "currentCursor (remote_reset v) = currentCursor v"
  by (simp add: currentCursor_def remote_frames)

lemma with_stack_call:
  "snd (with_stack list_call g st v) = Some c \<Longrightarrow>
   c = list_call g (Some PAGE_SIZE) (currentCursor (fst (with_stack list_call g st v)))"
  by (auto simp: with_stack_def Let_def fetch_list_def split: if_splits)

lemma reload_call:
  "snd (reload list_call g v) = Some c \<Longrightarrow> c = list_call g (Some PAGE_SIZE) (currentCursor (fst (reload list_call g v)))"
  by (auto simp: reload_def Let_def fetch_list_def split: if_splits)

lemma next_cursor_nonempty: "next_cursor v \<noteq> Some []"
  by (auto simp: next_cursor_def split: option.splits if_splits)

lemma stack_ok_push:
  assumes "stack_ok v" and "next_cursor v = Some c" and "lv_cursorStack w = lv_cursorStack v @ [Some c]"
  shows "stack_ok w"
proof -
  obtain cs where "lv_cursorStack v = None # map Some cs" "[] \<notin> set cs" using assms(1) by (auto simp: stack_ok_def)
  with assms(2,3) next_cursor_nonempty [of v]
  have "lv_cursorStack w = None # map Some (cs @ [c])" "[] \<notin> set (cs @ [c])" by auto
  then show ?thesis unfolding stack_ok_def by blast
qed

lemma stack_ok_pop:
  assumes "stack_ok v" and "has_previous v" and "lv_cursorStack w = butlast (lv_cursorStack v)"
  shows "stack_ok w"
proof -
  from assms obtain cs where cs: "lv_cursorStack v = None # map Some cs" "[] \<notin> set cs" "cs \<noteq> []"
    by (auto simp: stack_ok_def has_previous_def)
  then have "lv_cursorStack w = None # map Some (butlast cs)" using assms(3) by (simp add: map_butlast)
  moreover have "[] \<notin> set (butlast cs)" using cs(2) by (auto dest: in_set_butlastD)
  ultimately show ?thesis by (auto simp: stack_ok_def)
qed

lemma currentCursor_last: "lv_cursorStack v = st @ [c] \<Longrightarrow> currentCursor v = c"
  by (simp add: currentCursor_def)

lemma currentCursor_nonempty:
  assumes "stack_ok v"
  shows "currentCursor v \<noteq> Some []"
proof -
  obtain cs where cs: "lv_cursorStack v = None # map Some cs" "[] \<notin> set cs" using assms by (auto simp: stack_ok_def)
  show ?thesis
  proof (cases cs rule: rev_cases)
    case (snoc ys y)
    with cs show ?thesis using currentCursor_last [of v "None # map Some ys" "Some y"] by auto
  qed (simp add: cs(1) currentCursor_def)
qed

definition list_call_ok ::
  "(string \<Rightarrow> int option \<Rightarrow> string option \<Rightarrow> api_call) \<Rightarrow> string \<Rightarrow> api_call \<Rightarrow> bool" where
  "list_call_ok list_call g c \<longleftrightarrow> (\<exists>cursor. c = list_call g (Some PAGE_SIZE) cursor \<and> cursor \<noteq> Some [])"

lemma list_step_stack:
  assumes "stack_ok v"
  shows "stack_ok (fst (list_step list_call fallback g ev v))"
proof (cases ev)
  case ClickNext
  then show ?thesis
    using assms stack_ok_push [OF assms, of _ "fst (list_step list_call fallback g ClickNext v)"]
    by (auto simp: with_stack_stack split: option.split)
next
  case ClickPrevious
  then show ?thesis
    using assms stack_ok_pop [OF assms, of "fst (list_step list_call fallback g ClickPrevious v)"]
    by (auto simp: with_stack_stack)
qed (use assms in \<open>auto simp: stack_ok_def remote_frames reload_def Let_def\<close>)

interpretation list_page:
  component "list_step list_call fallback g" stack_ok "list_call_ok list_call g"
proof
  fix v :: "'a list_view" and ev c
  assume v: "stack_ok v"
  show ok: "stack_ok (fst (list_step list_call fallback g ev v))" by (rule list_step_stack [OF v])
  assume sent: "snd (list_step list_call fallback g ev v) = Some c"
  then have "c = list_call g (Some PAGE_SIZE) (currentCursor (fst (list_step list_call fallback g ev v)))"
    by (cases ev) (auto dest: with_stack_call reload_call split: option.splits if_splits)
  then show "list_call_ok list_call g c" unfolding list_call_ok_def using currentCursor_nonempty [OF ok] by blast
qed

section \<open>Browsing\<close>

text \<open>
  A server's pages, each named by its cursor, and the chain a client finds by following them.  A click
  that sends a request is answered: by some errors, each followed by a click on Retry, and then by the
  page.
\<close>

fun cursor_at :: "(string option \<Rightarrow> 'a cursor_page) \<Rightarrow> nat \<Rightarrow> string option" where
  "cursor_at page 0 = None"
| "cursor_at page (Suc k) = nextCursor (page (cursor_at page k))"

fun answers ::
  "(string \<Rightarrow> int option \<Rightarrow> string option \<Rightarrow> api_call) \<Rightarrow> string \<Rightarrow> string \<Rightarrow> (string option \<Rightarrow> 'a cursor_page) \<Rightarrow>
   web_error list \<Rightarrow> 'a list_view \<Rightarrow> 'a list_view" where
  "answers list_call fallback g page [] v =
     fst (list_step list_call fallback g (PageSettled (Inr (page (currentCursor v)))) v)"
| "answers list_call fallback g page (err # errs) v =
     answers list_call fallback g page errs
       (fst (list_step list_call fallback g ClickRetry (fst (list_step list_call fallback g (PageSettled (Inl err)) v))))"

definition browse_click ::
  "(string \<Rightarrow> int option \<Rightarrow> string option \<Rightarrow> api_call) \<Rightarrow> string \<Rightarrow> string \<Rightarrow> (string option \<Rightarrow> 'a cursor_page) \<Rightarrow>
   bool \<times> web_error list \<Rightarrow> 'a list_view \<Rightarrow> 'a list_view" where
  "browse_click list_call fallback g page click v =
     (case list_step list_call fallback g (if fst click then ClickNext else ClickPrevious) v of
        (v1, None) \<Rightarrow> v1
      | (v1, Some c) \<Rightarrow> answers list_call fallback g page (snd click) v1)"

text \<open>The specification: the number of the page shown.\<close>

definition turn :: "(string option \<Rightarrow> 'a cursor_page) \<Rightarrow> bool \<Rightarrow> nat \<Rightarrow> nat" where
  "turn page forward k =
     (let p = page (cursor_at page k) in
      if page_items p = [] then k
      else if forward then (if nextCursor p \<in> {None, Some []} then k else Suc k)
      else k - 1)"

definition on_page :: "(string option \<Rightarrow> 'a cursor_page) \<Rightarrow> nat \<Rightarrow> 'a list_view \<Rightarrow> bool" where
  "on_page page k v \<longleftrightarrow>
     lv_cursorStack v = map (cursor_at page) [0..<Suc k] \<and> remote_shown v = Some (page (cursor_at page k))"

definition requested :: "(string option \<Rightarrow> 'a cursor_page) \<Rightarrow> nat \<Rightarrow> 'a list_view \<Rightarrow> bool" where
  "requested page k v \<longleftrightarrow>
     lv_cursorStack v = map (cursor_at page) [0..<Suc k] \<and> rv_loading v \<and> rv_error v = None"

definition retriable :: "web_error \<Rightarrow> bool" where
  "retriable err \<longleftrightarrow> err \<noteq> AbortError \<and> \<not> isSessionExpired err"

lemma chain_current: "lv_cursorStack v = map (cursor_at page) [0..<Suc k] \<Longrightarrow> currentCursor v = cursor_at page k"
  by (rule currentCursor_last [of _ "map (cursor_at page) [0..<k]"]) simp

lemma answers_on_page:
  assumes "requested page k v" and "\<forall>err \<in> set errs. retriable err"
  shows "on_page page k (answers list_call fallback g page errs v)"
  using assms
proof (induction errs arbitrary: v)
  case Nil
  then show ?case
    using chain_current [of v page k] by (simp add: requested_def on_page_def remote_settled_def remote_shown_def)
next
  case (Cons err errs)
  let ?w = "fst (list_step list_call fallback g ClickRetry (fst (list_step list_call fallback g (PageSettled (Inl err)) v)))"
  have "requested page k ?w"
    using Cons.prems
    by (simp add: requested_def retriable_def remote_settled_def reload_def Let_def remote_reset_def)
  with Cons show ?case by simp
qed

lemma shown_parts:
  "remote_shown v = Some p \<longleftrightarrow> \<not> rv_loading v \<and> rv_error v = None \<and> rv_data v = Some p"
  by (auto simp: remote_shown_def)

lemma with_stack_click:
  assumes "on_page page k v" and "st = map (cursor_at page) [0..<Suc j]" and "g \<noteq> []"
    and "cursor_at page k \<noteq> Some []" and "cursor_at page j \<noteq> Some []" and "\<forall>err \<in> set errs. retriable err"
  shows "on_page page j (case with_stack list_call g st v of (v1, None) \<Rightarrow> v1
    | (v1, Some c) \<Rightarrow> answers list_call fallback g page errs v1)"
proof -
  let ?v1 = "v\<lparr>lv_cursorStack := st\<rparr>"
  have v: "lv_cursorStack v = map (cursor_at page) [0..<Suc k]" "remote_shown v = Some (page (cursor_at page k))"
    using assms(1) by (simp_all add: on_page_def)
  have old: "currentCursor v = cursor_at page k" by (rule chain_current [OF v(1)])
  have new: "currentCursor ?v1 = cursor_at page j" by (rule chain_current) (simp add: assms(2))
  have key: "cursor_key (cursor_at page j) \<noteq> cursor_key (cursor_at page k) \<longleftrightarrow> cursor_at page j \<noteq> cursor_at page k"
    using assms(4,5) by (auto simp: cursor_key_def split: option.splits)
  show ?thesis
  proof (cases "cursor_at page j = cursor_at page k")
    case True
    then have "with_stack list_call g st v = (?v1, None)"
      by (simp add: with_stack_def Let_def old new)
    moreover have "on_page page j ?v1"
      using v(2) True unfolding on_page_def shown_parts by (simp add: assms(2))
    ultimately show ?thesis by simp
  next
    case False
    then have "with_stack list_call g st v = (remote_reset ?v1, Some (list_call g (Some PAGE_SIZE) (cursor_at page j)))"
      using assms(3) by (simp add: with_stack_def Let_def old new key fetch_list_def)
    moreover have "requested page j (remote_reset ?v1)"
      using assms(2) by (simp add: requested_def remote_reset_def)
    ultimately show ?thesis using answers_on_page [OF _ assms(6)] by simp
  qed
qed

lemma map_chain_butlast: "map (cursor_at page) [0..<Suc j] = butlast (map (cursor_at page) [0..<Suc (Suc j)])"
  by (simp add: butlast_append)

lemma browse_click_turn:
  assumes "on_page page k v" and "cursor_at page k \<noteq> Some []" and "g \<noteq> []" and "\<forall>err \<in> set (snd click). retriable err"
    and earlier: "\<And>j. j < k \<Longrightarrow> cursor_at page j \<noteq> Some []"
  shows "on_page page (turn page (fst click) k) (browse_click list_call fallback g page click v)"
proof -
  let ?p = "page (cursor_at page k)"
  have v: "lv_cursorStack v = map (cursor_at page) [0..<Suc k]" "\<not> rv_loading v" "rv_error v = None" "rv_data v = Some ?p"
    using assms(1) by (simp_all add: on_page_def shown_parts)
  have next_c: "next_cursor v = (if nextCursor ?p = Some [] then None else nextCursor ?p)"
    and prev: "has_previous v \<longleftrightarrow> 0 < k"
    and shown: "controls_shown v \<longleftrightarrow> page_items ?p \<noteq> [] \<and> (0 < k \<or> next_cursor v \<noteq> None)"
    using v by (simp_all add: next_cursor_def has_previous_def controls_shown_def remote_shown_def)
  show ?thesis
  proof (cases "fst click")
    case True
    show ?thesis
    proof (cases "page_items ?p = [] \<or> nextCursor ?p \<in> {None, Some []}")
      case False
      then obtain c where c: "nextCursor ?p = Some c" "c \<noteq> []" by auto
      let ?st = "lv_cursorStack v @ [Some c]"
      have st: "?st = map (cursor_at page) [0..<Suc (Suc k)]" using v(1) c by simp
      have "browse_click list_call fallback g page click v =
          (case with_stack list_call g ?st v of (v1, None) \<Rightarrow> v1 | (v1, Some x) \<Rightarrow> answers list_call fallback g page (snd click) v1)"
        using True False c by (simp add: browse_click_def shown next_c)
      moreover have "turn page (fst click) k = Suc k" using True False c by (simp add: turn_def)
      ultimately show ?thesis
        using with_stack_click [OF assms(1) st assms(3,2) _ assms(4)] c by simp
    qed (use True assms(1) in \<open>auto simp: browse_click_def shown next_c turn_def Let_def\<close>)
  next
    case back_click: False
    show ?thesis
    proof (cases "page_items ?p = [] \<or> k = 0")
      case False
      then obtain j where j: "k = Suc j" by (cases k) auto
      have st: "butlast (lv_cursorStack v) = map (cursor_at page) [0..<Suc j]"
        using v(1) map_chain_butlast [of page j] j by simp
      have "browse_click list_call fallback g page click v =
          (case with_stack list_call g (butlast (lv_cursorStack v)) v of (v1, None) \<Rightarrow> v1
           | (v1, Some x) \<Rightarrow> answers list_call fallback g page (snd click) v1)"
        using back_click False by (simp add: browse_click_def shown prev)
      moreover have "turn page (fst click) k = j" using back_click False j by (simp add: turn_def Let_def)
      ultimately show ?thesis
        using with_stack_click [OF assms(1) st assms(3,2) earlier assms(4)] j by simp
    qed (use back_click assms(1) in \<open>auto simp: browse_click_def shown prev turn_def Let_def\<close>)
  qed
qed

lemma browsing_shown:
  assumes "g \<noteq> []" and "\<forall>k. cursor_at page k \<noteq> Some []"
    and "\<forall>err \<in> set errs. retriable err" and "\<forall>click \<in> set clicks. \<forall>err \<in> set (snd click). retriable err"
  shows "on_page page (fold (\<lambda>click. turn page (fst click)) clicks 0)
    (fold (browse_click list_call fallback g page) clicks (answers list_call fallback g page errs list_mounted))"
proof -
  have "on_page page k v \<Longrightarrow> \<forall>click \<in> set clicks. \<forall>err \<in> set (snd click). retriable err \<Longrightarrow>
      on_page page (fold (\<lambda>click. turn page (fst click)) clicks k) (fold (browse_click list_call fallback g page) clicks v)"
    for k v
  proof (induction clicks arbitrary: k v)
    case (Cons click clicks)
    have "on_page page (turn page (fst click) k) (browse_click list_call fallback g page click v)"
      using Cons.prems assms(1,2) by (intro browse_click_turn) auto
    with Cons show ?case by simp
  qed simp
  moreover have "requested page 0 (list_mounted :: 'a list_view)" by (simp add: requested_def list_mounted_def)
  ultimately show ?thesis using answers_on_page [OF _ assms(3)] assms(4) by blast
qed

text \<open>C31. Browsing shows the server's pages: after any clicks on Next and Previous, with any failed requests in
  between that the user retries, the page shown is that of the server's chain of cursors at the number
  the clicks lead to, counting forward while there is a next page and back while there is one before.\<close>

theorem browsing_refines:
  assumes "g \<noteq> []" and "\<forall>k. cursor_at page k \<noteq> Some []"
    and "\<forall>err \<in> set errs. retriable err" and "\<forall>click \<in> set clicks. \<forall>err \<in> set (snd click). retriable err"
  shows "let k = fold (\<lambda>click. turn page (fst click)) clicks 0;
      v = fold (browse_click list_call fallback g page) clicks (answers list_call fallback g page errs list_mounted)
    in remote_shown v = Some (page (cursor_at page k)) \<and> (has_previous v \<longleftrightarrow> 0 < k) \<and>
      (next_cursor v \<noteq> None \<longleftrightarrow> nextCursor (page (cursor_at page k)) \<notin> {None, Some []})"
  using browsing_shown [OF assms, of list_call fallback]
  by (auto simp: Let_def on_page_def has_previous_def shown_parts next_cursor_def)

text \<open>Three pages of numbers; the user goes to the last one, fails twice on the way, and back.\<close>

definition sample_pages :: "string option \<Rightarrow> nat cursor_page" where
  "sample_pages c =
     (if c = None then \<lparr>page_items = [5, 4], nextCursor = Some ''a''\<rparr>
      else if c = Some ''a'' then \<lparr>page_items = [3, 2], nextCursor = Some ''b''\<rparr>
      else \<lparr>page_items = [1], nextCursor = None\<rparr>)"

definition sample_clicks :: "(bool \<times> web_error list) list" where
  "sample_clicks =
     [(False, []), (True, [ApiError 503 ''Request failed (503).'' None, ApiError 0 ''offline'' None]), (True, []), (True, []), (False, [])]"

lemma sample_chain: "cursor_at sample_pages k \<in> {None, Some ''a'', Some ''b''}"
proof (induction k)
  case (Suc k)
  then show ?case by (auto simp: sample_pages_def)
qed simp

theorem browsing_refines_witness:
  "remote_shown (fold (browse_click ApiListProducts ''Could not load products.'' ''ga'' sample_pages) sample_clicks
      (answers ApiListProducts ''Could not load products.'' ''ga'' sample_pages [] list_mounted)) =
   Some \<lparr>page_items = [3, 2], nextCursor = Some ''b''\<rparr>"
proof -
  have retry: "\<forall>click \<in> set sample_clicks. \<forall>err \<in> set (snd click). retriable err"
    by (simp add: sample_clicks_def retriable_def isSessionExpired_def)
  have "cursor_at sample_pages k \<noteq> Some []" for k using sample_chain [of k] by auto
  then have "let k = fold (\<lambda>click. turn sample_pages (fst click)) sample_clicks 0;
      v = fold (browse_click ApiListProducts ''Could not load products.'' ''ga'' sample_pages) sample_clicks
        (answers ApiListProducts ''Could not load products.'' ''ga'' sample_pages [] list_mounted)
    in remote_shown v = Some (sample_pages (cursor_at sample_pages k)) \<and> (has_previous v \<longleftrightarrow> 0 < k) \<and>
      (next_cursor v \<noteq> None \<longleftrightarrow> nextCursor (sample_pages (cursor_at sample_pages k)) \<notin> {None, Some []})"
    by (intro browsing_refines retry) auto
  moreover have "fold (\<lambda>click. turn sample_pages (fst click)) sample_clicks 0 = Suc 0" by code_simp
  ultimately show ?thesis by (simp add: Let_def sample_pages_def)
qed

end
