(* ===== verification/Web_Order_View.thy ===== *)
theory Web_Order_View
  imports Web_Components
begin

text \<open>
  The page of one order (\<open>app/dashboard/orders/[orderId]/order-detail-view.tsx\<close>) with its two
  confirmation dialogs (\<open>components/shared/confirm-dialog.tsx\<close>): fulfilling and cancelling, the reload
  after either, and what of an error the user sees.
\<close>

section \<open>The confirmation dialog\<close>

record confirm_dialog =
  cd_submitting :: bool
  cd_error :: "string option"

definition confirm_mounted :: confirm_dialog where
  "confirm_mounted = \<lparr>cd_submitting = False, cd_error = None\<rparr>"

text \<open>\<open>handleConfirm\<close> up to its \<open>await\<close>, and after it with the error's message.\<close>

definition confirm_started :: "confirm_dialog \<Rightarrow> confirm_dialog" where
  "confirm_started w = w\<lparr>cd_submitting := True, cd_error := None\<rparr>"

definition confirm_settled :: "string option \<Rightarrow> confirm_dialog \<Rightarrow> confirm_dialog" where
  "confirm_settled failure w =
     (case failure of
        None \<Rightarrow> w\<lparr>cd_submitting := False\<rparr>
      | Some message \<Rightarrow> w\<lparr>cd_error := Some message, cd_submitting := False\<rparr>)"

section \<open>The page\<close>

text \<open>One of the two transitions: whether its dialog is open, its key, and the dialog while it is rendered.\<close>

record transition_ui =
  tu_open :: bool
  tu_key :: key_hook
  tu_dialog :: "confirm_dialog option"

record order_view = "order_detail remote_view" +
  ov_conflictNotice :: "string option"
  ov_fulfill :: transition_ui
  ov_cancel :: transition_ui

datatype transition = FulfillOrder | CancelOrder

definition transition_ui_of :: "transition \<Rightarrow> order_view \<Rightarrow> transition_ui" where
  "transition_ui_of t v = (case t of FulfillOrder \<Rightarrow> ov_fulfill v | CancelOrder \<Rightarrow> ov_cancel v)"

definition update_transition :: "transition \<Rightarrow> (transition_ui \<Rightarrow> transition_ui) \<Rightarrow> order_view \<Rightarrow> order_view" where
  "update_transition t f v =
     (case t of FulfillOrder \<Rightarrow> v\<lparr>ov_fulfill := f (ov_fulfill v)\<rparr> | CancelOrder \<Rightarrow> v\<lparr>ov_cancel := f (ov_cancel v)\<rparr>)"

definition order_mounted :: "(transition \<Rightarrow> nat \<Rightarrow> string) \<Rightarrow> order_view" where
  "order_mounted keys =
     \<lparr>rv_data = None, rv_error = None, rv_loading = True, rv_pushed = None, ov_conflictNotice = None,
      ov_fulfill = \<lparr>tu_open = False, tu_key = useIdempotencyKey (keys FulfillOrder) 0, tu_dialog = None\<rparr>,
      ov_cancel = \<lparr>tu_open = False, tu_key = useIdempotencyKey (keys CancelOrder) 0, tu_dialog = None\<rparr>\<rparr>"

text \<open>What is rendered: the buttons and dialogs of a transition only while the order shown is pending.\<close>

definition shows_pending :: "order_view \<Rightarrow> bool" where
  "shows_pending v \<longleftrightarrow> (case remote_shown v of None \<Rightarrow> False | Some order \<Rightarrow> os_status order = Pending)"

definition render_transition :: "bool \<Rightarrow> transition_ui \<Rightarrow> transition_ui" where
  "render_transition pending u =
     u\<lparr>tu_dialog := (if pending then (case tu_dialog u of None \<Rightarrow> Some confirm_mounted | Some w \<Rightarrow> Some w) else None)\<rparr>"

definition order_render :: "order_view \<Rightarrow> order_view" where
  "order_render v =
     v\<lparr>ov_fulfill := render_transition (shows_pending v) (ov_fulfill v),
       ov_cancel := render_transition (shows_pending v) (ov_cancel v)\<rparr>"

definition fetchOrder :: "string \<Rightarrow> string \<Rightarrow> api_call option" where
  "fetchOrder g orderId = (if g = [] then None else Some (ApiGetOrder g orderId))"

definition transition_call :: "transition \<Rightarrow> string \<Rightarrow> string \<Rightarrow> string \<Rightarrow> api_call" where
  "transition_call t g orderId key =
     (case t of FulfillOrder \<Rightarrow> ApiFulfillOrder g orderId key | CancelOrder \<Rightarrow> ApiCancelOrder g orderId key)"

text \<open>
  \<open>handleFulfill\<close> and \<open>handleCancel\<close> after the call, within the \<open>handleConfirm\<close> that awaits them: the
  notice, the reload, and the dialog's own end.  \<open>errorText\<close> is the message of an error.
\<close>

definition transition_settled ::
  "(web_error \<Rightarrow> string) \<Rightarrow> transition \<Rightarrow> web_error option \<Rightarrow> order_view \<Rightarrow> order_view" where
  "transition_settled errorText t failure v =
     (let v1 = (case failure of
                  None \<Rightarrow> v\<lparr>ov_conflictNotice := None\<rparr>
                | Some (ApiError code message _) \<Rightarrow> if code = 409 then v\<lparr>ov_conflictNotice := Some message\<rparr> else v
                | Some _ \<Rightarrow> v);
          v2 = remote_reset v1
      in update_transition t (\<lambda>u. u\<lparr>tu_open := (failure \<noteq> None \<and> tu_open u),
           tu_dialog := map_option (confirm_settled (map_option errorText failure)) (tu_dialog u)\<rparr>) v2)"

datatype order_page_event =
  OrderSettled "web_error + order_detail"
| ClickTransition transition
| ClickConfirm transition
| DismissConfirm transition
| TransitionSettled transition "web_error option"

text \<open>An open dialog is modal: behind it nothing is clicked.\<close>

definition dialog_open :: "order_view \<Rightarrow> bool" where
  "dialog_open v \<longleftrightarrow> shows_pending v \<and> (tu_open (ov_fulfill v) \<or> tu_open (ov_cancel v))"

definition confirm_enabled :: "transition \<Rightarrow> order_view \<Rightarrow> bool" where
  "confirm_enabled t v \<longleftrightarrow>
     (let u = transition_ui_of t v in
      tu_open u \<and> (case tu_dialog u of None \<Rightarrow> False | Some w \<Rightarrow> \<not> cd_submitting w))"

fun order_view_event ::
  "(web_error \<Rightarrow> string) \<Rightarrow> (transition \<Rightarrow> nat \<Rightarrow> string) \<Rightarrow> string \<Rightarrow> string \<Rightarrow> order_page_event \<Rightarrow> order_view \<Rightarrow>
   order_view \<times> api_call option" where
  "order_view_event errorText keys g orderId (OrderSettled res) v =
     (remote_settled (not_found_message ''Order not found in this organization.'' ''Could not load this order.'') res v, None)"
| "order_view_event errorText keys g orderId (ClickTransition t) v =
     (if shows_pending v \<and> \<not> dialog_open v
      then update_transition t (\<lambda>u. u\<lparr>tu_key := renew (keys t) (tu_key u), tu_open := True\<rparr>) v else v, None)"
| "order_view_event errorText keys g orderId (ClickConfirm t) v =
     (if \<not> confirm_enabled t v then (v, None)
      else if g = [] then (update_transition t (\<lambda>u. u\<lparr>tu_open := False\<rparr>) v, None)
      else (update_transition t (\<lambda>u. u\<lparr>tu_dialog := map_option confirm_started (tu_dialog u)\<rparr>) v,
            Some (transition_call t g orderId (kh_key (tu_key (transition_ui_of t v))))))"
| "order_view_event errorText keys g orderId (DismissConfirm t) v =
     (if confirm_enabled t v then update_transition t (\<lambda>u. u\<lparr>tu_open := False\<rparr>) v else v, None)"
| "order_view_event errorText keys g orderId (TransitionSettled t failure) v =
     (transition_settled errorText t failure v, fetchOrder g orderId)"

definition order_view_step ::
  "(web_error \<Rightarrow> string) \<Rightarrow> (transition \<Rightarrow> nat \<Rightarrow> string) \<Rightarrow> string \<Rightarrow> string \<Rightarrow> order_page_event \<Rightarrow> order_view \<Rightarrow>
   order_view \<times> api_call option" where
  "order_view_step errorText keys g orderId ev v = apfst order_render (order_view_event errorText keys g orderId ev v)"

section \<open>What the page sends\<close>

lemma transition_ui_update:
  "transition_ui_of t (update_transition t' f v) = (if t = t' then f (transition_ui_of t v) else transition_ui_of t v)"
  by (cases t; cases t') (simp_all add: transition_ui_of_def update_transition_def)

lemma transition_ui_render:
  "transition_ui_of t (order_render v) = render_transition (shows_pending v) (transition_ui_of t v)"
  by (cases t) (simp_all add: transition_ui_of_def order_render_def)

lemma order_view_frames:
  "transition_ui_of t (remote_reset v) = transition_ui_of t v"
  "transition_ui_of t (remote_settled message_of res v) = transition_ui_of t v"
  "transition_ui_of t (v\<lparr>ov_conflictNotice := m\<rparr>) = transition_ui_of t v"
  by (cases t; simp add: transition_ui_of_def remote_reset_def remote_settled_def split: sum.split)+

lemma shows_pending_frames:
  "shows_pending (update_transition t f v) = shows_pending v" "shows_pending (order_render v) = shows_pending v"
  by (cases t) (simp_all add: shows_pending_def remote_shown_def update_transition_def order_render_def)

lemma shows_pending_reset: "\<not> shows_pending (remote_reset v)"
  by (simp add: shows_pending_def remote_shown_def remote_reset_def)

text \<open>
  The key of a transition is the one generated last, at the last opening of its dialog; a dialog is
  rendered exactly while the page shows a pending order.
\<close>

definition transition_ok :: "(nat \<Rightarrow> string) \<Rightarrow> transition_ui \<Rightarrow> bool" where
  "transition_ok ks u \<longleftrightarrow> 0 < kh_generated (tu_key u) \<and> kh_key (tu_key u) = ks (kh_generated (tu_key u) - 1)"

definition order_view_ok :: "(transition \<Rightarrow> nat \<Rightarrow> string) \<Rightarrow> order_view \<Rightarrow> bool" where
  "order_view_ok keys v \<longleftrightarrow>
     (\<forall>t. transition_ok (keys t) (transition_ui_of t v) \<and> (tu_dialog (transition_ui_of t v) \<noteq> None \<longleftrightarrow> shows_pending v))"

definition order_call_ok :: "(transition \<Rightarrow> nat \<Rightarrow> string) \<Rightarrow> string \<Rightarrow> string \<Rightarrow> api_call \<Rightarrow> bool" where
  "order_call_ok keys g orderId c \<longleftrightarrow>
     c = ApiGetOrder g orderId \<or> (\<exists>t n. c = transition_call t g orderId (keys t n))"

lemma transition_settled_shape:
  "transition_settled errorText t failure v =
     update_transition t (\<lambda>u. u\<lparr>tu_open := (failure \<noteq> None \<and> tu_open u),
       tu_dialog := map_option (confirm_settled (map_option errorText failure)) (tu_dialog u)\<rparr>)
     (remote_reset (v\<lparr>ov_conflictNotice := (case failure of None \<Rightarrow> None
        | Some (ApiError code message _) \<Rightarrow> if code = 409 then Some message else ov_conflictNotice v
        | Some _ \<Rightarrow> ov_conflictNotice v)\<rparr>))"
  by (auto simp: transition_settled_def Let_def split: option.split web_error.split)

lemma event_keys:
  assumes "transition_ok (keys t) (transition_ui_of t v)"
  shows "transition_ok (keys t) (transition_ui_of t (fst (order_view_event errorText keys g orderId ev v)))"
  using assms
  by (cases ev)
    (auto simp: transition_ui_update order_view_frames transition_settled_shape transition_ok_def renew_def)

interpretation order_page:
  component "order_view_step errorText keys g orderId" "order_view_ok keys" "order_call_ok keys g orderId"
proof
  fix v :: order_view and ev c
  assume v: "order_view_ok keys v"
  let ?v1 = "fst (order_view_event errorText keys g orderId ev v)"
  have "fst (order_view_step errorText keys g orderId ev v) = order_render ?v1"
    by (simp add: order_view_step_def)
  moreover have "transition_ok (keys t) (render_transition b (transition_ui_of t ?v1))" for t b
    using v event_keys [of keys t v] by (simp add: order_view_ok_def transition_ok_def render_transition_def)
  ultimately show "order_view_ok keys (fst (order_view_step errorText keys g orderId ev v))"
    by (auto simp: order_view_ok_def transition_ui_render shows_pending_frames)
      (auto simp: render_transition_def split: option.splits if_splits)
  assume "snd (order_view_step errorText keys g orderId ev v) = Some c"
  then have sent: "snd (order_view_event errorText keys g orderId ev v) = Some c" by (simp add: order_view_step_def)
  have "transition_ok (keys t) (transition_ui_of t v)" for t using v by (simp add: order_view_ok_def)
  with sent show "order_call_ok keys g orderId c"
    by (cases ev) (auto simp: order_call_ok_def fetchOrder_def transition_ok_def split: if_splits)
qed

lemma order_mounted_ok: "order_view_ok keys (order_mounted keys)"
proof -
  have "transition_ui_of t (order_mounted keys) =
      \<lparr>tu_open = False, tu_key = useIdempotencyKey (keys t) 0, tu_dialog = None\<rparr>" for t
    by (cases t) (simp_all add: transition_ui_of_def order_mounted_def)
  moreover have "\<not> shows_pending (order_mounted keys)"
    by (simp add: shows_pending_def remote_shown_def order_mounted_def)
  ultimately show ?thesis by (simp add: order_view_ok_def transition_ok_def useIdempotencyKey_def)
qed

lemma order_render_idle:
  assumes "order_view_ok keys v"
  shows "order_render v = v"
proof -
  have "render_transition (shows_pending v) (transition_ui_of t v) = transition_ui_of t v" for t
    using assms by (auto simp: order_view_ok_def render_transition_def split: option.split)
  from this [of FulfillOrder] this [of CancelOrder] show ?thesis
    by (simp add: order_render_def transition_ui_of_def)
qed

lemma confirm_shows_pending: "order_view_ok keys v \<Longrightarrow> confirm_enabled t v \<Longrightarrow> shows_pending v"
  by (auto simp: order_view_ok_def confirm_enabled_def Let_def split: option.splits)

section \<open>The page and its calls\<close>

text \<open>
  The page together with its calls that are under way: the user acts at any time, an answer arrives
  only for a call that was sent and not yet answered.  The first fetch is sent when the page is mounted.
\<close>

definition calls_of :: "api_call option \<Rightarrow> api_call list" where
  "calls_of sent = (case sent of None \<Rightarrow> [] | Some c \<Rightarrow> [c])"

fun from_user :: "order_page_event \<Rightarrow> bool" where
  "from_user (ClickTransition t) = True"
| "from_user (ClickConfirm t) = True"
| "from_user (DismissConfirm t) = True"
| "from_user _ = False"

inductive order_traffic ::
  "(web_error \<Rightarrow> string) \<Rightarrow> (transition \<Rightarrow> nat \<Rightarrow> string) \<Rightarrow> string \<Rightarrow> string \<Rightarrow> order_view \<Rightarrow> api_call list \<Rightarrow> bool"
  for errorText keys g orderId where
  mounted: "order_traffic errorText keys g orderId (order_mounted keys) (calls_of (fetchOrder g orderId))"
| user: "\<lbrakk> order_traffic errorText keys g orderId v inflight; from_user ev;
    order_view_step errorText keys g orderId ev v = (v', sent) \<rbrakk> \<Longrightarrow>
    order_traffic errorText keys g orderId v' (inflight @ calls_of sent)"
| fetched: "\<lbrakk> order_traffic errorText keys g orderId v inflight; ApiGetOrder g orderId \<in> set inflight;
    order_view_step errorText keys g orderId (OrderSettled res) v = (v', sent) \<rbrakk> \<Longrightarrow>
    order_traffic errorText keys g orderId v' (remove1 (ApiGetOrder g orderId) inflight @ calls_of sent)"
| settled: "\<lbrakk> order_traffic errorText keys g orderId v inflight; transition_call t g orderId key \<in> set inflight;
    order_view_step errorText keys g orderId (TransitionSettled t failure) v = (v', sent) \<rbrakk> \<Longrightarrow>
    order_traffic errorText keys g orderId v' (remove1 (transition_call t g orderId key) inflight @ calls_of sent)"

text \<open>
  At most one dialog is open, and at most one call is under way: a fetch, while the page is loading, or
  a transition, while its dialog is open, submitting, and the order is shown as pending.
\<close>

definition submitting :: "transition \<Rightarrow> order_view \<Rightarrow> bool" where
  "submitting t v \<longleftrightarrow> shows_pending v \<and> tu_open (transition_ui_of t v) \<and>
     (\<exists>w. tu_dialog (transition_ui_of t v) = Some w \<and> cd_submitting w)"

definition traffic_ok :: "(transition \<Rightarrow> nat \<Rightarrow> string) \<Rightarrow> string \<Rightarrow> string \<Rightarrow> order_view \<Rightarrow> api_call list \<Rightarrow> bool" where
  "traffic_ok keys g orderId v inflight \<longleftrightarrow>
     order_view_ok keys v \<and>
     (\<forall>t t'. tu_open (transition_ui_of t v) \<and> tu_open (transition_ui_of t' v) \<longrightarrow> t = t') \<and>
     (inflight = [] \<or> inflight = [ApiGetOrder g orderId] \<and> rv_loading v \<or>
      (\<exists>t key. inflight = [transition_call t g orderId key] \<and> g \<noteq> [] \<and> submitting t v))"

lemma transition_call_simps [simp]:
  "transition_call t g orderId key \<noteq> ApiGetOrder g' orderId'" "ApiGetOrder g' orderId' \<noteq> transition_call t g orderId key"
  "transition_call t g orderId key = transition_call t' g orderId key' \<longleftrightarrow> t = t' \<and> key = key'"
  by (cases t; cases t'; simp add: transition_call_def)+

lemma open_render [simp]: "tu_open (transition_ui_of t (order_render v)) = tu_open (transition_ui_of t v)"
  by (simp add: transition_ui_render render_transition_def)

lemma dialog_open_iff: "dialog_open v \<longleftrightarrow> shows_pending v \<and> (\<exists>t. tu_open (transition_ui_of t v))"
proof -
  have "(\<exists>t. tu_open (transition_ui_of t v)) \<longleftrightarrow> tu_open (ov_fulfill v) \<or> tu_open (ov_cancel v)"
    by (metis transition.exhaust transition.simps(3,4) transition_ui_of_def)
  then show ?thesis by (simp add: dialog_open_def)
qed

lemma loading_not_pending: "rv_loading v \<Longrightarrow> \<not> shows_pending v"
  by (simp add: shows_pending_def remote_shown_def)

lemma enabled_no_traffic:
  assumes "traffic_ok keys g orderId v inflight" and "confirm_enabled t v"
  shows "inflight = []"
proof -
  have "shows_pending v" using assms confirm_shows_pending by (auto simp: traffic_ok_def)
  moreover have "\<not> submitting t' v" for t'
    using assms by (cases "t' = t") (auto simp: traffic_ok_def confirm_enabled_def submitting_def Let_def split: option.splits)
  ultimately show ?thesis using assms(1) loading_not_pending by (auto simp: traffic_ok_def)
qed

lemma traffic_user:
  assumes ok: "traffic_ok keys g orderId v inflight" and "from_user ev"
    and st: "order_view_step errorText keys g orderId ev v = (v', sent)"
  shows "traffic_ok keys g orderId v' (inflight @ calls_of sent)"
proof -
  have v: "order_view_ok keys v" using ok by (simp add: traffic_ok_def)
  have v': "order_view_ok keys v'" using order_page.keeps [OF v, of errorText g orderId ev] by (simp add: st)
  note idle = order_render_idle [OF v]
  show ?thesis
  proof (cases ev)
    case (ClickTransition t)
    show ?thesis
    proof (cases "shows_pending v \<and> \<not> dialog_open v")
      case True
      have "inflight = []"
        using ok True loading_not_pending by (auto simp: traffic_ok_def submitting_def dialog_open_iff)
      with st True v' show ?thesis
        by (auto simp: ClickTransition order_view_step_def traffic_ok_def transition_ui_update dialog_open_iff calls_of_def
            split: if_splits)
    next
      case False
      with st have "v' = v \<and> sent = None" by (simp add: ClickTransition order_view_step_def idle)
      with ok show ?thesis by (simp add: calls_of_def)
    qed
  next
    case (ClickConfirm t)
    show ?thesis
    proof (cases "confirm_enabled t v")
      case True
      note none = enabled_no_traffic [OF ok True]
      obtain w where w: "tu_open (transition_ui_of t v)" "tu_dialog (transition_ui_of t v) = Some w"
        using True by (auto simp: confirm_enabled_def Let_def split: option.splits)
      note pending = confirm_shows_pending [OF v True]
      show ?thesis
      proof (cases "g = []")
        case True
        with st \<open>confirm_enabled t v\<close> v' ok none show ?thesis
          by (auto simp: ClickConfirm order_view_step_def traffic_ok_def transition_ui_update calls_of_def split: if_splits)
      next
        case False
        have sent: "sent = Some (transition_call t g orderId (kh_key (tu_key (transition_ui_of t v))))"
          and "v' = order_render (update_transition t (\<lambda>u. u\<lparr>tu_dialog := map_option confirm_started (tu_dialog u)\<rparr>) v)"
          using st False \<open>confirm_enabled t v\<close> by (auto simp: ClickConfirm order_view_step_def)
        then have ui: "transition_ui_of t' v' = (if t' = t
            then render_transition True (transition_ui_of t v\<lparr>tu_dialog := Some (confirm_started w)\<rparr>)
            else render_transition True (transition_ui_of t' v))" and "shows_pending v'" for t'
          using w pending by (simp_all add: transition_ui_render transition_ui_update shows_pending_frames)
        then have "submitting t v'" and "\<forall>t'. tu_open (transition_ui_of t' v') = tu_open (transition_ui_of t' v)"
          using w by (simp_all add: submitting_def render_transition_def confirm_started_def)
        then show ?thesis using sent False v' ok none by (auto simp: traffic_ok_def calls_of_def)
      qed
    next
      case False
      with st have "v' = v \<and> sent = None" by (simp add: ClickConfirm order_view_step_def idle)
      with ok show ?thesis by (simp add: calls_of_def)
    qed
  next
    case (DismissConfirm t)
    show ?thesis
    proof (cases "confirm_enabled t v")
      case True
      with st v' ok enabled_no_traffic [OF ok True] show ?thesis
        by (auto simp: DismissConfirm order_view_step_def traffic_ok_def transition_ui_update calls_of_def split: if_splits)
    next
      case False
      with st have "v' = v \<and> sent = None" by (simp add: DismissConfirm order_view_step_def idle)
      with ok show ?thesis by (simp add: calls_of_def)
    qed
  qed (use assms(2) in simp_all)
qed

lemma traffic_answer:
  assumes ok: "traffic_ok keys g orderId v inflight"
  shows "ApiGetOrder g orderId \<in> set inflight \<Longrightarrow>
      order_view_step errorText keys g orderId (OrderSettled res) v = (v', sent) \<Longrightarrow>
      traffic_ok keys g orderId v' (remove1 (ApiGetOrder g orderId) inflight @ calls_of sent)"
    and "transition_call t g orderId key \<in> set inflight \<Longrightarrow>
      order_view_step errorText keys g orderId (TransitionSettled t failure) v = (v', sent) \<Longrightarrow>
      sent = Some (ApiGetOrder g orderId) \<and> rv_loading v' \<and>
      traffic_ok keys g orderId v' (remove1 (transition_call t g orderId key) inflight @ calls_of sent)"
proof -
  have v: "order_view_ok keys v" using ok by (simp add: traffic_ok_def)
  {
    assume "ApiGetOrder g orderId \<in> set inflight"
      and st: "order_view_step errorText keys g orderId (OrderSettled res) v = (v', sent)"
    then have "inflight = [ApiGetOrder g orderId]" using ok by (auto simp: traffic_ok_def)
    moreover have "order_view_ok keys v'" using order_page.keeps [OF v, of errorText g orderId "OrderSettled res"] by (simp add: st)
    ultimately show "traffic_ok keys g orderId v' (remove1 (ApiGetOrder g orderId) inflight @ calls_of sent)"
      using st ok by (auto simp: order_view_step_def traffic_ok_def calls_of_def order_view_frames)
  }
  assume "transition_call t g orderId key \<in> set inflight"
    and st: "order_view_step errorText keys g orderId (TransitionSettled t failure) v = (v', sent)"
  then have one: "inflight = [transition_call t g orderId key]" and g: "g \<noteq> []" using ok by (auto simp: traffic_ok_def)
  have v': "v' = order_render (transition_settled errorText t failure v)" and sent: "sent = Some (ApiGetOrder g orderId)"
    using st g by (simp_all add: order_view_step_def fetchOrder_def)
  have "rv_loading (order_render (update_transition t f (remote_reset w)))" for f w
    by (cases t) (simp_all add: order_render_def update_transition_def remote_reset_def)
  then have loading: "rv_loading v'" by (simp add: v' transition_settled_shape)
  have "tu_open (transition_ui_of t' v') \<longrightarrow> tu_open (transition_ui_of t' v)" for t'
    by (auto simp: v' transition_settled_shape transition_ui_update order_view_frames)
  moreover have "order_view_ok keys v'"
    using order_page.keeps [OF v, of errorText g orderId "TransitionSettled t failure"] by (simp add: st)
  ultimately have "traffic_ok keys g orderId v' [ApiGetOrder g orderId]"
    using ok loading unfolding traffic_ok_def by blast
  with one sent loading show "sent = Some (ApiGetOrder g orderId) \<and> rv_loading v' \<and>
      traffic_ok keys g orderId v' (remove1 (transition_call t g orderId key) inflight @ calls_of sent)"
    by (simp add: calls_of_def)
qed

lemma order_traffic_ok: "order_traffic errorText keys g orderId v inflight \<Longrightarrow> traffic_ok keys g orderId v inflight"
proof (induction rule: order_traffic.induct)
  case mounted
  have "\<not> tu_open (transition_ui_of t (order_mounted keys))" for t
    by (cases t) (simp_all add: transition_ui_of_def order_mounted_def)
  then show ?case
    using order_mounted_ok by (simp add: traffic_ok_def calls_of_def fetchOrder_def) (simp add: order_mounted_def)
next
  case (user v inflight ev v' sent)
  then show ?case using traffic_user by blast
next
  case (fetched v inflight res v' sent)
  then show ?case using traffic_answer(1) by blast
next
  case (settled v inflight t key failure v' sent)
  then show ?case using traffic_answer(2) by blast
qed

text \<open>C29. The order page acts on pending orders only and does one thing at a time: however the user's
  actions and the answers interleave, at most one call is under way.  A call to fulfill or cancel is only
  ever sent by the confirmation in that transition's dialog, while the page shows the order as pending,
  no call is unanswered, for that order and with the key of the dialog's last opening; any other call is
  a fetch of the order.  Every answer to a transition, a failure as well, makes the page load the order
  again.\<close>

theorem order_page_transitions:
  assumes "order_traffic errorText keys g orderId v inflight"
  shows "length inflight \<le> 1 \<and>
    (\<forall>ev v' c. order_view_step errorText keys g orderId ev v = (v', Some c) \<longrightarrow>
       (\<exists>t failure. ev = TransitionSettled t failure \<and> c = ApiGetOrder g orderId) \<or>
       (\<exists>t. ev = ClickConfirm t \<and> inflight = [] \<and> shows_pending v \<and> tu_open (transition_ui_of t v) \<and>
          c = transition_call t g orderId (keys t (kh_generated (tu_key (transition_ui_of t v)) - 1)))) \<and>
    (\<forall>t key failure. transition_call t g orderId key \<in> set inflight \<longrightarrow>
       snd (order_view_step errorText keys g orderId (TransitionSettled t failure) v) = Some (ApiGetOrder g orderId) \<and>
       rv_loading (fst (order_view_step errorText keys g orderId (TransitionSettled t failure) v)))"
proof (intro conjI allI impI)
  note ok = order_traffic_ok [OF assms]
  have v: "order_view_ok keys v" using ok by (simp add: traffic_ok_def)
  show "length inflight \<le> 1" using ok by (auto simp: traffic_ok_def)
  show "(\<exists>t failure. ev = TransitionSettled t failure \<and> c = ApiGetOrder g orderId) \<or>
      (\<exists>t. ev = ClickConfirm t \<and> inflight = [] \<and> shows_pending v \<and> tu_open (transition_ui_of t v) \<and>
         c = transition_call t g orderId (keys t (kh_generated (tu_key (transition_ui_of t v)) - 1)))"
    if st: "order_view_step errorText keys g orderId ev v = (v', Some c)" for ev v' c
  proof (cases ev)
    case (ClickConfirm t)
    have on: "confirm_enabled t v" "c = transition_call t g orderId (kh_key (tu_key (transition_ui_of t v)))"
      using st by (auto simp: ClickConfirm order_view_step_def split: if_splits)
    moreover have "kh_key (tu_key (transition_ui_of t v)) = keys t (kh_generated (tu_key (transition_ui_of t v)) - 1)"
      using v unfolding order_view_ok_def transition_ok_def by blast
    ultimately show ?thesis
      using ClickConfirm enabled_no_traffic [OF ok on(1)] confirm_shows_pending [OF v on(1)]
      by (auto simp: confirm_enabled_def Let_def)
  qed (use st in \<open>auto simp: order_view_step_def fetchOrder_def split: if_splits\<close>)
  show "snd (order_view_step errorText keys g orderId (TransitionSettled t failure) v) = Some (ApiGetOrder g orderId)"
    and "rv_loading (fst (order_view_step errorText keys g orderId (TransitionSettled t failure) v))"
    if "transition_call t g orderId key \<in> set inflight" for t key failure
    using traffic_answer(2) [OF ok that prod.collapse [symmetric]] by blast+
qed

section \<open>What becomes of an error\<close>

text \<open>The page after a confirmed transition failed and the order was fetched again.\<close>

definition after_failure ::
  "(web_error \<Rightarrow> string) \<Rightarrow> (transition \<Rightarrow> nat \<Rightarrow> string) \<Rightarrow> string \<Rightarrow> string \<Rightarrow> transition \<Rightarrow> web_error \<Rightarrow> order_detail \<Rightarrow>
   order_view \<Rightarrow> order_view" where
  "after_failure errorText keys g orderId t err order v =
     fst (component_run (order_view_step errorText keys g orderId)
       [ClickConfirm t, TransitionSettled t (Some err), OrderSettled (Inr order)] v)"

lemma remote_render:
  "remote_shown (order_render v) = remote_shown v" "ov_conflictNotice (order_render v) = ov_conflictNotice v"
  "remote_shown (update_transition t f v) = remote_shown v" "ov_conflictNotice (update_transition t f v) = ov_conflictNotice v"
  by (cases t; simp add: remote_shown_def order_render_def update_transition_def)+

lemma remote_reloaded:
  "remote_shown (remote_settled message_of (Inr order) (order_render (update_transition t f (remote_reset v)))) = Some order"
  "ov_conflictNotice (remote_settled message_of res (order_render (update_transition t f (remote_reset v)))) = ov_conflictNotice v"
  by (cases t; simp add: remote_shown_def remote_settled_def order_render_def update_transition_def remote_reset_def
      split: sum.split)+

lemma after_failure_shows:
  fixes errorText keys orderId err order
  assumes "confirm_enabled t v" and "g \<noteq> []"
  defines "v' \<equiv> after_failure errorText keys g orderId t err order v"
  shows "remote_shown v' = Some order"
    and "ov_conflictNotice v' =
      (case err of ApiError code message _ \<Rightarrow> if code = 409 then Some message else ov_conflictNotice v | _ \<Rightarrow> ov_conflictNotice v)"
    and "transition_ui_of t v' = \<lparr>tu_open = True, tu_key = tu_key (transition_ui_of t v),
      tu_dialog = (if os_status order = Pending then Some confirm_mounted else None)\<rparr>"
proof -
  let ?u = "transition_ui_of t v"
  have opened: "tu_open ?u" using assms(1) by (simp add: confirm_enabled_def Let_def)
  define v1 where "v1 = order_render (update_transition t (\<lambda>u. u\<lparr>tu_dialog := map_option confirm_started (tu_dialog u)\<rparr>) v)"
  define v2 where "v2 = order_render (transition_settled errorText t (Some err) v1)"
  define v3 where "v3 = remote_settled (not_found_message ''Order not found in this organization.'' ''Could not load this order.'') (Inr order) v2"
  have v': "v' = order_render v3"
    using assms(1,2) unfolding v'_def after_failure_def v1_def v2_def v3_def
    by (simp add: order_view_step_def split: option.split)
  have shown: "remote_shown v3 = Some order"
    unfolding v3_def v2_def transition_settled_shape by (rule remote_reloaded(1))
  then show "remote_shown v' = Some order" by (simp add: v' remote_render)
  show "ov_conflictNotice v' =
      (case err of ApiError code message _ \<Rightarrow> if code = 409 then Some message else ov_conflictNotice v | _ \<Rightarrow> ov_conflictNotice v)"
    unfolding v' remote_render v3_def v2_def transition_settled_shape remote_reloaded(2) v1_def
    by (simp add: remote_render split: web_error.split)
  have "transition_ui_of t v2 = \<lparr>tu_open = True, tu_key = tu_key ?u, tu_dialog = None\<rparr>"
    using opened
    by (simp add: v2_def v1_def transition_settled_shape transition_ui_render transition_ui_update order_view_frames
        shows_pending_frames shows_pending_reset render_transition_def)
  then have "transition_ui_of t v3 = \<lparr>tu_open = True, tu_key = tu_key ?u, tu_dialog = None\<rparr>"
    by (simp add: v3_def order_view_frames)
  then show "transition_ui_of t v' = \<lparr>tu_open = True, tu_key = tu_key ?u,
      tu_dialog = (if os_status order = Pending then Some confirm_mounted else None)\<rparr>"
    by (simp add: v' transition_ui_render render_transition_def shows_pending_def shown)
qed

text \<open>A transition that fails without a conflict fails silently: when the server cannot be reached, forbids
  the transition or breaks, and the order is still pending when it is fetched again, the dialog is open
  again as it was first opened, without a message, and the page has no notice of the failure; the
  reload unmounted the dialog that was to show it.\<close>

theorem transition_error_lost:
  assumes "confirm_enabled t v" and "g \<noteq> []" and "\<forall>message body. err \<noteq> ApiError 409 message body"
    and "os_status order = Pending"
  shows "let v' = after_failure errorText keys g orderId t err order v in
    remote_shown v' = Some order \<and> ov_conflictNotice v' = ov_conflictNotice v \<and>
    transition_ui_of t v' = \<lparr>tu_open = True, tu_key = tu_key (transition_ui_of t v),
      tu_dialog = Some \<lparr>cd_submitting = False, cd_error = None\<rparr>\<rparr>"
proof -
  have "(case err of ApiError code message _ \<Rightarrow> if code = 409 then Some message else ov_conflictNotice v
      | _ \<Rightarrow> ov_conflictNotice v) = ov_conflictNotice v"
    using assms(3) by (cases err) auto
  then show ?thesis
    using after_failure_shows [OF assms(1,2), of errorText keys orderId err order] assms(4)
    by (simp add: Let_def confirm_mounted_def)
qed

definition sample_detail :: order_detail where
  "sample_detail =
     \<lparr>os_id = ''da'', os_status = Pending, os_currency = ''USD'', os_createdAt = 0, od_updatedAt = 0,
      od_cancelledAt = None, od_fulfilledAt = None, od_items = []\<rparr>"

definition sample_keys :: "transition \<Rightarrow> nat \<Rightarrow> string" where
  "sample_keys t n = (if t = FulfillOrder then CHR ''f'' else CHR ''c'') # replicate n CHR ''k''"

definition sample_order_run :: "order_view \<times> api_call list" where
  "sample_order_run =
     component_run (order_view_step (\<lambda>_. ''failed'') sample_keys ''ga'' ''da'')
       [OrderSettled (Inr sample_detail), ClickTransition FulfillOrder, ClickTransition CancelOrder,
        DismissConfirm FulfillOrder, ClickTransition CancelOrder] (order_mounted sample_keys)"

lemma sample_order_step:
  "order_view_step (\<lambda>_. ''failed'') sample_keys ''ga'' ''da'' (ClickConfirm CancelOrder) (fst sample_order_run) =
    (fst (order_view_step (\<lambda>_. ''failed'') sample_keys ''ga'' ''da'' (ClickConfirm CancelOrder) (fst sample_order_run)),
     Some (ApiCancelOrder ''ga'' ''da'' ''ck''))"
  by code_simp

lemma sample_order_traffic:
  "order_traffic (\<lambda>_. ''failed'') sample_keys ''ga'' ''da'' (fst sample_order_run) []"
proof -
  let ?step = "order_view_step (\<lambda>_. ''failed'') sample_keys ''ga'' ''da''"
  have user: "order_traffic (\<lambda>_. ''failed'') sample_keys ''ga'' ''da'' (fst (component_run ?step evs v)) []"
    if "order_traffic (\<lambda>_. ''failed'') sample_keys ''ga'' ''da'' v []" "list_all from_user evs"
      "snd (component_run ?step evs v) = []" for evs v
    using that
  proof (induction evs arbitrary: v)
    case (Cons ev evs)
    obtain v1 sent where st: "?step ev v = (v1, sent)" by fastforce
    with Cons.prems(3) have "sent = None" "snd (component_run ?step evs v1) = []"
      by (auto split: prod.splits option.splits)
    with order_traffic.user [OF Cons.prems(1) _ st] Cons.IH [of v1] Cons.prems(2) st show ?case
      by (simp add: calls_of_def split: prod.split)
  qed simp
  let ?v = "fst (?step (OrderSettled (Inr sample_detail)) (order_mounted sample_keys))"
  let ?evs = "[ClickTransition FulfillOrder, ClickTransition CancelOrder, DismissConfirm FulfillOrder, ClickTransition CancelOrder]"
  have "order_traffic (\<lambda>_. ''failed'') sample_keys ''ga'' ''da'' (order_mounted sample_keys) [ApiGetOrder ''ga'' ''da'']"
    using order_traffic.mounted [of "\<lambda>_. ''failed''" sample_keys "''ga''" "''da''"] by (simp add: fetchOrder_def calls_of_def)
  from order_traffic.fetched [OF this _ prod.collapse [symmetric], of "Inr sample_detail"]
  have "order_traffic (\<lambda>_. ''failed'') sample_keys ''ga'' ''da'' ?v []"
    by (simp add: order_view_step_def calls_of_def)
  moreover have "snd (component_run ?step ?evs ?v) = []" by code_simp
  ultimately have "order_traffic (\<lambda>_. ''failed'') sample_keys ''ga'' ''da'' (fst (component_run ?step ?evs ?v)) []"
    by (intro user) simp_all
  moreover have "fst sample_order_run = fst (component_run ?step ?evs ?v)"
    unfolding sample_order_run_def component_run.simps(2) [of ?step "OrderSettled (Inr sample_detail)"]
    by (simp add: split_def)
  ultimately show ?thesis by simp
qed

theorem order_page_transitions_witness:
  "shows_pending (fst sample_order_run) \<and> tu_open (transition_ui_of CancelOrder (fst sample_order_run)) \<and>
   (let v = fst (order_view_step (\<lambda>_. ''failed'') sample_keys ''ga'' ''da'' (ClickConfirm CancelOrder) (fst sample_order_run)) in
    snd (order_view_step (\<lambda>_. ''failed'') sample_keys ''ga'' ''da'' (TransitionSettled CancelOrder None) v) =
      Some (ApiGetOrder ''ga'' ''da''))"
proof -
  have "order_traffic (\<lambda>_. ''failed'') sample_keys ''ga'' ''da''
      (fst (order_view_step (\<lambda>_. ''failed'') sample_keys ''ga'' ''da'' (ClickConfirm CancelOrder) (fst sample_order_run)))
      [ApiCancelOrder ''ga'' ''da'' ''ck'']"
    using order_traffic.user [OF sample_order_traffic _ sample_order_step] by (simp add: calls_of_def)
  moreover have "transition_call CancelOrder ''ga'' ''da'' ''ck'' \<in> set [ApiCancelOrder ''ga'' ''da'' ''ck'']"
    by (simp add: transition_call_def)
  ultimately show ?thesis
    using order_page_transitions [OF sample_order_traffic] order_page_transitions sample_order_step
    unfolding Let_def by blast
qed

theorem transition_error_lost_witness:
  "let v' = after_failure (\<lambda>_. ''failed'') sample_keys ''ga'' ''da'' CancelOrder (ApiError 0 ''Could not reach the server.'' None)
       sample_detail (fst sample_order_run) in
   ov_conflictNotice v' = None \<and> tu_dialog (transition_ui_of CancelOrder v') = Some \<lparr>cd_submitting = False, cd_error = None\<rparr>"
proof -
  have "confirm_enabled CancelOrder (fst sample_order_run)" by code_simp
  moreover have "ov_conflictNotice (fst sample_order_run) = None" by code_simp
  moreover have "os_status sample_detail = Pending" by (simp add: sample_detail_def)
  ultimately show ?thesis
    using transition_error_lost [of CancelOrder "fst sample_order_run" "''ga''" "ApiError 0 ''Could not reach the server.'' None"
        sample_detail "\<lambda>_. ''failed''" sample_keys "''da''"]
    by (simp add: Let_def)
qed

end
