(* ===== verification/Web_Product_Form.thy ===== *)
theory Web_Product_Form
  imports Web_Components Js_Number
begin

text \<open>
  The page that creates a product (\<open>app/dashboard/products/new/page.tsx\<close>): its zod schema, the request
  made of the values, with the price in dollars turned into cents, and the errors.
\<close>

section \<open>The schema\<close>

record product_values =
  pv_sku :: string
  pv_name :: string
  pv_description :: string
  pv_priceDollars :: string
  pv_initialOnHand :: string

definition decimal_digit :: "char \<Rightarrow> bool" where
  "decimal_digit c \<longleftrightarrow> (of_char c :: nat) \<in> {48..57}"

definition decimal_digits :: "string \<Rightarrow> bool" where
  \<comment> \<open>\<open>^\\d+$\<close>\<close>
  "decimal_digits s \<longleftrightarrow> s \<noteq> [] \<and> list_all decimal_digit s"

definition price_format :: "string \<Rightarrow> bool" where
  \<comment> \<open>\<open>^\\d+(\\.\\d{1,2})?$\<close>\<close>
  "price_format s \<longleftrightarrow>
     decimal_digits (takeWhile decimal_digit s) \<and>
     (case dropWhile decimal_digit s of
        [] \<Rightarrow> True
      | c # cs \<Rightarrow> c = CHR ''.'' \<and> decimal_digits cs \<and> length cs \<le> 2)"

definition min_max :: "string \<Rightarrow> string \<Rightarrow> nat \<Rightarrow> nat \<Rightarrow> string \<Rightarrow> string \<Rightarrow> (string \<times> string) list" where
  \<comment> \<open>the issues of \<open>.min(lo, short)\<close> and \<open>.max(hi, long)\<close>\<close>
  "min_max field s lo hi short long =
     (if length s < lo then [(field, short)] else []) @ (if length s > hi then [(field, long)] else [])"

definition productFormSchema :: "product_values \<Rightarrow> (string \<times> string) list + product_values" where
  "productFormSchema values =
     (let v = \<lparr>pv_sku = js_trim (pv_sku values), pv_name = js_trim (pv_name values),
               pv_description = js_trim (pv_description values), pv_priceDollars = js_trim (pv_priceDollars values),
               pv_initialOnHand = js_trim (pv_initialOnHand values)\<rparr>;
          issues =
            min_max ''sku'' (pv_sku v) 1 64 ''SKU is required.'' ''SKU must be at most 64 characters.'' @
            min_max ''name'' (pv_name v) 1 200 ''Name is required.'' ''Name must be at most 200 characters.'' @
            min_max ''description'' (pv_description v) 0 2000 [] ''Description must be at most 2000 characters.'' @
            (if pv_priceDollars v = [] then [(''priceDollars'', ''Price is required.'')] else []) @
            (if price_format (pv_priceDollars v) then [] else [(''priceDollars'', ''Enter a valid price, e.g. 19.99.'')]) @
            (if pv_initialOnHand v = [] \<or> decimal_digits (pv_initialOnHand v) then [] else [(''initialOnHand'', ''Enter a whole number.'')])
      in if issues = [] then Inr v else Inl issues)"

section \<open>Numbers in the form\<close>

definition digits_nat :: "string \<Rightarrow> nat" where
  "digits_nat s = foldl (\<lambda>n c. 10 * n + (of_char c - 48)) 0 s"

text \<open>The amount in hundredths that a string of the price format writes.\<close>

definition price_cents :: "string \<Rightarrow> nat" where
  "price_cents s =
     100 * digits_nat (takeWhile decimal_digit s) +
     (case dropWhile decimal_digit s of [] \<Rightarrow> 0 | c # cs \<Rightarrow> if length cs = 1 then 10 * digits_nat cs else digits_nat cs)"

text \<open>\<open>Number\<close> of a decimal string: the double nearest to what it writes.\<close>

definition Number_of_price :: "string \<Rightarrow> rat" where
  "Number_of_price s = round_double (of_nat (price_cents s) / 100)"

definition Number_of_digits :: "string \<Rightarrow> rat" where
  "Number_of_digits s = round_double (of_nat (digits_nat s))"

section \<open>The request\<close>

definition product_input :: "product_values \<Rightarrow> create_product_dto" where
  "product_input values =
     \<lparr>cp_sku = pv_sku values, cp_name = pv_name values,
      cp_description = (if pv_description values = [] then None else Some (pv_description values)),
      cp_unitPriceCents = Math_round (round_double (Number_of_price (pv_priceDollars values) * 100)),
      cp_initialOnHand = (if pv_initialOnHand values = [] then None else Some \<lfloor>Number_of_digits (pv_initialOnHand values)\<rfloor>)\<rparr>"

record product_form =
  pf_errors :: "(string \<times> string) list"
  pf_isSubmitting :: bool
  pf_pushed :: "string option"

definition product_form_mounted :: product_form where
  "product_form_mounted = \<lparr>pf_errors = [], pf_isSubmitting = False, pf_pushed = None\<rparr>"

text \<open>\<open>handleSubmit(onSubmit)\<close> up to the call, and after it; a disabled button submits nothing.\<close>

definition product_submit :: "string \<Rightarrow> product_values \<Rightarrow> product_form \<Rightarrow> product_form \<times> api_call option" where
  "product_submit g values f =
     (if pf_isSubmitting f then (f, None)
      else (case productFormSchema values of
              Inl issues \<Rightarrow> (f\<lparr>pf_errors := issues\<rparr>, None)
            | Inr v \<Rightarrow>
                if g = [] then (f\<lparr>pf_errors := []\<rparr>, None)
                else (f\<lparr>pf_errors := [], pf_isSubmitting := True\<rparr>, Some (ApiCreateProduct g (product_input v)))))"

definition product_created :: "web_error + uuid \<Rightarrow> product_form \<Rightarrow> product_form" where
  "product_created res f =
     (case res of
        Inr pid \<Rightarrow> f\<lparr>pf_pushed := Some (''/dashboard/products/'' @ pid), pf_isSubmitting := False\<rparr>
      | Inl (ApiError code message _) \<Rightarrow>
          f\<lparr>pf_errors := [(if code = 409 then ''sku'' else ''root'', message)], pf_isSubmitting := False\<rparr>
      | Inl _ \<Rightarrow> f\<lparr>pf_errors := [(''root'', ''Could not create this product.'')], pf_isSubmitting := False\<rparr>)"

section \<open>What the form lets through\<close>

lemma min_max_Nil: "min_max field s lo hi short long = [] \<longleftrightarrow> lo \<le> length s \<and> length s \<le> hi"
  by (auto simp: min_max_def)

lemma productFormSchema_Inr:
  assumes "productFormSchema values = Inr v"
  shows "1 \<le> length (pv_sku v)" "length (pv_sku v) \<le> 64" "1 \<le> length (pv_name v)" "length (pv_name v) \<le> 200"
    "length (pv_description v) \<le> 2000" "price_format (pv_priceDollars v)"
    "pv_initialOnHand v = [] \<or> decimal_digits (pv_initialOnHand v)"
  using assms by (auto simp: productFormSchema_def Let_def min_max_Nil split: if_splits)

text \<open>C32. The form keeps its promise to the API: whatever the schema lets through, with a price and a stock
  within a 32-bit integer, becomes a request that the API's own validation accepts, and the numbers
  survive floating point: the cents are exactly the amount written, in spite of the two roundings of
  \<open>Number(price) * 100\<close>, and the initial stock is the number written.\<close>

theorem product_form_exact:
  assumes "productFormSchema values = Inr v"
    and "int (price_cents (pv_priceDollars v)) \<le> PG_INT4_MAX" and "int (digits_nat (pv_initialOnHand v)) \<le> PG_INT4_MAX"
  shows "create_product_valid (product_input v) \<and>
    cp_unitPriceCents (product_input v) = int (price_cents (pv_priceDollars v)) \<and>
    cp_initialOnHand (product_input v) =
      (if pv_initialOnHand v = [] then None else Some (int (digits_nat (pv_initialOnHand v))))"
proof -
  note ok = productFormSchema_Inr [OF assms(1)]
  have "price_cents (pv_priceDollars v) < 2 ^ 32" using assms(2) by (simp add: PG_INT4_MAX_def)
  then have price: "cp_unitPriceCents (product_input v) = int (price_cents (pv_priceDollars v))"
    using cents_exact by (simp add: product_input_def Number_of_price_def)
  have "digits_nat (pv_initialOnHand v) \<le> 2 ^ 53" using assms(3) by (simp add: PG_INT4_MAX_def)
  then have stock: "cp_initialOnHand (product_input v) =
      (if pv_initialOnHand v = [] then None else Some (int (digits_nat (pv_initialOnHand v))))"
    by (simp add: product_input_def Number_of_digits_def round_double_nat)
  have "create_product_valid (product_input v)"
    unfolding create_product_valid_def price stock using ok(1-5) assms(2,3) by (simp add: product_input_def)
  with price stock show ?thesis by blast
qed

definition sample_product_values :: product_values where
  "sample_product_values =
     \<lparr>pv_sku = '' A-1 '', pv_name = ''A'', pv_description = [], pv_priceDollars = ''19.9'', pv_initialOnHand = ''12''\<rparr>"

theorem product_form_exact_witness:
  "\<exists>v. productFormSchema sample_product_values = Inr v \<and> cp_unitPriceCents (product_input v) = 1990 \<and>
     cp_initialOnHand (product_input v) = Some 12"
proof -
  let ?v = "\<lparr>pv_sku = ''A-1'', pv_name = ''A'', pv_description = [], pv_priceDollars = ''19.9'', pv_initialOnHand = ''12''\<rparr>"
  have "productFormSchema sample_product_values = Inr ?v" by code_simp
  moreover have "price_cents (pv_priceDollars ?v) = 1990" "digits_nat (pv_initialOnHand ?v) = 12" by code_simp+
  ultimately show ?thesis
    using product_form_exact [of sample_product_values ?v] by (auto simp: PG_INT4_MAX_def)
qed

end
