(* ===== verification/Web_Views.thy ===== *)
theory Web_Views
  imports Web_Elements Web_Listing Web_Inventory Web_Order_View Web_Order_Form Web_Product_Form
begin

text \<open>
  What the pages of the dashboard render in each of their states, as elements of \<open>Web_Elements\<close>, and that
  what they react to is what they render: an event of a page's step function has an effect only where
  its control is offered and enabled.
\<close>

section \<open>The listing pages\<close>

text \<open>
  The shape both pages share: the skeleton, the error with its retry button, the invitation of an empty
  listing, and the table with its pagination controls.  A later page without items is none of these.
\<close>

definition list_content :: "element \<Rightarrow> string list \<Rightarrow> ('a \<Rightarrow> cell list) \<Rightarrow> 'a list_view \<Rightarrow> element list" where
  "list_content invitation heads row v =
     (if rv_loading v then [Skeleton]
      else (case rv_error v of
              Some m \<Rightarrow> [ErrorState m True]
            | None \<Rightarrow>
                (case rv_data v of
                   None \<Rightarrow> []
                 | Some page \<Rightarrow>
                     if page_items page = [] then shown_if (length (lv_cursorStack v) = 1) invitation
                     else Table heads (map row (page_items page)) #
                       PaginationControls (has_previous v) (next_cursor v \<noteq> None))))"

definition new_product_link :: control where
  "new_product_link = Link ''/dashboard/products/new'' ''New product''"

definition product_row :: "locale_format \<Rightarrow> product_summary \<Rightarrow> cell list" where
  "product_row lf p =
     [Act (Link (''/dashboard/products/'' @ ps_id p) (ps_name p)), Text (ps_sku p),
      Text (formatPrice lf (ps_unitPriceCents p)), Badge (ProductStatusBadge (ps_status p))]"

definition ProductsPage ::
  "locale_format \<Rightarrow> membership_role option \<Rightarrow> product_summary list_view \<Rightarrow> element list" where
  "ProductsPage lf role v =
     (let canCreate = (role = Some Owner) in
      PageHeader ''Products'' (Some ''Your organization's catalog.'') (if canCreate then [new_product_link] else []) #
      list_content
        (EmptyState ''No products yet''
          (Some (if canCreate then ''Create your first product to start tracking inventory.''
                 else ''This organization hasn't added any products yet.''))
          (if canCreate then Some new_product_link else None))
        [''Name'', ''SKU'', ''Price'', ''Status''] (product_row lf) v)"

definition new_order_link :: control where
  "new_order_link = Link ''/dashboard/orders/new'' ''New order''"

definition order_row :: "locale_format \<Rightarrow> order_summary \<Rightarrow> cell list" where
  "order_row lf o' =
     [Act (Link (''/dashboard/orders/'' @ os_id o') (take 8 (os_id o'))), Badge (OrderStatusBadge (os_status o')),
      Text (os_currency o'), Text (formatDate lf (os_createdAt o'))]"

definition OrdersPage :: "locale_format \<Rightarrow> order_summary list_view \<Rightarrow> element list" where
  "OrdersPage lf v =
     PageHeader ''Orders'' (Some ''Reservations and their fulfillment status.'') [new_order_link] #
     list_content
       (EmptyState ''No orders yet'' (Some ''Reserve stock against a product to create your first order.'')
         (Some new_order_link))
       [''Order'', ''Status'', ''Currency'', ''Created''] (order_row lf) v"

section \<open>The overview\<close>

definition create_product_link :: control where
  "create_product_link = Link ''/dashboard/products/new'' ''Create a product''"

definition metric_card :: "string \<times> nat \<Rightarrow> element" where
  "metric_card metric = Card (Some (fst metric)) None None [Paragraph (int_string (int (snd metric)))]"

definition OverviewPage :: "dashboard_summary remote_view \<Rightarrow> element list" where
  "OverviewPage v =
     PageHeader ''Overview'' (Some ''An operational summary of your organization.'') [] #
     (if rv_loading v then replicate 5 Skeleton
      else (case (rv_error v, rv_data v) of
              (Some m, _) \<Rightarrow> [ErrorState m True]
            | (None, None) \<Rightarrow> []
            | (None, Some summary) \<Rightarrow>
                if totalProducts summary = 0
                then [EmptyState ''Nothing here yet''
                        (Some ''Create your first product to start tracking inventory and orders.'')
                        (Some create_product_link)]
                else map metric_card (metricsFrom summary)))"

section \<open>A product\<close>

definition ProductDetailView :: "locale_format \<Rightarrow> product_detail remote_view \<Rightarrow> element list" where
  "ProductDetailView lf v =
     (case product_content v of
        None \<Rightarrow> [Skeleton, Skeleton]
      | Some (Inl m) \<Rightarrow> [ErrorState m False]
      | Some (Inr p) \<Rightarrow>
          [PageHeader (ps_name p) (Some (''SKU: '' @ ps_sku p)) [],
           Card (Some ''Details'') None (Some (ProductStatusBadge (ps_status p)))
             (optional_paragraph (pd_description p) @ [Facts [(''Price'', formatPrice lf (ps_unitPriceCents p))]]),
           Card (Some ''Inventory'') None (Some (AvailabilityBadge (pd_available p)))
             [Facts [(''On hand'', int_string (pd_onHand p)), (''Reserved'', int_string (pd_reserved p)),
                (''Available'', int_string (pd_available p))]]])"

section \<open>The inventory page\<close>

definition adjust_button :: control where
  "adjust_button = Button ''Adjust'' True"

definition inventory_row :: "bool \<Rightarrow> inventory_line \<Rightarrow> cell list" where
  "inventory_row canAdjust line =
     [Text (il_name line), Text (il_sku line), Text (int_string (il_onHand line)),
      Text (int_string (il_reserved line)), Text (int_string (il_available line)),
      Badge (AvailabilityBadge (il_available line))] @ (if canAdjust then [Act adjust_button] else [])"

text \<open>The dialog: the confirmation of a decrease, or the form.\<close>

definition decrease_notice :: "inventory_line \<Rightarrow> int \<Rightarrow> string" where
  "decrease_notice line delta =
     ''This will reduce on-hand stock by '' @ int_string \<bar>delta\<bar> @ '' unit'' @
     (if \<bar>delta\<bar> = 1 then [] else ''s'') @ '', to '' @ int_string (il_onHand line + delta) @
     ''. This cannot be undone from here. Continue?''"

definition AdjustInventoryDialog :: "(string \<Rightarrow> js_number) \<Rightarrow> inventory_line \<Rightarrow> adjust_dialog \<Rightarrow> element" where
  "AdjustInventoryDialog toNumber line w =
     Dialog (''Adjust stock -- '' @ il_name line)
       (''Currently '' @ int_string (il_onHand line) @ '' on hand, '' @ int_string (il_reserved line) @ '' reserved.'')
       (let idle = (\<not> adj_submitting w); applying = (\<lambda>label. if adj_submitting w then ''Applying...'' else label) in
        if adj_confirmingDecrease w
        then (case valid_delta toNumber w of None \<Rightarrow> [] | Some delta \<Rightarrow> [Paragraph (decrease_notice line delta)]) @
          optional_paragraph (adj_error w) @
          [Controls [Button ''Back'' idle, Button (applying ''Confirm decrease'') idle]]
        else [Controls [Input ''Change in on-hand quantity'' (adj_delta w) True],
              Paragraph ''A positive number restocks; a negative number corrects for shrinkage or loss.'',
              Controls [Input ''Reason'' (adj_reason w) True]] @
          optional_paragraph (adj_error w) @
          [Controls [Button ''Cancel'' idle,
             Button (applying ''Apply adjustment'') (valid_delta toNumber w \<noteq> None \<and> js_trim (adj_reason w) \<noteq> [] \<and> idle)]])"

definition InventoryPage ::
  "(string \<Rightarrow> js_number) \<Rightarrow> string \<Rightarrow> membership_role option \<Rightarrow> inventory_view \<Rightarrow> element list" where
  "InventoryPage toNumber g role v =
     (let canAdjust = (role = Some Owner) in
      PageHeader ''Inventory'' (Some ''Stock levels across your catalog.'') [] #
      (if rv_loading v then [Skeleton]
       else (case (rv_error v, rv_data v) of
               (Some m, _) \<Rightarrow> [ErrorState m True]
             | (None, None) \<Rightarrow> []
             | (None, Some lines) \<Rightarrow>
                 if lines = []
                 then [EmptyState ''No inventory yet'' (Some ''Inventory appears here once you create a product.'') None]
                 else [Table ([''Product'', ''SKU'', ''On hand'', ''Reserved'', ''Available'', ''Status''] @
                           (if canAdjust then [''Actions''] else []))
                         (map (inventory_row canAdjust) lines)])) @
      (case iv_adjusting v of
         None \<Rightarrow> []
       | Some (line, w) \<Rightarrow> if g = [] then [] else [AdjustInventoryDialog toNumber line w]))"

section \<open>One order\<close>

definition transition_label :: "transition \<Rightarrow> string" where
  "transition_label t = (case t of FulfillOrder \<Rightarrow> ''Fulfill order'' | CancelOrder \<Rightarrow> ''Cancel order'')"

text \<open>\<open>components/shared/confirm-dialog.tsx\<close>\<close>

definition ConfirmDialog :: "bool \<Rightarrow> string \<Rightarrow> string \<Rightarrow> string \<Rightarrow> confirm_dialog \<Rightarrow> element list" where
  "ConfirmDialog opened title description confirmLabel w =
     shown_if opened
       (Dialog title description
         (optional_paragraph (cd_error w) @
          [Controls [Button ''Cancel'' (\<not> cd_submitting w),
             Button (if cd_submitting w then ''Working...'' else confirmLabel) (\<not> cd_submitting w)]]))"

definition transition_dialog :: "transition \<Rightarrow> order_view \<Rightarrow> element list" where
  "transition_dialog t v =
     (let u = transition_ui_of t v in
      case tu_dialog u of
        None \<Rightarrow> []
      | Some w \<Rightarrow>
          ConfirmDialog (tu_open u)
            (case t of FulfillOrder \<Rightarrow> ''Fulfill this order?'' | CancelOrder \<Rightarrow> ''Cancel this order?'')
            (case t of FulfillOrder \<Rightarrow> ''This consumes the reserved stock permanently and cannot be undone.''
             | CancelOrder \<Rightarrow> ''This releases the reserved stock back to available inventory and cannot be undone.'')
            (transition_label t) w)"

definition item_row :: "locale_format \<Rightarrow> order_item_detail \<Rightarrow> cell list" where
  "item_row lf i =
     [Text (oid_name i), Text (oid_sku i), Text (int_string (oid_quantity i)), Text (formatPrice lf (oid_unitPriceCents i))]"

definition order_facts :: "locale_format \<Rightarrow> order_detail \<Rightarrow> (string \<times> string) list" where
  "order_facts lf order =
     (''Currency'', os_currency order) #
     (case od_fulfilledAt order of None \<Rightarrow> [] | Some t \<Rightarrow> [(''Fulfilled'', formatDate lf t)]) @
     (case od_cancelledAt order of None \<Rightarrow> [] | Some t \<Rightarrow> [(''Cancelled'', formatDate lf t)])"

definition order_content :: "locale_format \<Rightarrow> order_detail \<Rightarrow> order_view \<Rightarrow> element list" where
  "order_content lf order v =
     [PageHeader (''Order '' @ take 8 (os_id order)) (Some (''Created '' @ formatDate lf (os_createdAt order))) []] @
     (case ov_conflictNotice v of None \<Rightarrow> [] | Some m \<Rightarrow> shown_if (m \<noteq> []) (AlertBox ''This order changed'' m)) @
     [Card (Some ''Status'') None (Some (OrderStatusBadge (os_status order)))
        (Facts (order_facts lf order) #
         shown_if (os_status order = Pending)
           (Controls [Button (transition_label FulfillOrder) True, Button (transition_label CancelOrder) True])),
      Card (Some ''Items'') None None
        [Table [''Product'', ''SKU'', ''Quantity'', ''Unit price''] (map (item_row lf) (od_items order))]] @
     (if os_status order = Pending then transition_dialog FulfillOrder v @ transition_dialog CancelOrder v else [])"

definition OrderDetailView :: "locale_format \<Rightarrow> order_view \<Rightarrow> element list" where
  "OrderDetailView lf v =
     (if rv_loading v then [Skeleton, Skeleton]
      else (case (rv_error v, rv_data v) of
              (None, Some order) \<Rightarrow> order_content lf order v
            | (Some m, _) \<Rightarrow> [ErrorState m False]
            | (None, None) \<Rightarrow> [ErrorState ''Could not load this order.'' False]))"

end
