(* ===== verification/Web_Form_Views.thy ===== *)
theory Web_Form_Views
  imports Web_Elements Web_Order_Form Web_Product_Form
begin

text \<open>
  What the forms of the web application render: creating an order, creating a product, the settings,
  logging in and registering.
\<close>

section \<open>Creating an order\<close>

text \<open>The picker: what it offers, or why it offers nothing.\<close>

definition product_choice :: "product_summary \<Rightarrow> string \<times> string" where
  "product_choice p = (ps_id p, ps_name p @ '' ('' @ ps_sku p @ '')'')"

definition product_picker :: "product_summary list \<Rightarrow> order_form \<Rightarrow> element list" where
  "product_picker ps f =
     Controls [Select (of_selected f) (map product_choice (availableProducts f))] #
     shown_if (availableProducts f = [])
       (Paragraph (if ps = [] then ''No products in this organization yet.''
                   else ''Every product is already on this order.''))"

definition line_row :: "order_form \<Rightarrow> reservation_item \<Rightarrow> cell list" where
  "line_row f line =
     [Text (productName f (productId line)), Text (int_string (quantity line)),
      Act (Button (''Remove '' @ productName f (productId line)) True)]"

definition NewOrderPage :: "order_form \<Rightarrow> element list" where
  "NewOrderPage f =
     (case of_loadError f of
        Some m \<Rightarrow> [PageHeader ''New order'' None [], ErrorState m False]
      | None \<Rightarrow>
          PageHeader ''New order'' (Some ''Reserve stock across one or more products.'') [] #
          (case of_products f of
             None \<Rightarrow> [Skeleton]
           | Some ps \<Rightarrow>
               [Card (Some ''Add a line'') None None
                  (product_picker ps f @
                   [Controls [Input ''Quantity'' (of_quantity f) True,
                      Button ''Add line'' (availableProducts f \<noteq> [])]] @
                   optional_paragraph (of_addLineError f)),
                Card (Some ''Order lines'') None None
                  [if of_lines f = [] then Paragraph ''No lines added yet.''
                   else Table [''Product'', ''Quantity'', []] (map (line_row f) (of_lines f))]] @
               optional_paragraph (of_submitError f) @
               [Controls [Button (if of_submitting f then ''Reserving...'' else ''Create order'')
                  (\<not> (of_lines f = [] \<or> of_submitting f))]]))"

section \<open>Creating a product\<close>

definition field_error :: "string \<Rightarrow> product_form \<Rightarrow> element list" where
  "field_error field f = optional_paragraph (map_of (pf_errors f) field)"

definition NewProductPage :: "product_values \<Rightarrow> product_form \<Rightarrow> element list" where
  "NewProductPage values f =
     [PageHeader ''New product'' (Some ''Define a product and its starting stock.'') [],
      Card None None None
        ([Controls [Input ''SKU'' (pv_sku values) True]] @ field_error ''sku'' f @
         [Controls [Input ''Name'' (pv_name values) True]] @ field_error ''name'' f @
         [Controls [Input ''Description (optional)'' (pv_description values) True]] @ field_error ''description'' f @
         [Controls [Input ''Price (USD)'' (pv_priceDollars values) True]] @ field_error ''priceDollars'' f @
         [Controls [Input ''Initial stock (optional)'' (pv_initialOnHand values) True]] @ field_error ''initialOnHand'' f @
         field_error ''root'' f @
         [Controls [Button (if pf_isSubmitting f then ''Creating...'' else ''Create product'') (\<not> pf_isSubmitting f)]])]"

section \<open>Settings\<close>

definition OrganizationNameForm :: "membership_role \<Rightarrow> settings_form \<Rightarrow> element list" where
  "OrganizationNameForm role f =
     (case sf_loadError f of
        Some m \<Rightarrow> [ErrorState m False]
      | None \<Rightarrow>
          [Card (Some ''General'')
             (Some (if role = Owner then ''Update your organization's display name.''
                    else ''Only an organization's owner can rename it.'')) None
             (if \<not> sf_loaded f then [Skeleton]
              else Controls [Input ''Organization name'' (sf_name f) (role = Owner \<and> \<not> sf_saving f)] #
                optional_paragraph (sf_saveError f) @ shown_if (sf_saveSuccess f) (Paragraph ''Saved.'') @
                shown_if (role = Owner)
                  (Controls [Button (if sf_saving f then ''Saving...'' else ''Save'') (\<not> sf_saving f)]))])"

definition SettingsPage :: "organization_state \<Rightarrow> settings_form \<Rightarrow> element list" where
  "SettingsPage st f =
     PageHeader ''Organization settings'' None [] #
     (case currentOrganization st of
        Some (g, name, role) \<Rightarrow> if g = [] then [Skeleton] else OrganizationNameForm role f
      | None \<Rightarrow> [Skeleton])"

section \<open>Logging in and registering\<close>

definition LoginPage :: "credentials_form \<Rightarrow> element list" where
  "LoginPage f =
     [PageHeader ''Log in'' (Some ''New here?'') [Link ''/register'' ''Create an organization''],
      Controls [Input ''Email'' (cf_email f) True], Controls [Input ''Password'' (cf_password f) True]] @
     optional_paragraph (cf_error f) @
     [Controls [Button (if cf_submitting f then ''Logging in...'' else ''Log in'') (\<not> cf_submitting f)]]"

definition RegisterPage :: "credentials_form \<Rightarrow> element list" where
  "RegisterPage f =
     [PageHeader ''Create your organization'' (Some ''You'll become its owner. Already have an account?'')
        [Link ''/login'' ''Log in''],
      Controls [Input ''Your name'' (cf_displayName f) True],
      Controls [Input ''Organization name'' (cf_organizationName f) True],
      Controls [Input ''Email'' (cf_email f) True], Controls [Input ''Password'' (cf_password f) True],
      Paragraph ''At least 8 characters.''] @
     optional_paragraph (cf_error f) @
     [Controls [Button (if cf_submitting f then ''Creating account...'' else ''Create account'') (\<not> cf_submitting f)]]"

end
