(* ===== verification/Web_Screen.thy ===== *)
theory Web_Screen
  imports Web_Views Web_Form_Views
begin

text \<open>
  A page answers what it shows.  An event of a user comes from a control; the locale
  \<open>rendered_component\<close> adds to a component which control that is, and demands that an event whose
  control is not on screen, or is disabled there, changes nothing and sends nothing.  It is interpreted
  on the pages of the dashboard and of the login with what they render, so that the step functions and
  the rendered elements are one account of the pages.
\<close>

section \<open>Events from the screen\<close>

fun screened ::
  "('e \<Rightarrow> 's \<Rightarrow> 's \<times> 'c option) \<Rightarrow> ('e \<Rightarrow> 's \<Rightarrow> bool) \<Rightarrow> 'e list \<Rightarrow> 's \<Rightarrow> 'e list" where
  "screened step on_screen [] s = []"
| "screened step on_screen (ev # evs) s =
     (if on_screen ev s then [ev] else []) @ screened step on_screen evs (fst (step ev s))"

locale rendered_component = component +
  fixes on_screen :: "'a \<Rightarrow> 'b \<Rightarrow> bool"
  assumes only_on_screen: "state_ok s \<Longrightarrow> \<not> on_screen ev s \<Longrightarrow> step ev s = (s, None)"
begin

lemma screened_run:
  "state_ok s \<Longrightarrow> component_run step (screened step on_screen evs s) s = component_run step evs s"
proof (induction evs arbitrary: s)
  case (Cons ev evs)
  have "state_ok (fst (step ev s))" using keeps Cons.prems .
  note IH = Cons.IH [OF this]
  show ?case
  proof (cases "on_screen ev s")
    case True
    with IH show ?thesis by (cases "step ev s") simp
  next
    case False
    with only_on_screen [OF Cons.prems] IH show ?thesis by (simp split: prod.split)
  qed
qed simp

end

section \<open>Which control an event is of\<close>

fun list_on_screen :: "('a list_view \<Rightarrow> element list) \<Rightarrow> 'a list_event \<Rightarrow> 'a list_view \<Rightarrow> bool" where
  "list_on_screen page (PageSettled res) v = True"
| "list_on_screen page ClickNext v = offers (page v) (Button ''Next'' True)"
| "list_on_screen page ClickPrevious v = offers (page v) (Button ''Previous'' True)"
| "list_on_screen page ClickRetry v = offers (page v) (Button ''Try again'' True)"

fun overview_on_screen :: "dashboard_summary page_event \<Rightarrow> dashboard_summary remote_view \<Rightarrow> bool" where
  "overview_on_screen (DataSettled res) v = True"
| "overview_on_screen ClickRetryPage v = offers (OverviewPage v) (Button ''Try again'' True)"

text \<open>A dialog is dismissed by its own means, with Escape or a click beside it.\<close>

fun dialog_on_screen :: "element \<Rightarrow> dialog_event \<Rightarrow> adjust_dialog \<Rightarrow> bool" where
  "dialog_on_screen e (TypeDelta s) w = offers [e] (Input ''Change in on-hand quantity'' (adj_delta w) True)"
| "dialog_on_screen e (TypeReason s) w = offers [e] (Input ''Reason'' (adj_reason w) True)"
| "dialog_on_screen e SubmitAdjustment w = offers [e] (Button ''Apply adjustment'' True)"
| "dialog_on_screen e ClickBack w = offers [e] (Button ''Back'' True)"
| "dialog_on_screen e ConfirmDecrease w = offers [e] (Button ''Confirm decrease'' True)"
| "dialog_on_screen e (AdjustmentFailed err) w = True"

fun inventory_on_screen ::
  "(string \<Rightarrow> js_number) \<Rightarrow> string \<Rightarrow> membership_role option \<Rightarrow> inventory_event \<Rightarrow> inventory_view \<Rightarrow> bool" where
  "inventory_on_screen toNumber g role ClickRetryInventory v =
     offers (InventoryPage toNumber g role v) (Button ''Try again'' True)"
| "inventory_on_screen toNumber g role (ClickAdjust line) v = offers (InventoryPage toNumber g role v) adjust_button"
| "inventory_on_screen toNumber g role (InDialog ev) v =
     (case iv_adjusting v of
        None \<Rightarrow> False
      | Some (line, w) \<Rightarrow> dialog_on_screen (AdjustInventoryDialog toNumber line w) ev w)"
| "inventory_on_screen toNumber g role _ v = True"

text \<open>Behind an open dialog nothing is clicked; the dialogs are rendered while the order shown is pending.\<close>

fun order_on_screen :: "locale_format \<Rightarrow> order_page_event \<Rightarrow> order_view \<Rightarrow> bool" where
  "order_on_screen lf (ClickTransition t) v \<longleftrightarrow>
     \<not> dialog_open v \<and> offers (OrderDetailView lf v) (Button (transition_label t) True)"
| "order_on_screen lf (ClickConfirm t) v \<longleftrightarrow>
     shows_pending v \<and> offers (transition_dialog t v) (Button (transition_label t) True)"
| "order_on_screen lf (DismissConfirm t) v \<longleftrightarrow> shows_pending v \<and> offers (transition_dialog t v) (Button ''Cancel'' True)"
| "order_on_screen lf _ v = True"

fun form_on_screen :: "order_event \<Rightarrow> order_form \<Rightarrow> bool" where
  "form_on_screen (SelectProduct p) f =
     offers (NewOrderPage f) (Select (of_selected f) (map product_choice (availableProducts f)))"
| "form_on_screen (TypeQuantity s) f = offers (NewOrderPage f) (Input ''Quantity'' (of_quantity f) True)"
| "form_on_screen ClickAddLine f = offers (NewOrderPage f) (Button ''Add line'' True)"
| "form_on_screen (ClickRemoveLine p) f = offers (NewOrderPage f) (Button (''Remove '' @ productName f p) True)"
| "form_on_screen ClickSubmit f = offers (NewOrderPage f) (Button ''Create order'' True)"
| "form_on_screen _ f = True"

fun settings_on_screen :: "membership_role \<Rightarrow> settings_event \<Rightarrow> settings_form \<Rightarrow> bool" where
  "settings_on_screen role (TypeName s) f =
     offers (OrganizationNameForm role f) (Input ''Organization name'' (sf_name f) True)"
| "settings_on_screen role SubmitName f = offers (OrganizationNameForm role f) (Button ''Save'' True)"
| "settings_on_screen role _ f = True"

fun login_on_screen :: "credentials_event \<Rightarrow> credentials_form \<Rightarrow> bool" where
  "login_on_screen SubmitCredentials f = offers (LoginPage f) (Button ''Log in'' True)"
| "login_on_screen _ f = True"

fun register_on_screen :: "credentials_event \<Rightarrow> credentials_form \<Rightarrow> bool" where
  "register_on_screen SubmitCredentials f = offers (RegisterPage f) (Button ''Create account'' True)"
| "register_on_screen _ f = True"

section \<open>The pages\<close>

lemma list_content_offers:
  assumes "\<not> rv_loading v"
  shows "rv_error v \<noteq> None \<Longrightarrow> offers (list_content e heads row v) (Button ''Try again'' True)"
    and "controls_shown v \<Longrightarrow> has_previous v \<Longrightarrow> offers (list_content e heads row v) (Button ''Previous'' True)"
    and "controls_shown v \<Longrightarrow> next_cursor v \<noteq> None \<Longrightarrow> offers (list_content e heads row v) (Button ''Next'' True)"
  using assms
  by (auto simp: list_content_def controls_shown_def remote_shown_def PaginationControls_def split: option.splits if_splits)

lemma controls_not_loading: "controls_shown v \<Longrightarrow> \<not> rv_loading v"
  by (auto simp: controls_shown_def remote_shown_def)

lemma list_only_on_screen:
  assumes "page v = h # list_content e heads row v" and "\<not> list_on_screen page ev v"
  shows "list_step list_call fallback g ev v = (v, None)"
proof (cases ev)
  case ClickNext
  with assms show ?thesis
    using list_content_offers(3) [OF controls_not_loading, of v e heads row] by (cases "next_cursor v") auto
next
  case ClickPrevious
  with assms show ?thesis using list_content_offers(2) [OF controls_not_loading, of v e heads row] by auto
next
  case ClickRetry
  with assms show ?thesis using list_content_offers(1) [of v e heads row] by auto
qed (use assms in simp)

interpretation products_screen:
  rendered_component "products_page_step g" stack_ok "list_call_ok ApiListProducts g" "list_on_screen (ProductsPage lf role)"
proof
  show "products_page_step g ev v = (v, None)"
    if "\<not> list_on_screen (ProductsPage lf role) ev v" for ev v
    by (rule list_only_on_screen [OF ProductsPage_def [unfolded Let_def] that])
qed

interpretation orders_screen:
  rendered_component "orders_page_step g" stack_ok "list_call_ok ApiListOrders g" "list_on_screen (OrdersPage lf)"
proof
  show "orders_page_step g ev v = (v, None)" if "\<not> list_on_screen (OrdersPage lf) ev v" for ev v
    by (rule list_only_on_screen [OF OrdersPage_def that])
qed

interpretation overview_screen:
  rendered_component "overview_step g" "\<lambda>v. True" "\<lambda>c. c = ApiGetDashboardSummary g" overview_on_screen
proof
  show "overview_step g ev v = (v, None)" if "\<not> overview_on_screen ev v" for ev v
    using that by (cases ev) (auto simp: OverviewPage_def split: option.splits if_splits)
  show "c = ApiGetDashboardSummary g" if "snd (overview_step g ev v) = Some c" for ev v c
    using that by (cases ev) (auto simp: fetchSummary_def split: if_splits)
qed simp

lemma dialog_only_on_screen:
  "\<not> dialog_on_screen (AdjustInventoryDialog toNumber line w) ev w \<Longrightarrow> dialog_step toNumber g line ev w = (w, None)"
  by (cases ev) (auto simp: AdjustInventoryDialog_def Let_def adjust_handleSubmit_def split: option.split if_splits)

interpretation inventory_screen:
  rendered_component "inventory_page_step toNumber keys g (role = Some Owner)" "inventory_view_ok toNumber keys (role = Some Owner)"
    "inventory_call_ok keys g" "inventory_on_screen toNumber g role"
proof
  fix v :: inventory_view and ev
  assume v: "inventory_view_ok toNumber keys (role = Some Owner) v"
  show "inventory_page_step toNumber keys g (role = Some Owner) ev v = (v, None)"
    if hidden: "\<not> inventory_on_screen toNumber g role ev v"
  proof (cases ev)
    case (ClickAdjust line)
    then show ?thesis
      using hidden by (auto simp: InventoryPage_def Let_def remote_shown_def inventory_row_def split: option.splits if_splits)
  next
    case (InDialog dev)
    show ?thesis
    proof (cases "iv_adjusting v")
      case (Some lw)
      then obtain line w where lw: "iv_adjusting v = Some (line, w)" by (cases lw) simp
      with v have "dialog_ok toNumber (keys (iv_opened v - 1)) w" by (simp add: inventory_view_ok_def)
      note idle = dialog_ok_render [OF this]
      have "dialog_step toNumber g line dev w = (w, None)"
        using hidden InDialog lw by (intro dialog_only_on_screen) simp
      then show ?thesis using lw idle InDialog by simp
    qed (simp add: InDialog)
  qed (use hidden in \<open>auto simp: InventoryPage_def Let_def split: option.splits if_splits\<close>)
qed

lemma transition_dialog_offers:
  assumes "confirm_enabled t v"
  shows "offers (transition_dialog t v) (Button (transition_label t) True)"
    and "offers (transition_dialog t v) (Button ''Cancel'' True)"
  using assms by (auto simp: confirm_enabled_def transition_dialog_def ConfirmDialog_def Let_def split: option.splits)

lemma order_content_offers:
  assumes "shows_pending v"
  shows "offers (OrderDetailView lf v) (Button (transition_label t) True)"
proof -
  from assms obtain order where order: "\<not> rv_loading v" "rv_error v = None" "rv_data v = Some order" "os_status order = Pending"
    by (auto simp: shows_pending_def remote_shown_def split: option.splits if_splits)
  have content: "OrderDetailView lf v = order_content lf order v" using order by (simp add: OrderDetailView_def)
  show ?thesis by (cases t) (simp_all add: content order_content_def order(4))
qed

interpretation order_screen:
  rendered_component "order_view_step errorText keys g orderId" "order_view_ok keys" "order_call_ok keys g orderId"
    "order_on_screen lf"
proof
  fix v :: order_view and ev
  assume v: "order_view_ok keys v" and hidden: "\<not> order_on_screen lf ev v"
  have "order_view_event errorText keys g orderId ev v = (v, None)"
  proof (cases ev)
    case (ClickTransition t)
    with hidden order_content_offers [of v lf t] show ?thesis by auto
  next
    case (ClickConfirm t)
    with hidden transition_dialog_offers(1) [of t v] confirm_shows_pending [OF v, of t] show ?thesis by auto
  next
    case (DismissConfirm t)
    with hidden transition_dialog_offers(2) [of t v] confirm_shows_pending [OF v, of t] show ?thesis by auto
  qed (use hidden in simp_all)
  then show "order_view_step errorText keys g orderId ev v = (v, None)"
    by (simp add: order_view_step_def order_render_idle [OF v])
qed

lemma form_hidden:
  assumes "\<not> form_on_screen ev f"
  shows "order_form_step toNumber g ev f = (f, None)"
proof (cases "form_shown f")
  case True
  then obtain ps where ps: "of_loadError f = None" "of_products f = Some ps"
    by (auto simp: form_shown_def split: option.splits)
  show ?thesis
  proof (cases ev)
    case (ClickRemoveLine p)
    have "productId line \<noteq> p" if "line \<in> set (of_lines f)" for line
    proof
      assume p: "productId line = p"
      have "offers (NewOrderPage f) (Button (''Remove '' @ productName f p) True)"
        using that ps by (force simp: NewOrderPage_def line_row_def p [symmetric])
      with assms ClickRemoveLine show False by simp
    qed
    then show ?thesis using ClickRemoveLine by (simp add: handleRemoveLine_def)
  qed (use assms ps in \<open>auto simp: NewOrderPage_def product_picker_def\<close>)
qed (use assms in \<open>cases ev; simp\<close>)

interpretation form_screen:
  rendered_component "order_form_step toNumber g" "\<lambda>f. draft_ok (of_lines f) \<and> kh_key (of_key f) = key" "draft_call g key"
    form_on_screen
  by unfold_locales (rule form_hidden)

interpretation settings_screen:
  rendered_component "settings_step g role" "\<lambda>f. True" "\<lambda>c. c = ApiListOrganizations \<or> (\<exists>name. c = ApiRenameOrganization g name)"
    "settings_on_screen role"
proof
  show "settings_step g role ev f = (f, None)" if "\<not> settings_on_screen role ev f" for ev f
    using that by (cases ev) (auto simp: OrganizationNameForm_def split: option.splits if_splits)
  show "c = ApiListOrganizations \<or> (\<exists>name. c = ApiRenameOrganization g name)"
    if "snd (settings_step g role ev f) = Some c" for ev f c
    using that by (cases ev) (auto split: sum.splits option.splits if_splits)
qed simp

interpretation login_screen:
  rendered_component login_page_step "\<lambda>f. True" "\<lambda>c. True" login_on_screen
proof
  show "login_page_step ev f = (f, None)" if "\<not> login_on_screen ev f" for ev f
    using that by (cases ev) (auto simp: LoginPage_def split: if_splits)
qed simp_all

interpretation register_screen:
  rendered_component register_page_step "\<lambda>f. True" "\<lambda>c. True" register_on_screen
proof
  show "register_page_step ev f = (f, None)" if "\<not> register_on_screen ev f" for ev f
    using that by (cases ev) (auto simp: RegisterPage_def split: if_splits)
qed simp_all

section \<open>The pages answer what they show\<close>

lemma screen_start:
  "stack_ok (list_mounted :: 'a list_view)" "inventory_view_ok toNumber keys canAdjust inventory_mounted"
  "draft_ok (of_lines (order_form_mounted ks n)) \<and> kh_key (of_key (order_form_mounted ks n)) = ks n"
  by (simp_all add: stack_ok_def list_mounted_def inventory_view_ok_def inventory_mounted_def order_form_mounted_def
      draft_ok_def useIdempotencyKey_def)

text \<open>A page answers what it shows: in any run of a listing page, the inventory page with its dialog, the
  page of an order with its dialogs, or the order form, the events whose control was not on screen or
  not enabled when they occurred can be left out, and the page is in the same state and has sent the
  same calls.\<close>

theorem pages_answer_the_screen:
  "component_run (products_page_step g)
     (screened (products_page_step g) (list_on_screen (ProductsPage lf role)) levs list_mounted) list_mounted =
   component_run (products_page_step g) levs list_mounted \<and>
   (let step = inventory_page_step toNumber keys g (role = Some Owner) in
    component_run step (screened step (inventory_on_screen toNumber g role) ievs inventory_mounted) inventory_mounted =
    component_run step ievs inventory_mounted) \<and>
   (let step = order_view_step errorText tkeys g orderId in
    component_run step (screened step (order_on_screen lf) oevs (order_mounted tkeys)) (order_mounted tkeys) =
    component_run step oevs (order_mounted tkeys)) \<and>
   (let step = order_form_step toNumber g in
    component_run step (screened step form_on_screen fevs (order_form_mounted keys n)) (order_form_mounted keys n) =
    component_run step fevs (order_form_mounted keys n))"
  unfolding Let_def
  by (intro conjI products_screen.screened_run inventory_screen.screened_run order_screen.screened_run
      form_screen.screened_run [where key = "keys n"] screen_start order_mounted_ok)

end
