(* ===== verification/Web_Permissions.thy ===== *)
theory Web_Permissions
  imports Web_Views Web_Form_Views Web_Contract
begin

text \<open>
  What the pages offer a member of an organization, against what the API's \<open>RolesGuard\<close> permits the
  member's role.
\<close>

definition permitted :: "membership \<Rightarrow> api_call \<Rightarrow> bool" where
  "permitted m c \<longleftrightarrow> RolesGuard (rt_roles (endpoint_route (call_endpoint c))) (Some m) = Inr ()"

lemma owner_calls [simp]:
  "permitted m (ApiCreateProduct g p) \<longleftrightarrow> mem_role m = Owner"
  "permitted m (ApiAdjustInventory g a key) \<longleftrightarrow> mem_role m = Owner"
  "permitted m (ApiRenameOrganization g name) \<longleftrightarrow> mem_role m = Owner"
  by (simp_all add: permitted_def RolesGuard_Inr)

lemma member_calls [simp]:
  "permitted m (ApiCreateReservation g r key)" "permitted m (ApiFulfillOrder g orderId key)"
  "permitted m (ApiCancelOrder g orderId key)"
  by (simp_all add: permitted_def RolesGuard_Inr route_with_def)

text \<open>Products have uuids, so that no product's page is the form for a new one.\<close>

definition named_apart :: "product_summary list_view \<Rightarrow> bool" where
  "named_apart v \<longleftrightarrow>
     (case rv_data v of None \<Rightarrow> True | Some page \<Rightarrow> list_all (\<lambda>p. ps_id p \<noteq> ''new'') (page_items page))"

lemma products_page_offers:
  "named_apart v \<Longrightarrow> offers (ProductsPage lf role v) new_product_link \<longleftrightarrow> role = Some Owner"
  by (auto simp: ProductsPage_def Let_def list_content_def PaginationControls_def new_product_link_def product_row_def
      named_apart_def list_all_iff split: option.splits if_splits)

lemma dialog_offers_no_adjustment: "adjust_button \<notin> set (offered_by (AdjustInventoryDialog toNumber line w))"
  by (auto simp: AdjustInventoryDialog_def adjust_button_def Let_def optional_paragraph_inert split: option.splits)

lemma inventory_page_offers:
  "offers (InventoryPage toNumber g role v) adjust_button \<longleftrightarrow>
     role = Some Owner \<and> (\<exists>l ls. remote_shown v = Some (l # ls))"
  by (auto simp: InventoryPage_def Let_def remote_shown_def dialog_offers_no_adjustment inventory_row_def
      neq_Nil_conv split: option.splits if_splits) (simp_all add: adjust_button_def)

lemma settings_offer:
  "offers (OrganizationNameForm role f) (Button ''Save'' True) \<longleftrightarrow>
     role = Owner \<and> sf_loadError f = None \<and> sf_loaded f \<and> \<not> sf_saving f"
  by (auto simp: OrganizationNameForm_def optional_paragraph_inert split: option.splits)

lemma inert_elements: "\<not> offers (replicate n Skeleton) k" "\<not> offers (map metric_card ms) k"
  by (induction n; simp) (induction ms; simp add: metric_card_def)

lemma overview_offers:
  "offers (OverviewPage v) create_product_link \<longleftrightarrow>
     (\<exists>summary. remote_shown v = Some summary \<and> totalProducts summary = 0)"
  by (auto simp: OverviewPage_def remote_shown_def inert_elements split: option.splits if_splits)
    (simp_all add: create_product_link_def)


definition sample_member :: "membership_role \<Rightarrow> membership" where
  "sample_member role = \<lparr>mem_organizationId = ''g'', mem_userId = ''u'', mem_role = role, mem_createdAt = 0\<rparr>"

definition sample_listing :: "product_summary list_view" where
  "sample_listing = list_mounted\<lparr>rv_data := Some \<lparr>page_items = [offered ''pa'' ''A''], nextCursor = None\<rparr>, rv_loading := False\<rparr>"

definition plain_locale :: locale_format where
  "plain_locale = \<lparr>lf_currency = (\<lambda>x. int_string \<lfloor>x\<rfloor>), lf_date = int_string\<rparr>"


text \<open>The overview of an organization without products invites every member, who may not be permitted.\<close>

lemma overview_invites_staff:
  assumes "remote_shown v = Some summary" and "totalProducts summary = 0" and "mem_role m = Staff"
  shows "offers (OverviewPage v) create_product_link \<and> \<not> permitted m (ApiCreateProduct g p)"
  using assms by (simp add: overview_offers)

end
