(* ===== verification/Web_Browsing.thy ===== *)
theory Web_Browsing
  imports Web_Listing Catalog_Properties
begin

text \<open>
  The product pages a user browses are the pages of the API's listing: from the first page to the one
  without a next page every product of the organization is shown once, the newest first.
\<close>

section \<open>The chain of a followed listing\<close>

definition page_of :: "exn + 'a cursor_page \<Rightarrow> 'a cursor_page" where
  "page_of res = (case res of Inr p \<Rightarrow> p | Inl _ \<Rightarrow> \<lparr>page_items = [], nextCursor = None\<rparr>)"

lemma follow_chain:
  fixes fetch :: "string option \<Rightarrow> exn + 'a cursor_page"
  defines "page \<equiv> \<lambda>c. page_of (fetch c)"
  assumes "follow fetch fuel (cursor_at page j) = Some (Inr xs)"
  shows "\<exists>m \<ge> j. nextCursor (page (cursor_at page m)) = None \<and>
    (\<forall>k. j \<le> k \<and> k < m \<longrightarrow> nextCursor (page (cursor_at page k)) \<noteq> None) \<and>
    (\<forall>k. j \<le> k \<and> k \<le> m \<longrightarrow> fetch (cursor_at page k) = Inr (page (cursor_at page k))) \<and>
    concat (map (\<lambda>k. page_items (page (cursor_at page k))) [j..<Suc m]) = xs"
  using assms(2)
proof (induction fuel arbitrary: j xs)
  case (Suc fuel)
  obtain p where p: "fetch (cursor_at page j) = Inr p" using Suc.prems by (auto split: sum.splits)
  have "page c = page_of (fetch c)" for c by (simp add: page_def)
  then have pg: "page (cursor_at page j) = p" by (simp only: p page_of_def sum.case)
  show ?case
  proof (cases "nextCursor p")
    case None
    then show ?thesis using Suc.prems p pg by (intro exI [of _ j]) (auto simp: le_less)
  next
    case (Some c)
    then have c: "c = the (cursor_at page (Suc j))" "cursor_at page (Suc j) = Some c" using pg by simp_all
    obtain res where res: "follow fetch fuel (cursor_at page (Suc j)) = Some res"
        "map_sum id (\<lambda>rest. page_items p @ rest) res = Inr xs"
      using Suc.prems p Some c(2) by auto
    then obtain rest where rest: "follow fetch fuel (cursor_at page (Suc j)) = Some (Inr rest)" "xs = page_items p @ rest"
      by (cases res) auto
    obtain m where m: "Suc j \<le> m" "nextCursor (page (cursor_at page m)) = None"
        "\<forall>k. Suc j \<le> k \<and> k < m \<longrightarrow> nextCursor (page (cursor_at page k)) \<noteq> None"
        "\<forall>k. Suc j \<le> k \<and> k \<le> m \<longrightarrow> fetch (cursor_at page k) = Inr (page (cursor_at page k))"
        "concat (map (\<lambda>k. page_items (page (cursor_at page k))) [Suc j..<Suc m]) = rest"
      using Suc.IH [OF rest(1)] by blast
    have up: "[j..<Suc m] = j # [Suc j..<Suc m]" using m(1) by (simp add: upt_rec)
    show ?thesis
    proof (intro exI [of _ m] conjI allI impI)
      show "nextCursor (page (cursor_at page k)) \<noteq> None" if "j \<le> k \<and> k < m" for k
        using that m(3) pg Some by (cases "k = j") auto
      show "fetch (cursor_at page k) = Inr (page (cursor_at page k))" if "j \<le> k \<and> k \<le> m" for k
        using that m(4) p pg by (cases "k = j") auto
      show "concat (map (\<lambda>k. page_items (page (cursor_at page k))) [j..<Suc m]) = xs"
        unfolding up using m(5) rest(2) pg by simp
    qed (use m in auto)
  qed
qed simp

lemma list_page_next:
  assumes "list_page cd created ident rows q = Inr p" and "nextCursor p = Some c"
  shows "page_items p \<noteq> [] \<and> (\<exists>r \<in> set rows. c = encodeCursor cd (row_cursor created ident r))"
proof -
  obtain k n where p: "p = paginate cd (row_cursor created ident) (select_page created ident k (n + 1) rows) n"
    using assms(1) by (auto simp: list_page_def Let_def split: if_splits option.splits)
  have ne: "page_items p \<noteq> []" and c: "c = encodeCursor cd (row_cursor created ident (last (page_items p)))"
    using assms(2) unfolding p by (auto simp: paginate_def Let_def split: if_splits)
  have "last (page_items p) \<in> set (select_page created ident k (n + 1) rows)"
    using subsetD [OF paginate_subset last_in_set [OF ne [unfolded p]]] by (simp only: p)
  then have "last (page_items p) \<in> set rows" unfolding select_page_def by (auto dest!: in_set_takeD)
  with ne c show ?thesis by (intro conjI bexI [of _ "last (page_items p)"])
qed

lemma encodeCursor_nonempty: "codec_returns cd f \<Longrightarrow> encodeCursor cd f \<noteq> []"
  by (auto simp: codec_returns_def decodeCursor_def)

section \<open>The products page on the API's listing\<close>

definition catalog_page :: "codec \<Rightarrow> db \<Rightarrow> string \<Rightarrow> string option \<Rightarrow> product_summary cursor_page" where
  \<comment> \<open>the answer to the page's request, a listing that fails apart\<close>
  "catalog_page cd d g cursor = page_of (listProducts cd d g \<lparr>pq_limit = Some (Finite PAGE_SIZE 0), pq_cursor = cursor\<rparr>)"

definition after_clicks :: "codec \<Rightarrow> db \<Rightarrow> string \<Rightarrow> nat \<Rightarrow> product_summary list_view" where
  \<comment> \<open>the page after so many clicks on Next, each answered\<close>
  "after_clicks cd d g k =
     fold (browse_click ApiListProducts ''Could not load products.'' g (catalog_page cd d g)) (replicate k (True, []))
       (answers ApiListProducts ''Could not load products.'' g (catalog_page cd d g) [] list_mounted)"

lemma catalog_page_next:
  assumes "nextCursor (catalog_page cd d g c) = Some c'"
    and "exact_cursors cd prod_createdAt prod_id (products_of (pg_uuid g) d)"
  shows "page_items (catalog_page cd d g c) \<noteq> []" and "c' \<noteq> []"
proof -
  obtain p where p: "list_page cd prod_createdAt prod_id (products_of (pg_uuid g) d)
      \<lparr>pq_limit = Some (Finite PAGE_SIZE 0), pq_cursor = c\<rparr> = Inr p" "nextCursor p = Some c'"
    using assms(1) by (auto simp: catalog_page_def page_of_def listProducts_def map_page_def map_sum_def split: sum.splits)
  then have items: "page_items (catalog_page cd d g c) = map summary_of (page_items p)"
    by (simp add: catalog_page_def page_of_def listProducts_def map_page_def)
  note nxt = list_page_next [OF p]
  from nxt items show "page_items (catalog_page cd d g c) \<noteq> []" by simp
  from nxt assms(2) show "c' \<noteq> []" by (auto simp: exact_cursors_def dest: encodeCursor_nonempty)
qed

lemma chain_nonempty:
  assumes "exact_cursors cd prod_createdAt prod_id (products_of (pg_uuid g) d)"
  shows "cursor_at (catalog_page cd d g) k \<noteq> Some []"
  using catalog_page_next(2) [OF _ assms] by (cases k) auto

lemma turns_forward:
  assumes "\<forall>j < k. page_items (page (cursor_at page j)) \<noteq> [] \<and> nextCursor (page (cursor_at page j)) \<notin> {None, Some []}"
  shows "fold (\<lambda>click. turn page (fst click)) (replicate k (True, [])) 0 = k"
  using assms
proof (induction k)
  case (Suc k)
  have "fold (\<lambda>click. turn page (fst click)) (replicate (Suc k) (True, [])) 0 = turn page True k"
    using Suc by (simp only: replicate_Suc replicate_append_same [symmetric] fold_append fold_simps comp_apply fst_conv) simp
  also have "\<dots> = Suc k" using Suc.prems by (simp add: turn_def Let_def)
  finally show ?case .
qed simp

text \<open>C19. A user who presses Next to the end has seen the catalog: over a database with whole-millisecond
  creation times, each press shows the next page, the button is offered until the last one and not on
  it, and the pages seen hold every product of the organization exactly once, the newest first.\<close>

theorem catalog_browsed:
  assumes "reachable sha a d" and "g \<noteq> []"
    and "exact_cursors cd prod_createdAt prod_id (products_of (pg_uuid g) d)"
  shows "\<exists>m ps pages. (\<forall>k \<le> m. remote_shown (after_clicks cd d g k) = Some (pages k) \<and>
      (next_cursor (after_clicks cd d g k) \<noteq> None \<longleftrightarrow> k < m)) \<and>
    concat (map (\<lambda>k. page_items (pages k)) [0..<Suc m]) = map summary_of ps \<and>
    mset ps = mset (products_of (pg_uuid g) d) \<and>
    sorted_wrt (\<lambda>p q. Position (prod_createdAt q) (prod_id q) < Position (prod_createdAt p) (prod_id p)) ps"
proof -
  let ?page = "catalog_page cd d g" and ?fetch = "\<lambda>c. listProducts cd d g \<lparr>pq_limit = Some (Finite PAGE_SIZE 0), pq_cursor = c\<rparr>"
  let ?ps = "listing prod_createdAt prod_id (products_of (pg_uuid g) d)"
  note listed = followed_listing(1) [OF assms(1,3) lessI, of "Some (Finite PAGE_SIZE 0)"]
    followed_listing(2,3) [OF assms(1,3) lessI]
  have page: "?page = (\<lambda>c. page_of (?fetch c))" by (simp add: fun_eq_iff catalog_page_def)
  obtain m where m: "nextCursor (?page (cursor_at ?page m)) = None"
      "\<forall>k < m. nextCursor (?page (cursor_at ?page k)) \<noteq> None"
      "concat (map (\<lambda>k. page_items (?page (cursor_at ?page k))) [0..<Suc m]) = map summary_of ?ps"
    using follow_chain [of ?fetch _ 0 "map summary_of ?ps"] listed(1) unfolding page cursor_at.simps(1) by blast
  have more: "\<forall>j < m. page_items (?page (cursor_at ?page j)) \<noteq> [] \<and> nextCursor (?page (cursor_at ?page j)) \<notin> {None, Some []}"
    using m(2) catalog_page_next [OF _ assms(3)] by blast
  have shown: "remote_shown (after_clicks cd d g k) = Some (?page (cursor_at ?page k)) \<and>
      (next_cursor (after_clicks cd d g k) \<noteq> None \<longleftrightarrow> k < m)" if "k \<le> m" for k
  proof -
    have "on_page ?page k (after_clicks cd d g k)"
      using browsing_shown [OF assms(2) allI [OF chain_nonempty [OF assms(3)]], of "[]" "replicate k (True, [])"]
        turns_forward [of k ?page] more that by (simp add: after_clicks_def)
    moreover have "nextCursor (?page (cursor_at ?page k)) \<notin> {None, Some []} \<longleftrightarrow> k < m"
      using more m(1) that by (cases "k = m") auto
    ultimately show ?thesis by (auto simp: on_page_def shown_parts next_cursor_def)
  qed
  show ?thesis
    by (intro exI [of _ m] exI [of _ ?ps] exI [of _ "\<lambda>k. ?page (cursor_at ?page k)"] conjI allI impI)
      (use shown m(3) listed in auto)
qed

theorem catalog_browsed_witness:
  "\<exists>m ps pages. (\<forall>k \<le> m. remote_shown (after_clicks catalog_codec (catalog_run 1000000 2000000) catalog_org k) =
      Some (pages k)) \<and>
    concat (map (\<lambda>k. page_items (pages k)) [0..<Suc m]) = map summary_of ps \<and>
    mset ps = mset (catalog_products 1000000 2000000)"
proof -
  have "catalog_org \<noteq> []" by (simp add: catalog_org_def)
  then show ?thesis
    using catalog_browsed [OF reachable_catalog, of catalog_org catalog_codec 1000000 2000000]
    unfolding catalog_products_of using catalog_exact by blast
qed

end
