(* ===== verification/Web_Blank_Page.thy ===== *)
theory Web_Blank_Page
  imports Web_Browsing Web_Screen Web_Permissions
begin

text \<open>
  What becomes of a listing's lost rows on the page: where a page of the API's listing ends within a
  millisecond in which all the remaining products were created, the next page is empty, and the
  products page shows nothing for an empty page that is not the first, not even the way back.
\<close>

section \<open>The page after the cut\<close>

definition sorted_products :: "db \<Rightarrow> string \<Rightarrow> product list" where
  "sorted_products d g = listing prod_createdAt prod_id (products_of (pg_uuid g) d)"

definition cut_cursor :: "codec \<Rightarrow> product \<Rightarrow> string" where
  "cut_cursor cd x = encodeCursor cd (row_cursor prod_createdAt prod_id x)"

lemma page_size: "nat (normalizeLimit (Some (Finite PAGE_SIZE 0))) = 20"
  by code_simp

lemma first_page:
  assumes "20 < length (sorted_products d g)"
  shows "nextCursor (catalog_page cd d g None) = Some (cut_cursor cd (sorted_products d g ! 19))"
    and "page_items (catalog_page cd d g None) \<noteq> []"
proof -
  have n: "(1 :: nat) \<le> 20" "\<not> length (sorted_products d g) \<le> 20" using assms by simp_all
  have page: "catalog_page cd d g None =
      \<lparr>page_items = map summary_of (take 20 (sorted_products d g)),
       nextCursor = Some (cut_cursor cd (sorted_products d g ! 19))\<rparr>"
    using paginate_take [OF n(1), of cd "row_cursor prod_createdAt prod_id" "sorted_products d g"] n(2)
    by (simp add: catalog_page_def listProducts_def list_page_first page_size map_page_def page_of_def sorted_products_def
        cut_cursor_def
        del: normalizeLimit.simps)
  have "take 20 (sorted_products d g) \<noteq> []" using n by (cases "sorted_products d g") auto
  then show "nextCursor (catalog_page cd d g None) = Some (cut_cursor cd (sorted_products d g ! 19))"
    "page_items (catalog_page cd d g None) \<noteq> []"
    by (simp_all add: page)
qed

lemma page_after_cut:
  assumes "db_ok d" and "20 < length (sorted_products d g)"
    and "codec_returns cd (row_cursor prod_createdAt prod_id (sorted_products d g ! 19))"
    and "uuid_in (prod_id (sorted_products d g ! 19)) = Some (prod_id (sorted_products d g ! 19))"
    and same: "\<forall>y \<in> set (drop 20 (sorted_products d g)).
      date_of_timestamp (prod_createdAt y) = date_of_timestamp (prod_createdAt (sorted_products d g ! 19)) \<and>
      \<not> ms_aligned (prod_createdAt y)"
  shows "catalog_page cd d g (Some (cut_cursor cd (sorted_products d g ! 19))) = \<lparr>page_items = [], nextCursor = None\<rparr>"
proof -
  let ?L = "sorted_products d g" and ?key = "row_key prod_createdAt prod_id"
  let ?x = "?L ! 19"
  let ?cut = "Position (timestamp_of_date (date_of_timestamp (prod_createdAt ?x))) (prod_id ?x)"
  have floor: "timestamp_of_date (date_of_timestamp t) \<le> t" for t
    unfolding timestamp_of_date_def date_of_timestamp_def by linarith
  have desc: "sorted_wrt (\<lambda>p q. ?key q < ?key p) ?L"
    unfolding sorted_products_def by (rule listing_descending [OF product_list.distinct_ident [OF assms(1)]])
  have "\<not> ?key y < ?cut" if y: "y \<in> set ?L" for y
  proof -
    have "y \<in> set (take 20 ?L) \<or> y \<in> set (drop 20 ?L)" using y by (metis Un_iff append_take_drop_id set_append)
    then consider i where "i < 20" "y = ?L ! i" | "y \<in> set (drop 20 ?L)" by (auto simp: in_set_conv_nth)
    then show ?thesis
    proof cases
      case 1
      then have "?key ?x \<le> ?key y"
        using desc assms(2) by (cases "i = 19") (auto simp: sorted_wrt_iff_nth_less intro!: less_imp_le)
      moreover have "?cut \<le> ?key ?x" using floor [of "prod_createdAt ?x"] by (simp add: row_key_def le_less)
      ultimately show ?thesis by auto
    next
      case 2
      with same have d: "date_of_timestamp (prod_createdAt y) = date_of_timestamp (prod_createdAt ?x)"
        "timestamp_of_date (date_of_timestamp (prod_createdAt y)) \<noteq> prod_createdAt y"
        by (auto simp: ms_aligned_def)
      with floor [of "prod_createdAt y"] show ?thesis by (auto simp: row_key_def)
    qed
  qed
  then have none: "filter (\<lambda>r. ?key r < ?cut) ?L = []" by (simp add: filter_empty_conv)
  note after = list_page_after [OF assms(3,4), of "products_of (pg_uuid g) d" "Some (Finite PAGE_SIZE 0)"]
  show ?thesis
    unfolding catalog_page_def listProducts_def cut_cursor_def after
    unfolding sorted_products_def [symmetric] none
    by (simp add: paginate_def map_page_def page_of_def)
qed

lemma blank_chain:
  assumes "nextCursor (page None) = Some c" and "nextCursor (page (Some c)) = None" and "c \<noteq> []"
  shows "cursor_at page k \<noteq> Some []"
proof -
  have "cursor_at page k = None \<or> cursor_at page k = Some c"
    by (induction k) (use assms in auto)
  with assms(3) show ?thesis by auto
qed

text \<open>C22. A listing can end in a blank page: where all products after the twentieth were created within the
  millisecond of the twentieth, but not on it, the products page still offers Next, and the page after it
  is only its heading: it shows none of them, offers nothing besides an owner's link to a new product,
  and answers no click, not even to go back.\<close>

theorem next_page_blank:
  assumes "reachable sha a d" and "g \<noteq> []" and "20 < length (sorted_products d g)"
    and "codec_returns cd (row_cursor prod_createdAt prod_id (sorted_products d g ! 19))"
    and "uuid_in (prod_id (sorted_products d g ! 19)) = Some (prod_id (sorted_products d g ! 19))"
    and "\<forall>y \<in> set (drop 20 (sorted_products d g)).
      date_of_timestamp (prod_createdAt y) = date_of_timestamp (prod_createdAt (sorted_products d g ! 19)) \<and>
      \<not> ms_aligned (prod_createdAt y)"
  shows "offers (ProductsPage lf role (after_clicks cd d g 0)) (Button ''Next'' True) \<and>
    (let v = after_clicks cd d g 1 in
       length (ProductsPage lf role v) = 1 \<and>
       (\<forall>k. offers (ProductsPage lf role v) k \<longrightarrow> k = new_product_link) \<and>
       (\<forall>ev \<in> {ClickNext, ClickPrevious, ClickRetry}. products_page_step g ev v = (v, None)))"
proof -
  let ?page = "catalog_page cd d g" and ?c = "cut_cursor cd (sorted_products d g ! 19)"
  note first = first_page [OF assms(3), of cd]
  note blank = page_after_cut [OF api_okD(1) [OF reachable_ok [OF assms(1)]] assms(3-6)]
  have c: "?c \<noteq> []" unfolding cut_cursor_def by (rule encodeCursor_nonempty [OF assms(4)])
  have "cursor_at ?page k \<noteq> Some []" for k by (rule blank_chain [where page = ?page, OF first(1) _ c]) (simp add: blank)
  then have on: "on_page ?page (fold (\<lambda>click. turn ?page (fst click)) (replicate k (True, [])) 0) (after_clicks cd d g k)" for k
    using browsing_shown [OF assms(2), of ?page "[]" "replicate k (True, [])"] by (simp add: after_clicks_def)
  have "on_page ?page 0 (after_clicks cd d g 0)" using on [of 0] by simp
  then have "\<not> rv_loading (after_clicks cd d g 0)" "rv_error (after_clicks cd d g 0) = None"
    "rv_data (after_clicks cd d g 0) = Some (?page None)"
    by (simp_all add: on_page_def shown_parts)
  then have v0: "controls_shown (after_clicks cd d g 0)" "next_cursor (after_clicks cd d g 0) \<noteq> None"
    using first c by (simp_all add: controls_shown_def remote_shown_def next_cursor_def)
  have "turn ?page True 0 = 1" using first c by (simp add: turn_def Let_def)
  then have v1: "on_page ?page 1 (after_clicks cd d g 1)" using on [of 1] by simp
  define v where "v = after_clicks cd d g 1"
  have v: "length (lv_cursorStack v) = 2" "\<not> rv_loading v" "rv_error v = None"
    "rv_data v = Some \<lparr>page_items = [], nextCursor = None\<rparr>"
    using v1 first(1) blank by (auto simp: v_def on_page_def shown_parts)
  have shown: "ProductsPage lf role v =
      [PageHeader ''Products'' (Some ''Your organization's catalog.'') (if role = Some Owner then [new_product_link] else [])]"
    using v by (simp add: ProductsPage_def Let_def list_content_def shown_if_def)
  have "products_page_step g ev v = (v, None)" if "ev \<in> {ClickNext, ClickPrevious, ClickRetry}" for ev
    using that v by (auto simp: controls_shown_def remote_shown_def)
  moreover have "offers (ProductsPage lf role (after_clicks cd d g 0)) (Button ''Next'' True)"
    using list_content_offers(3) [OF controls_not_loading v0, OF v0(1)] v0 by (simp add: ProductsPage_def Let_def)
  ultimately show ?thesis
    unfolding Let_def v_def [symmetric] by (auto simp: shown simp del: list_step.simps split: if_splits)
qed

text \<open>Twenty-one products created within one millisecond; \<open>row_names ! n\<close> is in the ids and the SKU of the n-th.\<close>

definition row_names :: "string list" where
  "row_names =
     [''00'', ''01'', ''02'', ''03'', ''04'', ''05'', ''06'', ''07'', ''08'', ''09'', ''10'', ''11'',
      ''12'', ''13'', ''14'', ''15'', ''16'', ''17'', ''18'', ''19'', ''20'']"

definition row_env :: "nat \<Rightarrow> env" where
  "row_env n = \<lparr>env_now = 1000400 + int n, env_date = 1000,
     env_uuid = (\<lambda>i. ''00000000-0000-4000-8000-000000000'' @ (row_names ! n) @ [hex_digit i])\<rparr>"

definition row_dto :: "nat \<Rightarrow> create_product_dto" where
  "row_dto n = sample_product (row_names ! n) 10"

fun filled :: "nat \<Rightarrow> db" where
  "filled 0 = snd (register sample_argon2 (catalog_env 0 0) sample_register empty_db)"
| "filled (Suc n) = snd (createProduct (row_env n) catalog_org (row_dto n) (filled n))"

lemma row_names_facts:
  "distinct row_names" "length row_names = 21"
  "list_all (\<lambda>s. lower s = s \<and> sku_normalized s = s \<and> create_product_valid (sample_product s 10)) row_names"
  by code_simp+

lemma row_name:
  assumes "n < 21"
  shows "lower (row_names ! n) = row_names ! n" "sku_normalized (row_names ! n) = row_names ! n"
    "create_product_valid (row_dto n)"
  using row_names_facts(3) nth_mem [of n row_names] assms by (auto simp: list_all_iff row_dto_def row_names_facts(2))

lemma rows_apart: "k < n \<Longrightarrow> n < 21 \<Longrightarrow> row_names ! k \<noteq> row_names ! n"
  using row_names_facts(1,2) by (simp add: nth_eq_iff_index_eq)

lemma lower_append: "lower (s @ t) = lower s @ lower t"
  by (simp add: lower_def)

lemma row_uuid:
  "n < 21 \<Longrightarrow> new_uuid (row_env n) i = lower ''00000000-0000-4000-8000-000000000'' @ (row_names ! n) @ lower [hex_digit i]"
  unfolding new_uuid_def row_env_def pg_uuid_def env.simps lower_append by (simp add: row_name)

lemma filled_rows:
  "n \<le> 21 \<Longrightarrow> reachable sample_sha sample_argon2 (filled n) \<and> org_exists (filled n) catalog_org \<and>
   products (filled n) = map (\<lambda>k. new_product (row_env k) catalog_org (row_dto k)) [0..<n] \<and>
   inventory (filled n) = map (\<lambda>k. new_inventory (row_env k) catalog_org (row_dto k)) [0..<n]"
proof (induction n)
  case 0
  have "reachable sample_sha sample_argon2 (filled 0)"
    unfolding reachable_def filled.simps by (rule step_run [OF done_run api_step.register])
  then show ?case by (simp add: catalog_registered)
next
  case (Suc n)
  then have IH: "reachable sample_sha sample_argon2 (filled n)" "org_exists (filled n) catalog_org"
    "products (filled n) = map (\<lambda>k. new_product (row_env k) catalog_org (row_dto k)) [0..<n]"
    "inventory (filled n) = map (\<lambda>k. new_inventory (row_env k) catalog_org (row_dto k)) [0..<n]" and n: "n < 21"
    by simp_all
  have sku: "cp_sku (row_dto k) = row_names ! k" for k by (simp add: row_dto_def sample_product_def)
  have apart: "row_names ! k \<noteq> row_names ! n" "k < 21" if "k < n" for k using rows_apart [OF that n] that n by simp_all
  have "fresh_product_ids (row_env n) (filled n)"
    using apart by (fastforce simp: fresh_product_ids_def IH(3,4) new_product_def new_inventory_def row_uuid n)
  moreover have "\<not> sku_taken (filled n) catalog_org (cp_sku (row_dto n))"
    using apart by (fastforce simp: sku_taken_def IH(3) new_product_def sku row_name n)
  ultimately have step: "filled (Suc n) = with_product (row_env n) catalog_org (row_dto n) (filled n)"
    using catalog_created [OF IH(1) row_name(3) [OF n] IH(2)] by simp
  have "reachable sample_sha sample_argon2 (filled (Suc n))"
    using IH(1) api_step.create_product [OF row_name(3) [OF n]] unfolding reachable_def filled.simps by (rule step_run)
  with IH show ?case by (simp add: step with_product_def org_exists_def del: filled.simps)
qed

lemma filled_listing:
  "sorted_products (filled 21) catalog_org = rev (map (\<lambda>k. new_product (row_env k) catalog_org (row_dto k)) [0..<21])"
proof -
  let ?rows = "map (\<lambda>k. new_product (row_env k) catalog_org (row_dto k)) [0..<21]"
  have "products (filled 21) = ?rows" using filled_rows [of 21] by blast
  then have "products_of (pg_uuid catalog_org) (filled 21) = ?rows"
    by (simp only: products_of_def) (simp add: filter_id_conv new_product_def catalog_ids(5) del: upt_conv_Cons)
  moreover have "sorted (map (row_key prod_createdAt prod_id) ?rows)"
    unfolding sorted_iff_nth_mono
  proof (intro allI impI)
    fix i j assume "i \<le> j" "j < length (map (row_key prod_createdAt prod_id) ?rows)"
    then show "map (row_key prod_createdAt prod_id) ?rows ! i \<le> map (row_key prod_createdAt prod_id) ?rows ! j"
      by (cases "i = j") (auto simp: row_key_def new_product_def row_env_def simp del: upt_conv_Cons)
  qed
  ultimately show ?thesis by (simp only: sorted_products_def listing_def sort_key_id_if_sorted)
qed

lemma filled_cut:
  defines "L \<equiv> sorted_products (filled 21) catalog_org"
  shows "length L = 21" "prod_id (L ! 19) = ''00000000-0000-4000-8000-000000000010''" "prod_createdAt (L ! 19) = 1000401"
    "map prod_createdAt (drop 20 L) = [1000400]"
proof -
  let ?f = "\<lambda>k. new_product (row_env k) catalog_org (row_dto k)"
  have up: "[0..<21] = 0 # 1 # [2..<21 :: nat]" by (simp add: upt_rec)
  have L: "L = rev (map ?f [2..<21]) @ [?f 1, ?f 0]" unfolding L_def filled_listing up by simp
  show "length L = 21" by (simp add: L)
  have cut: "L ! 19 = ?f 1" by (simp add: L nth_append)
  have "new_uuid (row_env 1) 0 = ''00000000-0000-4000-8000-000000000010''"
    unfolding new_uuid_def row_env_def env.simps by code_simp
  then show "prod_id (L ! 19) = ''00000000-0000-4000-8000-000000000010''" by (simp only: cut new_product_def product.simps)
  show "prod_createdAt (L ! 19) = 1000401" by (simp add: cut new_product_def row_env_def)
  show "map prod_createdAt (drop 20 L) = [1000400]" by (simp add: L new_product_def row_env_def)
qed

theorem next_page_blank_witness:
  "let v = after_clicks catalog_codec (filled 21) catalog_org 1 in
   offers (ProductsPage plain_locale (Some Staff) (after_clicks catalog_codec (filled 21) catalog_org 0)) (Button ''Next'' True) \<and>
   products_page_step catalog_org ClickPrevious v = (v, None)"
proof -
  let ?L = "sorted_products (filled 21) catalog_org"
  have run: "reachable sample_sha sample_argon2 (filled 21)" using filled_rows [of 21] by blast
  have org: "catalog_org \<noteq> []" by (simp add: catalog_org_def)
  have "row_cursor prod_createdAt prod_id (?L ! 19) =
      \<lparr>cur_createdAt = 1000, cur_id = ''00000000-0000-4000-8000-000000000010''\<rparr>"
    by (simp add: row_cursor_def filled_cut date_of_timestamp_def)
  then have codec: "codec_returns catalog_codec (row_cursor prod_createdAt prod_id (?L ! 19))"
    by (simp only: catalog_codec_returns(1))
  have uuid: "uuid_in (prod_id (?L ! 19)) = Some (prod_id (?L ! 19))" by (simp only: filled_cut catalog_uuids)
  have same: "\<forall>y \<in> set (drop 20 ?L). date_of_timestamp (prod_createdAt y) = date_of_timestamp (prod_createdAt (?L ! 19)) \<and>
      \<not> ms_aligned (prod_createdAt y)"
  proof
    fix y assume "y \<in> set (drop 20 ?L)"
    then have "prod_createdAt y \<in> set (map prod_createdAt (drop 20 ?L))" by simp
    then have "prod_createdAt y = 1000400" by (simp only: filled_cut list.set insert_iff empty_iff) simp
    then show "date_of_timestamp (prod_createdAt y) = date_of_timestamp (prod_createdAt (?L ! 19)) \<and>
        \<not> ms_aligned (prod_createdAt y)"
      by (simp add: filled_cut date_of_timestamp_def ms_aligned_iff)
  qed
  have "20 < length ?L" by (simp add: filled_cut)
  from next_page_blank [OF run org this codec uuid same, of plain_locale "Some Staff"]
  show ?thesis unfolding Let_def by blast
qed

end
