(* ===== verification/Web_Conflicts.thy ===== *)
theory Web_Conflicts
  imports Web_Order_View Stock_Properties
begin

text \<open>
  The order page against the API: a transition of an order that somebody else has settled, from the
  click on the stale page to what the page shows in the end.
\<close>

section \<open>A transition of a settled order\<close>

definition transition_run ::
  "transition \<Rightarrow> (string \<Rightarrow> string) \<Rightarrow> env \<Rightarrow> string \<Rightarrow> uuid \<Rightarrow> string \<Rightarrow> string \<Rightarrow> db \<Rightarrow> db \<Rightarrow> (exn + response_body) \<times> db" where
  \<comment> \<open>the service a transition's route calls\<close>
  "transition_run t sha e g u x key d later =
     (case t of FulfillOrder \<Rightarrow> fulfill_order sha e g u x key d later | CancelOrder \<Rightarrow> cancelOrder sha e g u x key d later)"

definition transition_operation :: "transition \<Rightarrow> string" where
  "transition_operation t = (case t of FulfillOrder \<Rightarrow> FULFILL_OPERATION | CancelOrder \<Rightarrow> RELEASE_OPERATION)"

definition settled_message :: "transition \<Rightarrow> order_status \<Rightarrow> string" where
  "settled_message t s =
     (case t of FulfillOrder \<Rightarrow> ''Order cannot be fulfilled: it is already \"'' | CancelOrder \<Rightarrow> ''Reservation cannot be released: it is already \"'')
     @ status_string s @ ''\".''"

lemma transition_of_settled:
  assumes db: "db_ok d" and st: "status_of_order g x d = Some s" "s \<noteq> Pending"
    and free: "key_free d (transition_request sha (transition_operation t) g x key)"
  shows "\<exists>k. transition_run t sha e g u x key d later =
    (Inl (HttpException (RejectBody (Message (settled_message t s))) 409), d\<lparr>idempotencyKeys := idempotencyKeys d @ [k]\<rparr>)"
proof -
  let ?rq = "transition_request sha (transition_operation t) g x key"
  let ?d1 = "d\<lparr>idempotencyKeys := idempotencyKeys d @ [claim_row e ?rq]\<rparr>"
  have none: "filter (pending_order g x) (orders ?d1) = []" using settled_not_pending [OF db, of g x] st by simp
  have st1: "status_of_order g x ?d1 = Some s" using st(1) by (simp add: status_of_order_def)
  obtain o' where "o' \<in> set (orders d)" "ord_organizationId o' = pg_uuid g"
    using st(1) by (auto simp: status_of_order_def dest: find_Some_in)
  then have org: "org_exists d (pg_uuid (req_organizationId ?rq))"
    using db_okD(7) [OF db] by (auto simp: orders_ok_def transition_request_def)
  show ?thesis
  proof (cases t)
    case FulfillOrder
    have "fulfillStock e g u x ?d1 = Inr (reject 409 (Message (settled_message t s)), ?d1)"
      using fulfillStock_settled [OF none, of e u] st1 by (simp add: settled_message_def FulfillOrder)
    from idempotent_returns [where work = "fulfillStock e g u x", OF free org this] show ?thesis
      using FulfillOrder
      by (simp add: transition_run_def fulfill_order_def fulfillOrder_def transition_operation_def unwrapOutcome_def) blast
  next
    case CancelOrder
    have "releaseStock e g u x ?d1 = Inr (reject 409 (Message (settled_message t s)), ?d1)"
      using releaseStock_settled [OF none, of e u] st1 by (simp add: settled_message_def CancelOrder)
    from idempotent_returns [where work = "releaseStock e g u x", OF free org this] show ?thesis
      using CancelOrder
      by (simp add: transition_run_def cancelOrder_def releaseReservation_def transition_operation_def unwrapOutcome_def) blast
  qed
qed

text \<open>The order the page fetches next has the status the transition met.\<close>

lemma getOrder_status:
  assumes "status_of_order g x d = Some s"
  shows "\<exists>order. getOrder d g x = Inr order \<and> os_status order = s"
  using assms by (auto simp: status_of_order_def getOrder_def)

text \<open>The error the client makes of a rejection; of its body the client reads the message only, and the
  \<open>error\<close> and \<open>statusCode\<close> fields Nest adds are left out.\<close>

definition rejection_error :: "nat \<Rightarrow> string \<Rightarrow> web_error" where
  "rejection_error code message =
     (case apiFetch_result (FetchResponse (int code) (Some (JObj [(''message'', JStr message)]))) of
        Inl err \<Rightarrow> err | Inr x \<Rightarrow> AbortError)"

lemma settled_error:
  "rejection_error 409 (settled_message t s) =
     ApiError 409 (settled_message t s) (Some (JObj [(''message'', JStr (settled_message t s))]))"
proof -
  have "settled_message t s \<noteq> []" by (simp add: settled_message_def)
  then show ?thesis
    by (simp add: rejection_error_def apiFetch_result_def response_message_def Let_def)
qed

text \<open>C24. A stale order page corrects itself: when the user confirms a transition of an order that the page
  still shows as pending and somebody else has settled, the API refuses it with 409 and changes nothing
  but the key, and after its reload the page shows the order's real status, the API's message as a
  notice, and neither dialog nor button to try again.\<close>

theorem stale_order_page:
  assumes "reachable sha a d" and "status_of_order g x d = Some s" and "s \<noteq> Pending" and "g \<noteq> []"
    and "confirm_enabled t v"
    and "key_free d (transition_request sha (transition_operation t) g x (kh_key (tu_key (transition_ui_of t v))))"
  shows "\<exists>message k order. transition_run t sha e g u x (kh_key (tu_key (transition_ui_of t v))) d later =
      (Inl (HttpException (RejectBody (Message message)) 409), d\<lparr>idempotencyKeys := idempotencyKeys d @ [k]\<rparr>) \<and>
    getOrder (d\<lparr>idempotencyKeys := idempotencyKeys d @ [k]\<rparr>) g x = Inr order \<and> os_status order = s \<and>
    (let v' = after_failure errorText keys g x t (rejection_error 409 message) order v in
     remote_shown v' = Some order \<and> ov_conflictNotice v' = Some message \<and> \<not> shows_pending v' \<and>
     tu_dialog (transition_ui_of t v') = None)"
proof -
  obtain k where k: "transition_run t sha e g u x (kh_key (tu_key (transition_ui_of t v))) d later =
      (Inl (HttpException (RejectBody (Message (settled_message t s))) 409), d\<lparr>idempotencyKeys := idempotencyKeys d @ [k]\<rparr>)"
    using transition_of_settled [OF api_okD(1) [OF reachable_ok [OF assms(1)]] assms(2,3,6)] by blast
  let ?d1 = "d\<lparr>idempotencyKeys := idempotencyKeys d @ [k]\<rparr>"
  have "status_of_order g x ?d1 = Some s" using assms(2) by (simp add: status_of_order_def)
  then obtain order where order: "getOrder ?d1 g x = Inr order" "os_status order = s" using getOrder_status by blast
  show ?thesis
    using k order after_failure_shows [OF assms(5,4), of errorText keys x "rejection_error 409 (settled_message t s)" order] assms(3)
    by (intro exI [of _ "settled_message t s"] exI [of _ k] exI [of _ order])
      (simp add: Let_def settled_error shows_pending_def)
qed

definition db_released :: db where
  "db_released = snd (releaseReservation sample_sha (sample_env 4) sample_org sample_user ''da'' ''k2'' db_reserved db_reserved)"

lemma db_released_facts:
  "reachable sample_sha sample_argon2 db_released"
  "status_of_order sample_org ''da'' db_released = Some Cancelled"
  "key_free db_released (transition_request sample_sha RELEASE_OPERATION sample_org ''da'' ''ck'')"
proof -
  note books = api_okD(2) [OF reachable_ok [OF reachable_reserved]]
  note released = releaseReservation_outcome [OF books sample_order(1-3,5), of "sample_env 4" db_reserved]
  show "reachable sample_sha sample_argon2 db_released"
    using reachable_reserved api_step.release [of sample_sha sample_argon2 db_reserved "sample_env 4" sample_org sample_user "''da''" "''k2''" db_reserved]
    unfolding reachable_def db_released_def by (rule step_run)
  have "status_of_order sample_org ''da'' (after_release (sample_env 4) sample_org sample_user ''da'' db_reserved) = Some Cancelled"
    by (rule status_after_update [OF books sample_order(1,2), where f = "cancel_row (sample_env 4)"])
      (simp_all add: after_release_def Let_def)
  then show "status_of_order sample_org ''da'' db_released = Some Cancelled"
    by (simp add: db_released_def released)
  have "key_free db_reserved (transition_request sample_sha RELEASE_OPERATION sample_org ''da'' ''ck'')" by code_simp
  then show "key_free db_released (transition_request sample_sha RELEASE_OPERATION sample_org ''da'' ''ck'')"
    by (simp add: db_released_def released key_free_def completion_def claim_row_def idem_key_of_def request_key_def transition_request_def)
qed

theorem stale_order_page_witness:
  "\<exists>message k order. getOrder (db_released\<lparr>idempotencyKeys := idempotencyKeys db_released @ [k]\<rparr>) sample_org ''da'' = Inr order \<and>
    os_status order = Cancelled \<and>
    ov_conflictNotice (after_failure (\<lambda>_. ''failed'') sample_keys sample_org ''da'' CancelOrder
      (rejection_error 409 message) order (fst sample_order_run)) = Some message"
proof -
  have g: "sample_org \<noteq> []" by code_simp
  have on: "confirm_enabled CancelOrder (fst sample_order_run)" by code_simp
  have key: "kh_key (tu_key (transition_ui_of CancelOrder (fst sample_order_run))) = ''ck''" by code_simp
  have free: "key_free db_released (transition_request sample_sha (transition_operation CancelOrder) sample_org ''da''
      (kh_key (tu_key (transition_ui_of CancelOrder (fst sample_order_run)))))"
    unfolding key using db_released_facts(3) by (simp add: transition_operation_def)
  from stale_order_page [OF db_released_facts(1,2) _ g on free, of "sample_env 5" sample_user db_released "\<lambda>_. ''failed''" sample_keys]
  show ?thesis unfolding Let_def by blast
qed

end
