(* ===== verification/Web_Fresh_Order.thy ===== *)
theory Web_Fresh_Order
  imports Web_Conflicts Web_Screen Web_Permissions
begin

text \<open>
  The page of an order as it was just fetched, against the API that answered: its buttons are the
  transitions the API accepts in the database it read, and the dates it shows are those of the status.
\<close>

definition fetched_order :: "(web_error \<Rightarrow> string) \<Rightarrow> (transition \<Rightarrow> nat \<Rightarrow> string) \<Rightarrow> string \<Rightarrow> string \<Rightarrow> order_detail \<Rightarrow> order_view" where
  "fetched_order errorText keys g x order =
     fst (order_view_step errorText keys g x (OrderSettled (Inr order)) (order_mounted keys))"

lemma fetched_order_shown:
  fixes errorText keys g x order
  defines "v \<equiv> fetched_order errorText keys g x order"
  shows "remote_shown v = Some order" "OrderDetailView lf v = order_content lf order v"
    "tu_open (transition_ui_of t v) = False" "ov_conflictNotice v = None"
proof -
  have parts: "rv_loading v = False" "rv_error v = None" "rv_data v = Some order"
    by (simp_all add: v_def fetched_order_def order_view_step_def order_render_def order_mounted_def remote_settled_def)
  then show "remote_shown v = Some order" "OrderDetailView lf v = order_content lf order v"
    by (simp_all add: remote_shown_def OrderDetailView_def)
  show "tu_open (transition_ui_of t v) = False"
    by (cases t)
      (simp_all add: v_def fetched_order_def order_view_step_def order_render_def order_mounted_def remote_settled_def
        transition_ui_of_def render_transition_def)
  show "ov_conflictNotice v = None"
    by (simp add: v_def fetched_order_def order_view_step_def order_render_def order_mounted_def remote_settled_def)
qed

lemma closed_dialog: "tu_open (transition_ui_of t v) = False \<Longrightarrow> \<not> offers (transition_dialog t v) k"
  by (simp add: transition_dialog_def Let_def ConfirmDialog_def split: option.split)

lemma fetched_order_offers:
  "offers (OrderDetailView lf (fetched_order errorText keys g x order)) (Button (transition_label t) True) \<longleftrightarrow>
     os_status order = Pending"
  using closed_dialog [OF fetched_order_shown(3)]
  by (cases t) (auto simp: fetched_order_shown(2,4) order_content_def item_row_def)

text \<open>What the fetched order says of the row it was read from.\<close>

lemma getOrder_row:
  assumes "getOrder d g x = Inr order"
  obtains o' where "o' \<in> set (orders d)" "ord_id o' = pg_uuid x" "ord_organizationId o' = pg_uuid g"
    "os_status order = ord_status o'" "os_currency order = ord_currency o'" "od_fulfilledAt order = map_option date_of_timestamp (ord_fulfilledAt o')"
    "od_cancelledAt order = map_option date_of_timestamp (ord_cancelledAt o')" "status_of_order g x d = Some (ord_status o')"
proof -
  obtain o' where o': "find (\<lambda>o'. ord_id o' = pg_uuid x \<and> ord_organizationId o' = pg_uuid g) (orders d) = Some o'"
    using assms by (auto simp: getOrder_def split: option.splits)
  from find_Some_in [OF o'] show thesis
    by (rule_tac that [of o']) (use assms o' in \<open>auto simp: getOrder_def status_of_order_def\<close>)
qed

text \<open>The dates the page of an order must show: the one of its status, under the status's name.\<close>

definition dated :: "locale_format \<Rightarrow> order \<Rightarrow> (string \<times> string) list \<Rightarrow> bool" where
  "dated lf row dates \<longleftrightarrow>
     (case ord_status row of
        Pending \<Rightarrow> dates = []
      | Fulfilled \<Rightarrow> (\<exists>t. ord_fulfilledAt row = Some t \<and> dates = [(''Fulfilled'', formatDate lf (date_of_timestamp t))])
      | Cancelled \<Rightarrow> (\<exists>t. ord_cancelledAt row = Some t \<and> dates = [(''Cancelled'', formatDate lf (date_of_timestamp t))]))"

lemma order_facts_dated:
  assumes "order_consistent o'" and "os_currency order = ord_currency o'"
    and "od_fulfilledAt order = map_option date_of_timestamp (ord_fulfilledAt o')"
    and "od_cancelledAt order = map_option date_of_timestamp (ord_cancelledAt o')"
  shows "\<exists>dates. order_facts lf order = (''Currency'', ord_currency o') # dates \<and> dated lf o' dates"
  using assms
  by (cases "ord_status o'"; cases "ord_fulfilledAt o'"; cases "ord_cancelledAt o'")
    (simp_all add: order_facts_def order_consistent_def dated_def)

text \<open>C20. A fresh order page is right: when the page shows the order as the API just read it, a transition's
  button is offered exactly if the API accepts that transition of the order, by any user and with any
  new key; and its status card shows the row's status, its currency, and of the dates exactly the row's
  date of fulfillment, labelled as such, for a fulfilled order, that of cancellation for a cancelled one,
  and none for a pending one.\<close>

theorem fresh_order_page:
  fixes lf errorText keys g x order
  assumes "reachable sha a d" and "getOrder d g x = Inr order" and "user_exists d (pg_uuid u)"
    and "key_free d (transition_request sha (transition_operation t) g x key)"
  defines "page \<equiv> OrderDetailView lf (fetched_order errorText keys g x order)"
  shows "(offers page (Button (transition_label t) True) \<longleftrightarrow>
      (\<exists>body. fst (transition_run t sha e g u x key d later) = Inr body)) \<and>
    (\<exists>row dates controls. row \<in> set (orders d) \<and> ord_id row = pg_uuid x \<and> ord_organizationId row = pg_uuid g \<and>
       Card (Some ''Status'') None (Some (OrderStatusBadge (ord_status row)))
         (Facts ((''Currency'', ord_currency row) # dates) # controls) \<in> set page \<and>
       dated lf row dates)"
proof
  note ok = api_okD [OF reachable_ok [OF assms(1)]]
  obtain o' where o': "o' \<in> set (orders d)" "ord_id o' = pg_uuid x" "ord_organizationId o' = pg_uuid g"
    "os_status order = ord_status o'" "os_currency order = ord_currency o'"
    "od_fulfilledAt order = map_option date_of_timestamp (ord_fulfilledAt o')"
    "od_cancelledAt order = map_option date_of_timestamp (ord_cancelledAt o')" "status_of_order g x d = Some (ord_status o')"
    by (rule getOrder_row [OF assms(2)])
  have "order_consistent o'" using ok(3) o'(1) by (simp add: orders_consistent_def)
  from order_facts_dated [OF this o'(5-7), of lf] obtain dates
    where dates: "order_facts lf order = (''Currency'', ord_currency o') # dates" "dated lf o' dates" by blast
  have "Card (Some ''Status'') None (Some (OrderStatusBadge (ord_status o'))) (Facts ((''Currency'', ord_currency o') # dates) #
      shown_if (ord_status o' = Pending)
        (Controls [Button (transition_label FulfillOrder) True, Button (transition_label CancelOrder) True])) \<in> set page"
    unfolding page_def fetched_order_shown(2) order_content_def dates(1) o'(4) by simp
  with o'(1-3) dates(2) show "\<exists>row dates controls. row \<in> set (orders d) \<and> ord_id row = pg_uuid x \<and>
      ord_organizationId row = pg_uuid g \<and> Card (Some ''Status'') None (Some (OrderStatusBadge (ord_status row)))
        (Facts ((''Currency'', ord_currency row) # dates) # controls) \<in> set page \<and> dated lf row dates"
    by blast
  have "(\<exists>body. fst (transition_run t sha e g u x key d later) = Inr body) \<longleftrightarrow> ord_status o' = Pending"
  proof (cases "ord_status o' = Pending")
    case True
    with o' have pending: "pending_order g x o'" by (simp add: pending_order_def)
    note accepted = releaseReservation_outcome [OF ok(2) o'(1) pending _ assms(3)] fulfillOrder_outcome [OF ok(2) o'(1) pending _ assms(3)]
    show ?thesis
      using accepted(1) [of sha key e later] accepted(2) [of sha key e later] assms(4) True
      by (cases t) (auto simp: transition_run_def transition_operation_def cancelOrder_def fulfill_order_def)
  next
    case False
    from transition_of_settled [OF ok(1) o'(8) False assms(4), of e u later] show ?thesis using False by auto
  qed
  then show "offers page (Button (transition_label t) True) \<longleftrightarrow>
      (\<exists>body. fst (transition_run t sha e g u x key d later) = Inr body)"
    by (simp add: page_def fetched_order_offers o'(4))
qed

theorem fresh_order_page_witness:
  "\<exists>order. getOrder db_reserved sample_org ''da'' = Inr order \<and>
     offers (OrderDetailView plain_locale (fetched_order (\<lambda>_. ''failed'') sample_keys sample_org ''da'' order))
       (Button (transition_label FulfillOrder) True) =
     (\<exists>body. fst (transition_run FulfillOrder sample_sha (sample_env 4) sample_org sample_user ''da'' ''k2''
       db_reserved db_reserved) = Inr body)"
proof -
  have "\<not> isl (getOrder db_reserved sample_org ''da'')" by code_simp
  then obtain order where order: "getOrder db_reserved sample_org ''da'' = Inr order"
    by (cases "getOrder db_reserved sample_org ''da''") auto
  have free: "key_free db_reserved (transition_request sample_sha (transition_operation FulfillOrder) sample_org ''da'' ''k2'')"
    using sample_order(4) by (simp add: transition_operation_def)
  from fresh_order_page [OF reachable_reserved order sample_order(5) free] order show ?thesis by blast
qed

end
