(* ===== verification/Web_Csrf.thy ===== *)
theory Web_Csrf
  imports Web_Contract Access_Properties
begin

text \<open>
  The CSRF token from the login to the guard: the cookie of the login answer, \<open>document.cookie\<close> in the
  client (\<open>lib/api.ts\<close>), the header of its next request, and the guards of the route it is sent to.
\<close>

lemma login_document_cookie:
  assumes "respond api ci rq (AuthCall (AuthLogin dto)) s = (Inr (LoggedIn u token), cookies, s1)"
  shows "document_cookie cookies = cn_csrf (cookieNames (ap_config api)) @ ''='' @ ci_csrfToken ci"
  by (simp add: login_answer(1) [OF assms] cookie_defs document_cookie_def join_def)

text \<open>A mutating request of the client, with the token its cookies give it.\<close>

lemma mutating_request:
  assumes "call_method c \<noteq> None" and "readCookie CSRF_COOKIE_NAME document = Inr token"
  obtains fq where "api_request API_URL document c = Inr fq"
    and "fq_method fq = rt_method (endpoint_route (call_endpoint c))"
    and "fq_headers fq ''x-csrf-token'' =
      (case token of None \<Rightarrow> None | Some t \<Rightarrow> if t = [] then None else Some (normalize_header t))"
proof -
  let ?m = "rt_method (endpoint_route (call_endpoint c))"
  define fq where "fq = \<lparr>fq_url = API_URL @ ''/api/v1'' @ call_path c, fq_method = ?m,
    fq_headers = fetch_headers ?m (call_options c) token, fq_body = fo_body (call_options c)\<rparr>"
  have unsafe: "?m \<notin> set SAFE_METHODS" using assms(1) call_method_unsafe by blast
  have "api_request API_URL document c = Inr fq"
    using unsafe assms(2) call_method_route [of c]
    by (simp add: api_request_def apiFetch_request_def Let_def call_options_def SAFE_METHODS_def fq_def)
  moreover have "fq_headers fq ''x-csrf-token'' =
      (case token of None \<Rightarrow> None | Some t \<Rightarrow> if t = [] then None else Some (normalize_header t))"
    using unsafe by (auto simp: fq_def fetch_headers_def SAFE_METHODS_def split: option.split)
  ultimately show thesis using that [of fq] by (simp add: fq_def)
qed

lemma CsrfGuard_received:
  assumes "fq_method fq \<notin> set SAFE_METHODS"
  shows "CsrfGuard sha (received jar params fq) (Some sn) =
    (case fq_headers fq ''x-csrf-token'' of
       Some t \<Rightarrow> if t = [] \<or> \<not> verifyCsrfToken sha sn t
         then Inl (http_error 403 ''Missing or invalid CSRF token.'') else Inr ()
     | None \<Rightarrow> Inl (http_error 403 ''Missing or invalid CSRF token.''))"
  using assms by (simp add: CsrfGuard_def received_def CSRF_HEADER_def first_header_def split: option.split)

text \<open>C25. With the default name of the CSRF cookie, the token of a login reaches the guard, except in
  production.  Outside production a mutating call of the client for a route that needs a session, sent
  within thirty minutes with the cookies of the login, is recognised as the user's and passes the CSRF
  guard the route has.  In production the cookie has the \<open>__Host-\<close> prefix, the client looks for the name
  without it and sends no token: the CSRF guard would refuse the request with 403 whichever session it
  were given (that no session is found before it is the separate \<open>production_login_unusable\<close>).\<close>

theorem csrf_token_reaches_guard:
  assumes "reachable (ap_sha api) (ap_argon2 api) (sv_db s)"
    and "respond api ci rq (AuthCall (AuthLogin dto)) s = (Inr (LoggedIn u token), cookies, s1)"
    and "cfg_CSRF_COOKIE_NAME (ap_config api) = ''fulfillos.csrf''"
    and "cfg_SESSION_COOKIE_NAME (ap_config api) \<noteq> ''fulfillos.csrf''" and "ci_token ci \<noteq> []"
    and "ci_csrfToken ci \<noteq> []" and "\<forall>c \<in> set (ci_csrfToken ci). base64url_char c"
    and "call_method c \<noteq> None" and "\<not> rt_public (endpoint_route (call_endpoint c))"
    and "sv_db s2 = sv_db s1" and "env_date (ci_env ci) \<le> env_date (ci_env ci2)"
    and "env_date (ci_env ci2) < env_date (ci_env ci) + IDLE_TIMEOUT_MS"
  shows "\<exists>fq. api_request API_URL (Some (document_cookie cookies)) c = Inr fq \<and>
    UseCsrf \<in> set (rt_guards (endpoint_route (call_endpoint c))) \<and>
    (let rq2 = received (sent_cookies cookies) (call_params c) fq in
     if isProduction (ap_config api)
     then \<forall>sn. CsrfGuard (ap_sha api) rq2 (Some sn) = Inl (http_error 403 ''Missing or invalid CSRF token.'')
     else \<exists>sn us. fst (authenticate api ci2 rq2 (call_endpoint c) (sv_db s2)) = Inr (Some (sn, us)) \<and>
       omitPasswordHash us = u \<and> CsrfGuard (ap_sha api) rq2 (Some sn) = Inr ())"
proof -
  let ?prod = "isProduction (ap_config api)" and ?t = "ci_csrfToken ci"
  have "readCookie CSRF_COOKIE_NAME (Some (document_cookie cookies)) = Inr (if ?prod then None else Some ?t)"
    using readCookie_csrf [OF assms(7)] assms(3)
    by (simp add: login_document_cookie [OF assms(2)] cookieNames_def resolveCookieNames_def)
  from mutating_request [OF assms(8) this] obtain fq where fq: "api_request API_URL (Some (document_cookie cookies)) c = Inr fq"
    and m: "fq_method fq = rt_method (endpoint_route (call_endpoint c))"
    and header: "fq_headers fq ''x-csrf-token'' =
      (case if ?prod then None else Some ?t of None \<Rightarrow> None | Some t \<Rightarrow> if t = [] then None else Some (normalize_header t))"
    by blast
  have "normalize_header ?t = ?t" using assms(7) base64url_plain by (intro normalize_plain) blast
  with header assms(6) have h: "fq_headers fq ''x-csrf-token'' = (if ?prod then None else Some ?t)" by simp
  have unsafe: "fq_method fq \<notin> set SAFE_METHODS" using assms(8) call_method_unsafe m by metis
  note csrf = CsrfGuard_received [OF unsafe] h
  have guard: "UseCsrf \<in> set (rt_guards (endpoint_route (call_endpoint c)))"
    using route_csrf [of "call_endpoint c"] unsafe assms(9) by (auto simp: m SAFE_METHODS_def)
  let ?rq2 = "received (sent_cookies cookies) (call_params c) fq"
  show ?thesis
  proof (cases ?prod)
    case True
    then show ?thesis using fq guard csrf by (simp add: Let_def)
  next
    case False
    have "rq_cookies ?rq2 = sent_cookies cookies" by (simp add: received_def)
    from login_cookies_authenticate [OF assms(1,2) False assms(4) [folded assms(3)] assms(5) this assms(10-12)]
    obtain sn us where "fst (authenticate api ci2 ?rq2 (call_endpoint c) (sv_db s2)) = Inr (Some (sn, us))"
      "omitPasswordHash us = u" "ses_csrfSecretHash sn = ap_sha api ?t" by metis
    moreover from this(3) have "verifyCsrfToken (ap_sha api) sn ?t" by (simp add: verifyCsrfToken_def Let_def)
    ultimately show ?thesis using fq guard csrf False assms(6) by (auto simp: Let_def)
  qed
qed

theorem csrf_token_reaches_guard_witness:
  "\<exists>fq sn us. api_request ''http://localhost:3001'' (Some ''fulfillos.csrf=c5'') ApiLogout = Inr fq \<and>
     fst (authenticate (sample_api Development) (sample_input 3)
       (received (sent_cookies [setSessionCookie ''fulfillos.sid'' ''70'' False, setCsrfCookie ''fulfillos.csrf'' ''c5'' False])
         (call_params ApiLogout) fq) (AuthCall AuthLogout) db_logged_in) = Inr (Some (sn, us)) \<and>
     CsrfGuard sample_sha (received (sent_cookies
         [setSessionCookie ''fulfillos.sid'' ''70'' False, setCsrfCookie ''fulfillos.csrf'' ''c5'' False])
       (call_params ApiLogout) fq) (Some sn) = Inr ()"
proof -
  let ?api = "sample_api Development"
  let ?login = "respond ?api (sample_input 1) register_request (AuthCall (AuthLogin sample_login)) (server_of db_registered)"
  let ?cookies = "[setSessionCookie ''fulfillos.sid'' ''70'' False, setCsrfCookie ''fulfillos.csrf'' ''c5'' False]"
  let ?u = "omitPasswordHash (hd (users db_registered))"
  have "fst ?login = Inr (LoggedIn ?u ''c5'')" by code_simp
  moreover have "fst (snd ?login) = ?cookies" by code_simp
  ultimately have l: "?login = (Inr (LoggedIn ?u ''c5''), ?cookies, snd (snd ?login))" by (simp add: prod_eq_iff)
  have d: "sv_db (snd (snd ?login)) = db_logged_in" by code_simp
  have names: "cfg_CSRF_COOKIE_NAME (ap_config ?api) = ''fulfillos.csrf''"
    "cfg_SESSION_COOKIE_NAME (ap_config ?api) \<noteq> ''fulfillos.csrf''" by code_simp+
  have tokens: "ci_token (sample_input 1) \<noteq> []" "ci_csrfToken (sample_input 1) \<noteq> []"
    "\<forall>c \<in> set (ci_csrfToken (sample_input 1)). base64url_char c" by code_simp+
  have reach: "reachable (ap_sha ?api) (ap_argon2 ?api) (sv_db (server_of db_registered))"
    using reachable_http(1) by (simp add: sample_api_def server_of_def)
  have call: "call_method ApiLogout \<noteq> None" "\<not> rt_public (endpoint_route (call_endpoint ApiLogout))" by code_simp+
  have same: "sv_db (server_of db_logged_in) = sv_db (snd (snd ?login))" 
    unfolding d by (simp add: server_of_def)
  have time: "env_date (ci_env (sample_input 1)) \<le> env_date (ci_env (sample_input 3))"
    "env_date (ci_env (sample_input 3)) < env_date (ci_env (sample_input 1)) + IDLE_TIMEOUT_MS" by code_simp+
  have eqs: "isProduction (ap_config ?api) = False" "document_cookie ?cookies = ''fulfillos.csrf=c5''"
    "ap_sha ?api = sample_sha" "sv_db (server_of db_logged_in) = db_logged_in" "call_endpoint ApiLogout = AuthCall AuthLogout"
    by (code_simp, code_simp, simp add: sample_api_def, simp add: server_of_def, simp)
  from csrf_token_reaches_guard [OF reach l names tokens call same time, of "''http://localhost:3001''"]
  show ?thesis unfolding eqs Let_def if_False by blast
qed

end
