(* ===== verification/Spec2Isabelle.thy ===== *)
theory Spec2Isabelle
  imports Stock_Properties Concurrency_Properties Access_Properties Session_Properties Rate_Limits Test_Support Seed Catalog_Properties
    Web_Submissions Web_Inventory Web_Account Web_Screen Web_Permissions Web_Blank_Page Web_Fresh_Order Web_Csrf
begin

text \<open>
  FulfillOS, an inventory and order fulfillment service for several organizations: an API
  (\<open>apps/api\<close>, NestJS over PostgreSQL and Redis) and its web application (\<open>apps/web\<close>, Next.js).  This
  development models both: the database with its constraints, every service, guard, cookie and route
  of the API, the development scripts that touch a database, and the web application's API client,
  forms, listings, dialogs and contexts.  Properties are numbered \<open>C1\<close>, \<open>C2\<close>, ... in the text before
  their theorem.

  \<^bold>\<open>How the program works.\<close>  A browser page calls \<open>lib/api.ts\<close>, which sends an HTTP request with the
  session cookie, the CSRF token it reads from another cookie and, for stock changes, an idempotency
  key.  The API runs its guards (session, then rate limit, CSRF, membership and roles), validates the
  request and calls a service; a service runs one transaction on the database.  A stock change goes
  through the idempotency mechanism: it claims the key, does its work, stores the outcome under the key,
  and a second request with the key gets the stored outcome.  A reservation raises \<open>reserved\<close> of the
  inventory rows of its products and makes an order; releasing or fulfilling the order lowers it again;
  every change writes to the ledger of movements and the audit log.

  \<^bold>\<open>How it is modelled.\<close>  A table is a list of records in insertion order, the database a record of
  tables; INSERT and UPDATE are functions that fail with the PostgreSQL error of the constraint they
  violate.  A statement that can throw has type \<open>exn + 'a\<close>, where \<open>exn\<close> has the API's exceptions.  A
  transaction that throws leaves the database as it was.  Fresh ids, tokens and the clock are arguments
  (the record \<open>env\<close>).  PostgreSQL's integers are \<open>int\<close> with the range check written out, because the
  database rejects an overflow; JavaScript's numbers are \<open>int\<close> where the program only counts and the
  doubles of \<open>Js_Number\<close> where it multiplies a price.

  \<^bold>\<open>The theories of the API\<close> (paths under \<open>apps/api/src\<close>).
  \<^item> \<open>Prelude\<close>: exceptions, sequencing, text functions, lemmas on lists.  \<open>Outcomes\<close>:
    \<open>common/operation-outcome.util.ts\<close>, \<open>pg-error.util.ts\<close>.
  \<^item> \<open>Schema\<close>, \<open>Constraints\<close>: the tables of \<open>database/schema\<close>, and \<open>db_ok\<close>, their constraints as a
    predicate that every INSERT and UPDATE keeps.
  \<^item> \<open>Canonical_Json\<close>, \<open>Js_Date\<close>, \<open>Pagination\<close>: the payload fingerprint, \<open>toISOString\<close>, and keyset
    pagination with its cursors (\<open>common/\<close>).
  \<^item> \<open>Idempotency\<close> (\<open>idempotency/\<close>), \<open>Products\<close>, \<open>Inventory\<close>, \<open>Reservations\<close> over the shared loop of
    \<open>Stock\<close>, \<open>Orders\<close>, \<open>Dashboard\<close>, \<open>Organizations\<close>, \<open>Auth\<close> and \<open>Sessions\<close>: one theory per service.
  \<^item> \<open>Config\<close>, \<open>Guards\<close>, \<open>Controllers\<close>, \<open>Http\<close>: environment validation, cookies and guards, all 22
    routes with their decorators, and the request cycle \<open>respond\<close>.  \<open>Rate_Limits\<close>: the fixed windows of
    \<open>auth/guards/rate-limit.guard.ts\<close>.
  \<^item> \<open>Test_Database\<close>, \<open>Seed\<close>: the guard of the destructive scripts, and \<open>scripts/seed.ts\<close>.
  \<^item> \<open>Test_Support\<close>: \<open>scripts/migrate.ts\<close>, \<open>migrate-test.ts\<close>, and of \<open>apps/web\<close> the database access and
    the flush of \<open>e2e/\<close> with the environment \<open>playwright.config.ts\<close> gives the API.

  \<^bold>\<open>The theories of the web application\<close> (paths under \<open>apps/web\<close>).
  \<^item> \<open>Web_Client\<close>: \<open>lib/api.ts\<close>.  \<open>Web_Contract\<close>: its requests against the routes of the API,
    \<open>Web_Csrf\<close>: its CSRF token from the login to the guard.
  \<^item> \<open>Web_Components\<close>: the key hook, fetching pages, badges.  A page is a state record and a function
    from events to the next state and the call it sends, if any.
  \<^item> \<open>Web_Order_Form\<close>, \<open>Web_Product_Form\<close> (with \<open>Js_Number\<close>), \<open>Web_Listing\<close>, \<open>Web_Inventory\<close>,
    \<open>Web_Order_View\<close>, \<open>Web_Pages\<close>, \<open>Web_Account\<close>: the pages of \<open>app/\<close> and the contexts of \<open>lib/\<close>.
    \<open>order_traffic\<close> (\<open>Web_Order_View\<close>) is the order page with its calls under way, where only a call that
    was sent is answered.
  \<^item> \<open>Web_Elements\<close>, \<open>Web_Views\<close>, \<open>Web_Form_Views\<close>: what the pages, the bar, the header and the sidebar
    render, as lists of elements with their texts and controls; \<open>Web_Screen\<close>: events and controls.
  \<^item> \<open>Web_Submissions\<close>, \<open>Web_Conflicts\<close>, \<open>Web_Browsing\<close>, \<open>Web_Permissions\<close>, \<open>Web_Fresh_Order\<close>,
    \<open>Web_Blank_Page\<close>: a page composed with the API's services.

  \<^bold>\<open>Specifications and invariants.\<close>
  \<^item> \<open>Books\<close> states what inventory, orders and ledger promise of each other, \<open>History\<close> what no operation
    takes back, \<open>Tenancy\<close> which rows belong to which organization; each is kept by every operation.
  \<^item> \<open>Stock_Spec\<close> is the stock without rows, orders or keys: a map from products to units and four
    operations on it, which the services refine.  \<open>Reservation_Effects\<close> has the services in closed form,
    used by that refinement.
  \<^item> \<open>Row_Locks\<close> is what the services rely on of transactions that run side by side: row locks held to the
    end, writes seen at the commit, in any interleaving with rollbacks.  \<open>Concurrent_Stock\<close> has the
    transactions of the four stock operations over it, lock by lock, and \<open>Concurrent_Services\<close> shows that
    each, run alone, does to the rows of the database what its service does.
  \<^item> \<open>System\<close> is the API as a transition system (\<open>api_step\<close>, \<open>api_run\<close>, \<open>reachable\<close>) over every
    call with any valid request; its invariant \<open>api_ok\<close> joins the above.  \<open>Http\<close> shows that a request is
    at most two of its steps.  \<open>Access\<close> specifies an authorized request.

  \<^bold>\<open>Interfaces.\<close>  \<open>guarded_work\<close> (\<open>Idempotency\<close>) is what the idempotency mechanism needs of the work it
  guards; \<open>stock_operation\<close> (\<open>History\<close>) and \<open>tenant_work\<close> (\<open>Tenancy\<close>) extend it.  All three are interpreted
  on adjusting, reserving, releasing and fulfilling.  \<open>keyset\<close> (\<open>Pagination\<close>) is what a paginated listing
  needs of its table, interpreted on products and orders.  \<open>ordered_scripts\<close> (\<open>Row_Locks\<close>) is the lock
  discipline of a family of transactions, interpreted on the stock operations.  \<open>component\<close>
  (\<open>Web_Components\<close>) is a page with an invariant of its state and of the calls it sends, interpreted on the
  listing pages, the inventory page and its dialog, the order form and the order page.  \<open>rendered_component\<close> (\<open>Web_Screen\<close>) extends it: an
  event whose control is not on screen has no effect; it is interpreted on those pages, the overview,
  the settings, the login and the registration with what they render.

  \<^bold>\<open>What the properties show.\<close>
  \<^item> Here, \<open>Stock_Properties\<close>: in every reachable database the stock is sound and explained by the pending
    orders and by the ledger; each stock operation refines its specification; each happens once per key;
    history is kept.
  \<^item> \<open>Concurrency_Properties\<close>: interleaved stock calls have the effect and the replies of the services
    called in commit order, they never deadlock, and of two transitions of an order one wins.
  \<^item> \<open>Access_Properties\<close>, \<open>Session_Properties\<close>, \<open>Rate_Limits\<close>: who can change and read whose data, what a
    refused request leaves behind, the window of a session token, logout, login and registration, the
    windows of the rate limit.
  \<^item> \<open>Catalog_Properties\<close>, \<open>Config\<close>, \<open>Test_Database\<close>, \<open>Seed\<close>: the catalog, the listings, fingerprints, the
    types of a validated configuration, and the scripts.
  \<^item> The \<open>Web_\<close> theories: the client's calls are the API's routes, the CSRF token reaches its guard, what
    forms and dialogs can send, that pages show what the API holds, answer what they show and offer what
    the API permits, and where they do not.

  Theorems that hold of the code as it is include its defects: an upper-case product id that is
  reported as missing (\<open>upper_case_id_rejected\<close>), a production login no request can use
  (\<open>production_login_unusable\<close>), a form stuck after a rejection (\<open>rejected_order_form_stuck\<close>), and a
  listing that ends in a blank page with rows created within one millisecond unseen
  (\<open>next_page_blank\<close>).  \<open>transition_error_lost\<close>, \<open>counter_without_deadline_blocks\<close>,
  \<open>overview_invites_staff\<close> and \<open>hostname_alias_differs\<close> are further ones.

  \<^bold>\<open>Bounds and fuel.\<close>  \<open>follow\<close> walks the pages of a listing with fuel; one more than the number of rows is
  enough (\<open>follow_complete\<close>), because a page holds at least one row.  The web pages ask for 20 rows.
  Prices are exact for less than \<open>2 ^ 32\<close> cents, which covers the 32-bit column.  All other functions
  are total by structural recursion or by the length of their input.

  \<^bold>\<open>Parameters.\<close>  SHA-256, Argon2, base64, \<open>JSON.parse\<close>, \<open>Date.parse\<close>, the e-mail and UUID checks of
  class-validator, the URL parser and \<open>Number\<close> on texts are arguments of what uses them; where a property
  needs a law of one (a codec that decodes what it encoded, a password hash that verifies, two texts at
  hand on which the digest does not collide), it is a hypothesis.  Redis is a function from commands to replies with the documented laws of
  INCR and EXPIRE (\<open>redis_laws\<close>).  React is modelled by events in the order it delivers them.

  \<^bold>\<open>Not modelled.\<close>
  \<^item> Interleavings inside a transaction other than the four stock operations: a call is one step of
    \<open>System\<close> with one clock reading, and \<open>Concurrency_Properties\<close> justifies that for the calls that contend
    for rows.  The key-share locks of foreign keys are left out: they conflict with no lock taken here.
  \<^item> Surrogate ids no query mentions, indexes, and characters beyond 8 bits.
  \<^item> Nest's modules and listener, connection pools, the OpenAPI decorators: wiring without logic.
  \<^item> Styling, icons, accessibility attributes, and the \<open>components/ui\<close> wrappers of a third-party library;
    number and date formats are the locale's and are arguments.  Dashes in texts are written as two
    hyphens, an ellipsis as three dots.
  \<^item> Tests and fixtures (\<open>*.spec.ts\<close>), what drives a browser or child processes (\<open>e2e/helpers.ts\<close>,
    \<open>e2e/global-setup.ts\<close>), and the build configuration.
\<close>

section \<open>Every reachable database\<close>

text \<open>C1. In every reachable database the stock of every row is sound: nothing is negative, no more is
  reserved than is on hand, nothing exceeds a 32-bit integer, and the reserved units are exactly the
  units of the pending orders' lines for the product.\<close>

theorem reserved_is_pending:
  assumes "reachable sha a d" and "r \<in> set (inventory d)"
  shows "0 \<le> inv_reserved r \<and> inv_reserved r \<le> inv_onHand r \<and> inv_onHand r \<le> PG_INT4_MAX \<and>
    inv_reserved r = pending_units d (inv_productId r)"
proof -
  note books = api_okD(2) [OF reachable_ok [OF assms(1)]]
  then show ?thesis
    using assms(2) db_okD(5) [OF books_okD(1) [OF books]] books_okD(3) [OF books]
    by (auto simp: inventory_ok_def inventory_row_ok_def reserved_backed_def)
qed

theorem reserved_is_pending_witness:
  "inv_reserved (hd (inventory db_reserved)) = pending_units db_reserved ''ba''"
proof -
  have "hd (inventory db_reserved) \<in> set (inventory db_reserved)" by code_simp
  moreover have "inv_productId (hd (inventory db_reserved)) = ''ba''" by code_simp
  ultimately show ?thesis using reserved_is_pending [OF reachable_reserved] by metis
qed

text \<open>C4. In every reachable database the movement ledger explains the stock: on-hand and reserved
  units of a product are the sums of the recorded deltas.\<close>

theorem ledger_explains_stock:
  assumes "reachable sha a d" and "r \<in> set (inventory d)"
  shows "inv_onHand r = ledger mov_onHandDelta d (inv_productId r) \<and>
    inv_reserved r = ledger mov_reservedDelta d (inv_productId r)"
  using books_okD(4) [OF api_okD(2) [OF reachable_ok [OF assms(1)]]] assms(2)
  by (auto simp: ledger_explains_def)

theorem ledger_explains_stock_witness:
  "inv_onHand (hd (inventory db_reserved)) = ledger mov_onHandDelta db_reserved ''ba''"
proof -
  have "hd (inventory db_reserved) \<in> set (inventory db_reserved)" by code_simp
  moreover have "inv_productId (hd (inventory db_reserved)) = ''ba''" by code_simp
  ultimately show ?thesis using ledger_explains_stock [OF reachable_reserved] by metis
qed

section \<open>Exactly once\<close>

text \<open>C5. A reservation happens once per idempotency key: after a call that claimed the key, and any
  further run of the API, the same request with the same key returns the same result, acceptance or
  rejection, and changes nothing.\<close>

theorem createReservation_once:
  assumes "reachable sha a d" and valid: "reservation_valid dto"
    and first: "createReservation sha e g u dto key d later = (r, d1)"
    and ran: "key_free d (create_request sha g dto key)" "\<not> key_free d1 (create_request sha g dto key)"
    and run: "api_run sha a d1 d2"
  shows "createReservation sha e' g u' dto key d2 d2 = (r, d2)"
proof -
  have "api_step sha a d d1"
    using api_step.reserve [OF valid, of sha a d e g u key later] by (simp add: first)
  note ok = run_from_reachable [OF assms(1) this run]
  have once: "createReservation sha e g u dto key d later =
      idempotent e (create_request sha g dto key) (reserveStock e g u dto) d later"
    using first ran by (auto simp: createReservation_def Let_def split: if_splits)
  have grow: "prefix (products d) (products d2)" and ne: "d1 \<noteq> d"
    using ok(6) ran by (auto simp: api_history_def history_def)
  show ?thesis
    unfolding createReservation_admitted_later [OF ok(1,3) [THEN api_okD(1)] grow first ne]
    by (rule reserve_work.replay [OF first [unfolded once] ran keys_kept [OF ok(5,3)]])
qed

theorem createReservation_once_witness:
  "fst (createReservation sample_sha (sample_env 9) sample_org ''zz'' sample_reservation ''k1'' db_reserved db_reserved) =
   fst (createReservation sample_sha (sample_env 3) sample_org sample_user sample_reservation ''k1'' db_stocked db_stocked)"
proof -
  have free: "key_free db_stocked (create_request sample_sha sample_org sample_reservation ''k1'')" by code_simp
  have taken: "\<not> key_free db_reserved (create_request sample_sha sample_org sample_reservation ''k1'')" by code_simp
  show ?thesis
    unfolding createReservation_once [OF reachable_stocked sample_valid(3) db_reserved_run free taken done_run]
    by (simp add: db_reserved_run)
qed

text \<open>An adjustment happens once per idempotency key: after a call that claimed the key, and any
  further run of the API, the same request returns the same result and changes nothing.\<close>

theorem adjustStock_once:
  assumes "reachable sha a d" and first: "adjustStock sha e g dto key d later = (r, d1)"
    and ran: "key_free d (adjust_request sha g dto key)" "\<not> key_free d1 (adjust_request sha g dto key)"
    and run: "api_run sha a d1 d2"
  shows "adjustStock sha e' g dto key d2 d2 = (r, d2)"
proof -
  have "api_step sha a d d1" using api_step.adjust [of sha a d e g dto key later] by (simp add: first)
  note ok = run_from_reachable [OF assms(1) this run]
  show ?thesis
    unfolding adjustStock_def
    by (rule adjust_work.replay [OF first [unfolded adjustStock_def] ran keys_kept [OF ok(5,3)]])
qed

theorem adjustStock_once_witness:
  "let d1 = snd (adjustStock sample_sha (sample_env 4) sample_org (sample_adjust 5) ''k2'' db_reserved db_reserved) in
   adjustStock sample_sha (sample_env 9) sample_org (sample_adjust 5) ''k2'' d1 d1 =
     (fst (adjustStock sample_sha (sample_env 4) sample_org (sample_adjust 5) ''k2'' db_reserved db_reserved), d1)"
proof -
  have free: "key_free db_reserved (adjust_request sample_sha sample_org (sample_adjust 5) ''k2'')" by code_simp
  have taken: "\<not> key_free (snd (adjustStock sample_sha (sample_env 4) sample_org (sample_adjust 5) ''k2''
      db_reserved db_reserved)) (adjust_request sample_sha sample_org (sample_adjust 5) ''k2'')" by code_simp
  show ?thesis
    unfolding Let_def
    by (rule adjustStock_once [OF reachable_reserved prod.collapse [symmetric] free taken done_run])
qed

text \<open>A release happens once per idempotency key, whoever repeats it and however long after.\<close>

theorem releaseReservation_once:
  assumes "reachable sha a d" and first: "releaseReservation sha e g u x key d later = (r, d1)"
    and ran: "key_free d (transition_request sha RELEASE_OPERATION g x key)" "\<not> key_free d1 (transition_request sha RELEASE_OPERATION g x key)"
    and run: "api_run sha a d1 d2"
  shows "releaseReservation sha e' g u' x key d2 d2 = (r, d2)"
proof -
  have "api_step sha a d d1" using api_step.release [of sha a d e g u x key later] by (simp add: first)
  note ok = run_from_reachable [OF assms(1) this run]
  show ?thesis
    unfolding releaseReservation_def
    by (rule release_work.replay [OF first [unfolded releaseReservation_def] ran keys_kept [OF ok(5,3)]])
qed

theorem releaseReservation_once_witness:
  "let d1 = snd (releaseReservation sample_sha (sample_env 4) sample_org sample_user ''da'' ''k2'' db_reserved db_reserved) in
   releaseReservation sample_sha (sample_env 9) sample_org sample_user ''da'' ''k2'' d1 d1 =
     (fst (releaseReservation sample_sha (sample_env 4) sample_org sample_user ''da'' ''k2'' db_reserved db_reserved), d1)"
proof -
  have free: "key_free db_reserved (transition_request sample_sha RELEASE_OPERATION sample_org ''da'' ''k2'')" by code_simp
  have taken: "\<not> key_free (snd (releaseReservation sample_sha (sample_env 4) sample_org sample_user ''da'' ''k2''
      db_reserved db_reserved)) (transition_request sample_sha RELEASE_OPERATION sample_org ''da'' ''k2'')" by code_simp
  show ?thesis
    unfolding Let_def
    by (rule releaseReservation_once [OF reachable_reserved prod.collapse [symmetric] free taken done_run])
qed

text \<open>A fulfillment happens once per idempotency key, whoever repeats it and however long after.\<close>

theorem fulfillOrder_once:
  assumes "reachable sha a d" and first: "fulfillOrder sha e g u x key d later = (r, d1)"
    and ran: "key_free d (transition_request sha FULFILL_OPERATION g x key)" "\<not> key_free d1 (transition_request sha FULFILL_OPERATION g x key)"
    and run: "api_run sha a d1 d2"
  shows "fulfillOrder sha e' g u' x key d2 d2 = (r, d2)"
proof -
  have "api_step sha a d d1" using api_step.fulfill [of sha a d e g u x key later] by (simp add: first)
  note ok = run_from_reachable [OF assms(1) this run]
  show ?thesis
    unfolding fulfillOrder_def
    by (rule fulfill_work.replay [OF first [unfolded fulfillOrder_def] ran keys_kept [OF ok(5,3)]])
qed

theorem fulfillOrder_once_witness:
  "let d1 = snd (fulfillOrder sample_sha (sample_env 4) sample_org sample_user ''da'' ''k2'' db_reserved db_reserved) in
   fulfillOrder sample_sha (sample_env 9) sample_org sample_user ''da'' ''k2'' d1 d1 =
     (fst (fulfillOrder sample_sha (sample_env 4) sample_org sample_user ''da'' ''k2'' db_reserved db_reserved), d1)"
proof -
  have free: "key_free db_reserved (transition_request sample_sha FULFILL_OPERATION sample_org ''da'' ''k2'')" by code_simp
  have taken: "\<not> key_free (snd (fulfillOrder sample_sha (sample_env 4) sample_org sample_user ''da'' ''k2''
      db_reserved db_reserved)) (transition_request sample_sha FULFILL_OPERATION sample_org ''da'' ''k2'')" by code_simp
  show ?thesis
    unfolding Let_def
    by (rule fulfillOrder_once [OF reachable_reserved prod.collapse [symmetric] free taken done_run])
qed

section \<open>History\<close>

text \<open>C11. Nothing is taken back: over any run from a reachable database the catalog, the ledger, the
  order lines, the audit log and the completed idempotency keys only grow, and an order that is
  fulfilled or cancelled never changes again.\<close>

theorem history_is_kept:
  assumes "reachable sha a d" and "api_run sha a d d'"
  shows "prefix (products d) (products d') \<and> prefix (inventoryMovements d) (inventoryMovements d') \<and>
    prefix (orderItems d) (orderItems d') \<and> prefix (auditLog d) (auditLog d') \<and>
    prefix (idempotencyKeys d) (idempotencyKeys d') \<and>
    (\<forall>o' \<in> set (orders d). ord_status o' = Pending \<or> o' \<in> set (orders d'))"
proof -
  have h: "api_history d d'" using api_run_keeps [OF assms(2) reachable_ok [OF assms(1)]] by simp
  have "o' \<in> set (orders d')" if "o' \<in> set (orders d)" "ord_status o' \<noteq> Pending" for o'
    using h that by (fastforce simp: api_history_def history_def orders_evolve_def dest: order_evolves_final)
  with h show ?thesis by (auto simp: api_history_def history_def)
qed

theorem history_is_kept_witness:
  "prefix (inventoryMovements db_stocked) (inventoryMovements db_reserved)"
proof -
  have "api_run sample_sha sample_argon2 db_stocked db_reserved"
    using api_step.reserve [OF sample_valid(3), of sample_sha sample_argon2 db_stocked "sample_env 3" sample_org
        sample_user "''k1''" db_stocked] by (auto simp: db_reserved_run intro: step_run done_run)
  then show ?thesis using history_is_kept [OF reachable_stocked] by blast
qed

end
